(* ===== verification/Prelude.thy ===== *)
theory Prelude
  imports Main "HOL-Library.Word"
begin

unbundle bit_operations_syntax

text \<open>
  Shared vocabulary of the development: the machine integer types of the C++ code, the
  big-endian byte image of a word and its inverse, the contract of a fixed-width big-endian
  reader and writer (a locale that both codecs of the repository implement), list slices as
  iterator ranges, and C strings as bytes.
\<close>

section \<open>Machine types and fact collections\<close>

type_synonym u8 = "8 word"
type_synonym u16 = "16 word"
type_synonym u32 = "32 word"
type_synonym u64 = "64 word"
type_synonym bytes = "8 word list"

named_theorems wire_len \<open>lengths of wire images\<close>
named_theorems wire_read \<open>what a reader returns on a wire image\<close>

text \<open>Cursor offsets stay sums of numerals.\<close>

declare add_2_eq_Suc [simp del] add_2_eq_Suc' [simp del]

section \<open>Words and their bytes\<close>

lemma mask_0xFF: "(0xFF :: 'a::len word) = mask 8"
  by (simp add: mask_eq_exp_minus_1)

lemma low_byte [simp]: "(ucast (v AND 0xFF :: 'a::len word) :: u8) = ucast v"
  unfolding mask_0xFF by (rule bit_word_eqI) (auto simp: bit_simps dest: bit_imp_le_length)

lemma low_byte_drop [simp]:
  "(ucast (drop_bit k v AND 0xFF :: 'a::len word) :: u8) = ucast (drop_bit k v)"
  by (rule low_byte)

lemma mask_0xFFFF: "(0xFFFF :: 'a::len word) = mask 16"
  by (simp add: mask_eq_exp_minus_1)

lemma low_half [simp]: "(ucast (v AND 0xFFFF :: 'a::len word) :: u16) = ucast v"
  unfolding mask_0xFFFF by (rule bit_word_eqI) (auto simp: bit_simps dest: bit_imp_le_length)

lemma bit_byte_high [simp]: "8 \<le> n \<Longrightarrow> \<not> bit (b :: u8) n"
  using bit_imp_le_length [of b n] by auto

lemma bit_half_high [simp]: "16 \<le> n \<Longrightarrow> \<not> bit (b :: u16) n"
  using bit_imp_le_length [of b n] by auto

text \<open>
  The big-endian image of the low \<open>n\<close> bytes of a word, most significant byte first, and the
  word a byte string spells. Both follow the loops of the code: shift by whole bytes, or in
  the next byte.
\<close>

primrec be_bytes :: "nat \<Rightarrow> 'a::len word \<Rightarrow> bytes" where
  "be_bytes 0 v = []"
| "be_bytes (Suc n) v = ucast (drop_bit (8 * n) v) # be_bytes n v"

definition be_push :: "'a::len word \<Rightarrow> u8 \<Rightarrow> 'a word" where
  "be_push u b = push_bit 8 u OR ucast b"

definition be_value :: "bytes \<Rightarrow> 'a::len word" where
  "be_value bs = foldl be_push 0 bs"

lemma length_be_bytes [simp, wire_len]: "length (be_bytes n v) = n"
  by (induction n) auto

lemma be_bytes_2: "be_bytes 2 v = [ucast (drop_bit 8 v), ucast v]"
  by (simp add: numeral_2_eq_2)

lemma be_bytes_3: "be_bytes 3 v = [ucast (drop_bit 16 v), ucast (drop_bit 8 v), ucast v]"
  by (simp add: numeral_3_eq_3)

lemma be_bytes_4:
  "be_bytes 4 v = [ucast (drop_bit 24 v), ucast (drop_bit 16 v), ucast (drop_bit 8 v), ucast v]"
  by (simp add: numeral_eq_Suc)

lemma be_push_drop:
  "be_push (drop_bit (8 * Suc n) v) (ucast (drop_bit (8 * n) v)) = drop_bit (8 * n) (v :: 'a::len word)"
proof (rule bit_word_eqI)
  fix k assume k: "k < LENGTH('a)"
  show "bit (be_push (drop_bit (8 * Suc n) v) (ucast (drop_bit (8 * n) v))) k
      = bit (drop_bit (8 * n) v) k"
  proof (cases "k < 8")
    case True
    with k show ?thesis by (auto simp: be_push_def bit_simps)
  next
    case False
    then have "8 * Suc n + (k - 8) = 8 * n + k" by simp
    with False k show ?thesis by (simp add: be_push_def bit_simps)
  qed
qed

lemma foldl_be_push: "foldl be_push (drop_bit (8 * n) v) (be_bytes n v) = (v :: 'a::len word)"
proof (induction n)
  case 0
  show ?case by simp
next
  case (Suc n)
  have "be_push (drop_bit (8 * Suc n) v) (ucast (drop_bit (8 * n) v)) = drop_bit (8 * n) v"
    by (rule be_push_drop)
  with Suc.IH show ?case by (simp del: mult_Suc_right)
qed

lemma drop_bit_all: "LENGTH('a) \<le> n \<Longrightarrow> drop_bit n (v :: 'a::len word) = 0"
  by (rule bit_word_eqI) (auto simp: bit_simps dest: bit_imp_le_length)

lemma be_value_bytes:
  assumes "LENGTH('a) \<le> 8 * n"
  shows "be_value (be_bytes n v) = (v :: 'a::len word)"
  using foldl_be_push [of n v] by (simp add: be_value_def drop_bit_all [OF assms])

text \<open>The image determines the word, and every byte string of the right length is an image.\<close>

lemma ucast_be_push: "8 \<le> LENGTH('a) \<Longrightarrow> (ucast (be_push (u :: 'a::len word) b) :: u8) = b"
  by (rule bit_word_eqI) (auto simp: be_push_def bit_simps)

lemma be_bytes_snoc: "be_bytes (Suc n) v = be_bytes n (drop_bit 8 v) @ [ucast (v :: 'a::len word)]"
proof (induction n)
  case 0
  show ?case by simp
next
  case (Suc n)
  have "be_bytes (Suc (Suc n)) v = ucast (drop_bit (8 * Suc n) v) # be_bytes (Suc n) v"
    by (simp only: be_bytes.simps(2))
  also have "drop_bit (8 * Suc n) v = drop_bit (8 * n) (drop_bit 8 v)"
    by (simp add: add.commute)
  also note Suc.IH
  finally show ?case by (simp only: be_bytes.simps(2) [of n "drop_bit 8 v"] append_Cons)
qed

lemma be_bytes_cong:
  "(\<And>k. k < 8 * n \<Longrightarrow> bit u k = bit v k) \<Longrightarrow> be_bytes n (u :: 'a::len word) = be_bytes n (v :: 'a word)"
proof (induction n)
  case (Suc n)
  have "(ucast (drop_bit (8 * n) u) :: u8) = ucast (drop_bit (8 * n) v)"
    using Suc.prems by (intro bit_word_eqI) (auto simp: bit_simps)
  with Suc show ?case by simp
qed simp

lemma be_bytes_foldl:
  "8 * length bs \<le> LENGTH('a) \<Longrightarrow> be_bytes (length bs) (foldl be_push (u :: 'a::len word) bs) = bs"
proof (induction bs rule: rev_induct)
  case (snoc b bs)
  let ?w = "foldl be_push u bs"
  have len: "8 * length bs + 8 \<le> LENGTH('a)" using snoc.prems by simp
  have "be_bytes (length bs) (drop_bit 8 (be_push ?w b)) = be_bytes (length bs) ?w"
    using len by (intro be_bytes_cong) (auto simp: be_push_def bit_simps)
  moreover have "(ucast (be_push ?w b) :: u8) = b"
    using len by (intro ucast_be_push) simp
  ultimately show ?case using snoc len by (simp add: be_bytes_snoc del: be_bytes.simps(2))
qed simp

lemma be_bytes_value:
  "length bs = n \<Longrightarrow> 8 * n \<le> LENGTH('a) \<Longrightarrow> be_bytes n (be_value bs :: 'a::len word) = bs"
  unfolding be_value_def using be_bytes_foldl [of bs 0] by auto

section \<open>Iterator ranges\<close>

definition subrange :: "'a list \<Rightarrow> nat \<Rightarrow> nat \<Rightarrow> 'a list" where
  "subrange xs i j = take (j - i) (drop i xs)"

lemma length_subrange: "j \<le> length xs \<Longrightarrow> length (subrange xs i j) = j - i"
  by (simp add: subrange_def)

lemma subrange_append:
  "length xs = i \<Longrightarrow> j = i + length ys \<Longrightarrow> subrange (xs @ ys @ zs) i j = ys"
  by (simp add: subrange_def)

lemma subrange_split:
  assumes "i \<le> j" and "j \<le> k"
  shows "subrange xs i k = subrange xs i j @ subrange xs j k"
proof -
  have "k - i = (j - i) + (k - j)" using assms by simp
  then show ?thesis using assms by (simp only: subrange_def take_add drop_drop le_add_diff_inverse2)
qed

lemma subrange_map:
  "j \<le> length xs \<Longrightarrow> subrange xs i j = map (\<lambda>k. xs ! k) [i..<j]"
  by (auto simp: subrange_def intro!: nth_equalityI)

lemma subrange_all [simp]: "subrange xs 0 (length xs) = xs"
  by (simp add: subrange_def)

section \<open>Fixed-width big-endian readers and writers\<close>

text \<open>
  The two codecs of the repository (\<open>protocol.cpp\<close> and the generated
  \<open>someip_codec_support.hpp\<close>) both append a word to a byte vector most significant byte
  first, and both read one at a cursor after checking that enough bytes remain. The locale
  states that contract once; each pair of code routines is an interpretation.
\<close>

locale be_codec =
  fixes width :: nat
    and wr :: "bytes \<Rightarrow> 'a::len word \<Rightarrow> bytes"
    and rd :: "bytes \<Rightarrow> nat \<Rightarrow> ('a word \<times> nat) option"
  assumes width_bits: "LENGTH('a) = 8 * width"
    and wr_image: "wr out v = out @ be_bytes width v"
    and rd_image: "rd inp pos =
      (if pos + width \<le> length inp
       then Some (be_value (subrange inp pos (pos + width)), pos + width) else None)"
begin

lemma wr_length: "length (wr out v) = length out + width"
  by (simp add: wr_image)

lemma rd_at: "pos = length xs \<Longrightarrow> rd (xs @ be_bytes width v @ ys) pos = Some (v, pos + width)"
  by (simp add: rd_image subrange_append be_value_bytes width_bits)

lemma rd_wr: "rd (wr out v @ rest) (length out) = Some (v, length out + width)"
  using rd_at [of "length out" out v rest] by (simp add: wr_image)

lemma rd_short: "length inp < pos + width \<Longrightarrow> rd inp pos = None"
  by (simp add: rd_image)

lemma rd_some:
  assumes "rd inp pos = Some (v, pos')"
  shows "pos' = pos + width" and "pos + width \<le> length inp"
    and "subrange inp pos (pos + width) = be_bytes width v"
  using assms by (auto simp: rd_image be_bytes_value length_subrange width_bits split: if_splits)

lemma rd_none: "rd inp pos = None \<longleftrightarrow> length inp < pos + width"
  by (auto simp: rd_image)

end

section \<open>Strings as bytes\<close>

text \<open>A \<open>char\<close> of the code is a byte; \<open>c_str\<close> ends at the first NUL.\<close>

definition char_byte :: "char \<Rightarrow> u8" where
  "char_byte c = of_nat (of_char c)"

definition byte_char :: "u8 \<Rightarrow> char" where
  "byte_char b = char_of (unat b)"

lemma byte_char_byte [simp]: "byte_char (char_byte c) = c"
  by (simp add: byte_char_def char_byte_def unat_of_nat)

lemma char_byte_char [simp]: "char_byte (byte_char b) = b"
proof -
  have "unat b < 256" using unsigned_less [of b] by simp
  then show ?thesis by (simp add: byte_char_def char_byte_def)
qed

lemma map_byte_char [simp]: "map byte_char (map char_byte s) = s"
  by (simp add: comp_def)

definition c_str :: "string \<Rightarrow> string" where
  "c_str s = takeWhile (\<lambda>c. c \<noteq> CHR 0x00) s"

lemma c_str_id: "CHR 0x00 \<notin> set s \<Longrightarrow> c_str s = s"
  by (auto simp: c_str_def takeWhile_eq_all_conv)

end
