(* ===== verification/Sd_Types.thy ===== *)
theory Sd_Types
  imports Prelude
begin

text \<open>
  The data of the service-discovery protocol: \<open>types.hpp\<close> and the types and constants of
  \<open>protocol.hpp\<close>. \<open>MessageType\<close> is an enumeration with a fixed underlying type that the
  decoder fills by a cast from any byte, so it is the byte itself, and its enumerators are
  constants.
\<close>

section \<open>Service descriptors\<close>

record ServiceDescriptor =
  service_id :: u16
  instance_id :: u16
  major_version :: u8
  minor_version :: u8
  endpoint_host :: string
  endpoint_port :: u16
  transport :: string

type_synonym ServiceList = "ServiceDescriptor list"

definition default_descriptor :: ServiceDescriptor where
  "default_descriptor = \<lparr> service_id = 0, instance_id = 0, major_version = 1, minor_version = 0,
     endpoint_host = ''127.0.0.1'', endpoint_port = 0, transport = ''udp'' \<rparr>"

section \<open>Packets\<close>

type_synonym MessageType = u8

definition kRequest :: MessageType where [simp]: "kRequest = 0x00"
definition kResponse :: MessageType where [simp]: "kResponse = 0x80"
definition kError :: MessageType where [simp]: "kError = 0x81"

record SdPacket =
  pkt_message_type :: MessageType
  pkt_request_id :: u32
  pkt_payload :: bytes

definition default_packet :: SdPacket where
  "default_packet = \<lparr> pkt_message_type = kError, pkt_request_id = 0, pkt_payload = [] \<rparr>"

section \<open>Protocol constants\<close>

definition kProtocolVersion :: u16 where [simp]: "kProtocolVersion = 1"
definition kSomeIpSdServiceId :: u16 where [simp]: "kSomeIpSdServiceId = 0xFFFF"
definition kSomeIpSdMethodId :: u16 where [simp]: "kSomeIpSdMethodId = 0x8100"
definition kSomeIpClientId :: u16 where [simp]: "kSomeIpClientId = 0x0001"
definition kSomeIpInterfaceVersion :: u8 where [simp]: "kSomeIpInterfaceVersion = 0x01"
definition kSomeIpReturnCodeOk :: u8 where [simp]: "kSomeIpReturnCodeOk = 0x00"
definition kSomeIpReturnCodeMalformed :: u8 where [simp]: "kSomeIpReturnCodeMalformed = 0x09"
definition kSdEntryFindService :: u8 where [simp]: "kSdEntryFindService = 0x00"
definition kSdEntryOfferService :: u8 where [simp]: "kSdEntryOfferService = 0x01"
definition kSdOptionIpv4Endpoint :: u8 where [simp]: "kSdOptionIpv4Endpoint = 0x04"
definition kL4ProtocolUdp :: u8 where [simp]: "kL4ProtocolUdp = 0x11"

end
