(* ===== verification/Sd_Wire.thy ===== *)
theory Sd_Wire
  imports Sd_Types
begin

text \<open>
  The byte-level helpers of \<open>protocol.cpp\<close>: the integer writers and the cursor readers, each
  shown to be an instance of the big-endian codec contract. A cursor is a position into the
  payload; payload sizes stay far below \<open>2 ^ 64\<close> (each is the size of a vector in memory plus at
  most a 32-bit length), so \<open>size_t\<close> arithmetic does not wrap and positions are naturals. A
  reader that fails leaves its outputs alone and its callers give up, so failure is \<open>None\<close>.
\<close>

section \<open>Identifiers\<close>

definition BuildMessageId :: "u16 \<Rightarrow> u16 \<Rightarrow> u32" where
  "BuildMessageId service method = push_bit 16 (ucast service) OR ucast method"

definition BuildRequestId :: "u16 \<Rightarrow> u16 \<Rightarrow> u32" where
  "BuildRequestId client session = push_bit 16 (ucast client) OR ucast session"

lemma BuildRequestId_low: "(ucast (BuildRequestId c s AND 0xFFFF) :: u16) = s"
  unfolding low_half by (rule bit_word_eqI) (simp add: BuildRequestId_def bit_simps)

section \<open>Writers\<close>

definition WriteU16 :: "bytes \<Rightarrow> u16 \<Rightarrow> bytes" where
  "WriteU16 out v = out @ [ucast (drop_bit 8 v AND 0xFF), ucast (v AND 0xFF)]"

definition WriteU24 :: "bytes \<Rightarrow> u32 \<Rightarrow> bytes" where
  "WriteU24 out v =
     out @ [ucast (drop_bit 16 v AND 0xFF), ucast (drop_bit 8 v AND 0xFF), ucast (v AND 0xFF)]"

definition WriteU32 :: "bytes \<Rightarrow> u32 \<Rightarrow> bytes" where
  "WriteU32 out v =
     out @ [ucast (drop_bit 24 v AND 0xFF), ucast (drop_bit 16 v AND 0xFF),
            ucast (drop_bit 8 v AND 0xFF), ucast (v AND 0xFF)]"

section \<open>Readers\<close>

definition ReadU16 :: "bytes \<Rightarrow> nat \<Rightarrow> (u16 \<times> nat) option" where
  "ReadU16 inp pos =
     (if pos + 2 > length inp then None
      else Some (push_bit 8 (ucast (inp ! pos)) OR ucast (inp ! (pos + 1)), pos + 2))"

definition ReadU32 :: "bytes \<Rightarrow> nat \<Rightarrow> (u32 \<times> nat) option" where
  "ReadU32 inp pos =
     (if pos + 4 > length inp then None
      else Some (push_bit 24 (ucast (inp ! pos)) OR push_bit 16 (ucast (inp ! (pos + 1)))
                   OR push_bit 8 (ucast (inp ! (pos + 2))) OR ucast (inp ! (pos + 3)), pos + 4))"

section \<open>Both are big-endian codecs\<close>

lemma be_value_2: "be_value [a, b] = (push_bit 8 (ucast a) OR ucast b :: u16)"
  by (simp add: be_value_def be_push_def)

lemma be_value_4:
  "be_value [a, b, c, d] =
     (push_bit 24 (ucast a) OR push_bit 16 (ucast b) OR push_bit 8 (ucast c) OR ucast d :: u32)"
  by (simp add: be_value_def be_push_def push_bit_or ac_simps)

lemma subrange_2: "i + 2 \<le> length xs \<Longrightarrow> subrange xs i (i + 2) = [xs ! i, xs ! (i + 1)]"
  by (simp add: subrange_map numeral_2_eq_2)

lemma subrange_4:
  "i + 4 \<le> length xs \<Longrightarrow>
     subrange xs i (i + 4) = [xs ! i, xs ! (i + 1), xs ! (i + 2), xs ! (i + 3)]"
  by (simp add: subrange_map upt_conv_Cons numeral_3_eq_3 numeral_2_eq_2)

lemma WriteU16_image [simp]: "WriteU16 out v = out @ be_bytes 2 v"
  by (simp add: WriteU16_def be_bytes_2)

lemma WriteU24_image [simp]: "WriteU24 out v = out @ be_bytes 3 v"
  by (simp add: WriteU24_def be_bytes_3)

lemma WriteU32_image [simp]: "WriteU32 out v = out @ be_bytes 4 v"
  by (simp add: WriteU32_def be_bytes_4)

interpretation U16: be_codec 2 WriteU16 ReadU16
  by unfold_locales (auto simp: ReadU16_def subrange_2 be_value_2)

interpretation U32: be_codec 4 WriteU32 ReadU32
  by unfold_locales (auto simp: ReadU32_def subrange_4 be_value_4)

end
