(* ===== verification/Sd_Packet.thy ===== *)
theory Sd_Packet
  imports Sd_Wire
begin

text \<open>
  The outer SOME/IP frame of \<open>protocol.cpp\<close>: \<open>EncodePacket\<close> and \<open>DecodePacket\<close> with the
  16-byte common header between them. The header structure is copied to and from the buffer with
  \<open>memcpy\<close>: three 32-bit fields held in network order followed by four bytes, without padding,
  which is the image \<open>header_image\<close> writes and \<open>header_of\<close> reads. The exceptions of the
  decoder are values of \<open>decode_error\<close>, one per \<open>throw\<close>.
\<close>

section \<open>The header\<close>

record SomeIpHeader =
  hdr_message_id :: u32
  hdr_length :: u32
  hdr_request_id :: u32
  hdr_protocol_version :: u8
  hdr_interface_version :: u8
  hdr_message_type :: u8
  hdr_return_code :: u8

definition kSomeIpHeaderSize :: nat where [simp]: "kSomeIpHeaderSize = 16"

text \<open>\<open>htonl\<close> puts the most significant byte first in memory, whatever the host order.\<close>

definition header_image :: "SomeIpHeader \<Rightarrow> bytes" where
  "header_image h =
     be_bytes 4 (hdr_message_id h) @ be_bytes 4 (hdr_length h) @ be_bytes 4 (hdr_request_id h)
       @ [hdr_protocol_version h, hdr_interface_version h, hdr_message_type h, hdr_return_code h]"

definition header_of :: "bytes \<Rightarrow> SomeIpHeader" where
  "header_of d =
     \<lparr> hdr_message_id = be_value (subrange d 0 4), hdr_length = be_value (subrange d 4 8),
       hdr_request_id = be_value (subrange d 8 12), hdr_protocol_version = d ! 12,
       hdr_interface_version = d ! 13, hdr_message_type = d ! 14, hdr_return_code = d ! 15 \<rparr>"

section \<open>The codec\<close>

definition EncodePacket :: "SdPacket \<Rightarrow> bytes" where
  "EncodePacket packet =
     (let hdr = \<lparr> hdr_message_id = BuildMessageId kSomeIpSdServiceId kSomeIpSdMethodId,
                  hdr_length = of_nat (8 + length (pkt_payload packet)),
                  hdr_request_id =
                    BuildRequestId kSomeIpClientId (ucast (pkt_request_id packet AND 0xFFFF)),
                  hdr_protocol_version = ucast kProtocolVersion,
                  hdr_interface_version = kSomeIpInterfaceVersion,
                  hdr_message_type = pkt_message_type packet,
                  hdr_return_code =
                    (if pkt_message_type packet = kError then kSomeIpReturnCodeMalformed
                     else kSomeIpReturnCodeOk) \<rparr>
      in header_image hdr @ pkt_payload packet)"

datatype decode_error =
    PacketTooShort
  | UnexpectedServiceMethodId
  | UnsupportedProtocolVersion
  | UnsupportedInterfaceVersion
  | InvalidSomeIpLength
  | SomeIpLengthMismatch

text \<open>\<open>length - 8\<close> is a 32-bit subtraction, after the check that it does not wrap.\<close>

definition DecodePacket :: "bytes \<Rightarrow> decode_error + SdPacket" where
  "DecodePacket data =
     (if length data < kSomeIpHeaderSize then Inl PacketTooShort
      else let hdr = header_of data in
        if hdr_message_id hdr \<noteq> BuildMessageId kSomeIpSdServiceId kSomeIpSdMethodId
        then Inl UnexpectedServiceMethodId
        else if hdr_protocol_version hdr \<noteq> ucast kProtocolVersion
        then Inl UnsupportedProtocolVersion
        else if hdr_interface_version hdr \<noteq> kSomeIpInterfaceVersion
        then Inl UnsupportedInterfaceVersion
        else if hdr_length hdr < 8 then Inl InvalidSomeIpLength
        else let payload_len = unat (hdr_length hdr - 8) in
          if kSomeIpHeaderSize + payload_len \<noteq> length data then Inl SomeIpLengthMismatch
          else Inr \<lparr> pkt_message_type = hdr_message_type hdr,
                     pkt_request_id = ucast (ucast (hdr_request_id hdr AND 0xFFFF) :: u16),
                     pkt_payload = subrange data kSomeIpHeaderSize (kSomeIpHeaderSize + payload_len) \<rparr>)"

section \<open>Header facts\<close>

lemma length_header_image [simp, wire_len]: "length (header_image h) = 16"
  by (simp add: header_image_def)

lemma length_EncodePacket [simp, wire_len]:
  "length (EncodePacket p) = 16 + length (pkt_payload p)"
  by (simp add: EncodePacket_def Let_def)

lemma subrange_prefix: "j \<le> length xs \<Longrightarrow> subrange (xs @ ys) i j = subrange xs i j"
  by (simp add: subrange_def)

lemma header_of_image: "header_of (header_image h @ rest) = h"
proof -
  let ?a = "be_bytes 4 (hdr_message_id h)" and ?b = "be_bytes 4 (hdr_length h)"
    and ?c = "be_bytes 4 (hdr_request_id h)"
  let ?d = "header_image h @ rest"
  have "subrange ?d 0 4 = ?a" and "subrange ?d 4 8 = ?b" and "subrange ?d 8 12 = ?c"
    by (simp_all add: header_image_def subrange_def)
  moreover have "?d ! 12 = hdr_protocol_version h" and "?d ! 13 = hdr_interface_version h"
    and "?d ! 14 = hdr_message_type h" and "?d ! 15 = hdr_return_code h"
    by (simp_all add: header_image_def nth_append)
  ultimately show ?thesis by (simp add: header_of_def be_value_bytes)
qed

lemma header_image_of:
  assumes "16 \<le> length d"
  shows "header_image (header_of d) = take 16 d"
proof -
  have "take 16 d = subrange d 0 16" by (simp add: subrange_def)
  also have "\<dots> = subrange d 0 4 @ subrange d 4 8 @ subrange d 8 12 @ subrange d 12 16"
    using subrange_split [of 0 4 16 d] subrange_split [of 4 8 16 d] subrange_split [of 8 12 16 d]
    by simp
  also have "subrange d 12 16 = [d ! 12, d ! 13, d ! 14, d ! 15]"
    using assms subrange_4 [of 12 d] by simp
  finally have "take 16 d = subrange d 0 4 @ subrange d 4 8 @ subrange d 8 12
      @ [d ! 12, d ! 13, d ! 14, d ! 15]" .
  moreover have "subrange d 0 4 = be_bytes 4 (be_value (subrange d 0 4) :: u32)"
    and "subrange d 4 8 = be_bytes 4 (be_value (subrange d 4 8) :: u32)"
    and "subrange d 8 12 = be_bytes 4 (be_value (subrange d 8 12) :: u32)"
    using assms by (simp_all add: be_bytes_value length_subrange)
  ultimately show ?thesis by (simp add: header_of_def header_image_def)
qed

section \<open>Round trips\<close>

text \<open>The identifier that survives the wire: the low 16 bits.\<close>

definition wire_id :: "u32 \<Rightarrow> u32" where
  "wire_id r = ucast (ucast r :: u16)"

definition on_wire :: "SdPacket \<Rightarrow> SdPacket" where
  "on_wire p = p\<lparr> pkt_request_id := wire_id (pkt_request_id p) \<rparr>"

definition fits_frame :: "SdPacket \<Rightarrow> bool" where
  "fits_frame p \<longleftrightarrow> 8 + length (pkt_payload p) < 2 ^ 32"

lemma wire_id_idem [simp]: "wire_id (wire_id r) = wire_id r"
  unfolding wire_id_def by (rule bit_word_eqI) (auto simp: bit_simps)

lemma wire_id_eq_iff: "wire_id r = r \<longleftrightarrow> unat r < 65536"
proof -
  have "unat (wire_id r) = unat r mod 65536"
    by (simp add: wire_id_def unsigned_ucast_eq take_bit_eq_mod unat_mod)
  then show ?thesis
    by (metis mod_less mod_less_divisor word_unat_eq_iff zero_less_numeral)
qed

lemma frame_length:
  assumes "fits_frame p"
  shows "unat (of_nat (8 + length (pkt_payload p)) - 8 :: u32) = length (pkt_payload p)"
    and "\<not> (of_nat (8 + length (pkt_payload p)) :: u32) < 8"
proof -
  have l: "unat (of_nat (8 + length (pkt_payload p)) :: u32) = 8 + length (pkt_payload p)"
    using assms by (simp add: fits_frame_def unat_of_nat del: of_nat_add)
  show "\<not> (of_nat (8 + length (pkt_payload p)) :: u32) < 8"
    using l by (simp add: word_less_nat_alt)
  show "unat (of_nat (8 + length (pkt_payload p)) - 8 :: u32) = length (pkt_payload p)"
    using assms by (simp add: fits_frame_def unat_of_nat)
qed

lemma DecodePacket_EncodePacket:
  assumes "fits_frame p"
  shows "DecodePacket (EncodePacket p) = Inr (on_wire p)"
  using frame_length [OF assms]
  by (simp add: DecodePacket_def EncodePacket_def Let_def header_of_image subrange_def
      BuildRequestId_low [unfolded low_half] on_wire_def wire_id_def)


text \<open>The decoder accepts nothing else: what it accepts is its own re-encoding up to the client
  id and the return code, which it does not look at.\<close>

lemma header_of_append: "16 \<le> length d \<Longrightarrow> header_of (d @ e) = header_of d"
  by (simp add: header_of_def subrange_prefix nth_append)

lemma header_of_EncodePacket:
  "header_of (EncodePacket p @ e) =
     \<lparr> hdr_message_id = BuildMessageId kSomeIpSdServiceId kSomeIpSdMethodId,
       hdr_length = of_nat (8 + length (pkt_payload p)),
       hdr_request_id = BuildRequestId kSomeIpClientId (ucast (pkt_request_id p)),
       hdr_protocol_version = ucast kProtocolVersion,
       hdr_interface_version = kSomeIpInterfaceVersion,
       hdr_message_type = pkt_message_type p,
       hdr_return_code = (if pkt_message_type p = kError then kSomeIpReturnCodeMalformed
                          else kSomeIpReturnCodeOk) \<rparr>"
  by (simp only: EncodePacket_def Let_def append_assoc header_of_image low_half)

lemma DecodePacket_Inr:
  assumes "DecodePacket d = Inr p"
  shows "length d = 16 + length (pkt_payload p)"
    and "pkt_payload p = drop 16 d"
    and "pkt_message_type p = hdr_message_type (header_of d)"
    and "pkt_request_id p = wire_id (hdr_request_id (header_of d))"
    and "hdr_message_id (header_of d) = BuildMessageId kSomeIpSdServiceId kSomeIpSdMethodId"
    and "hdr_protocol_version (header_of d) = ucast kProtocolVersion"
    and "hdr_interface_version (header_of d) = kSomeIpInterfaceVersion"
    and "hdr_length (header_of d) = of_nat (8 + length (pkt_payload p))"
    and "fits_frame p"
proof -
  let ?h = "header_of d"
  have len8: "8 \<le> hdr_length ?h" and len: "length d = 16 + unat (hdr_length ?h - 8)"
    and p: "p = \<lparr> pkt_message_type = hdr_message_type ?h,
                  pkt_request_id = ucast (ucast (hdr_request_id ?h AND 0xFFFF) :: u16),
                  pkt_payload = subrange d 16 (16 + unat (hdr_length ?h - 8)) \<rparr>"
    using assms by (auto simp: DecodePacket_def Let_def not_less split: if_splits)
  show pl: "pkt_payload p = drop 16 d" using p len by (simp add: subrange_def)
  show lp: "length d = 16 + length (pkt_payload p)" using pl len by simp
  have u: "unat (hdr_length ?h) = 8 + length (pkt_payload p)"
    using len len8 lp by (simp add: unat_sub word_le_nat_alt)
  have "hdr_length ?h = of_nat (unat (hdr_length ?h))" by simp
  then show "hdr_length ?h = of_nat (8 + length (pkt_payload p))"
    by (simp only: u)
  show "fits_frame p"
    using u unsigned_less [of "hdr_length ?h", where ?'a = nat] by (simp add: fits_frame_def)
  show "pkt_message_type p = hdr_message_type ?h" and "pkt_request_id p = wire_id (hdr_request_id ?h)"
    using p by (simp_all add: wire_id_def)
  show "hdr_message_id ?h = BuildMessageId kSomeIpSdServiceId kSomeIpSdMethodId"
    and "hdr_protocol_version ?h = ucast kProtocolVersion"
    and "hdr_interface_version ?h = kSomeIpInterfaceVersion"
    using assms by (auto simp: DecodePacket_def Let_def split: if_splits)
qed

text \<open>A frame cut short, or one with bytes after it, is refused.\<close>

lemma DecodePacket_size_mismatch:
  assumes "fits_frame p" and "length d \<noteq> length (EncodePacket p)" and "16 \<le> length d"
    and "header_of d = header_of (EncodePacket p)"
  shows "DecodePacket d = Inl SomeIpLengthMismatch"
  using assms frame_length [of p] header_of_EncodePacket [of p "[]"]
  by (simp add: DecodePacket_def Let_def)

lemma DecodePacket_truncated:
  assumes "fits_frame p" and "n < length (EncodePacket p)"
  shows "DecodePacket (take n (EncodePacket p)) =
           Inl (if n < 16 then PacketTooShort else SomeIpLengthMismatch)"
proof (cases "n < 16")
  case True
  then show ?thesis by (simp add: DecodePacket_def)
next
  case False
  then have "header_of (take n (EncodePacket p)) = header_of (EncodePacket p)"
    using header_of_append [of "take n (EncodePacket p)" "drop n (EncodePacket p)"] assms by simp
  with False assms show ?thesis by (simp add: DecodePacket_size_mismatch)
qed

lemma DecodePacket_trailing:
  assumes "fits_frame p" and "e \<noteq> []"
  shows "DecodePacket (EncodePacket p @ e) = Inl SomeIpLengthMismatch"
  using assms by (intro DecodePacket_size_mismatch [of p]) (auto simp: header_of_append)

lemma message_id_bytes: "be_bytes 4 (BuildMessageId kSomeIpSdServiceId kSomeIpSdMethodId) = [0xFF, 0xFF, 0x81, 0x00]"
  by (simp add: be_bytes_4 BuildMessageId_def)

lemma be_value_eq_iff:
  assumes "length bs = 4"
  shows "be_value bs = (v :: u32) \<longleftrightarrow> bs = be_bytes 4 v"
  using be_bytes_value [of bs 4, where ?'a = 32] be_value_bytes [where ?'a = 32 and n = 4] assms
  by auto

lemma DecodePacket_accepts:
  "(\<exists>p. DecodePacket d = Inr p) \<longleftrightarrow>
     16 \<le> length d
     \<and> hdr_message_id (header_of d) = BuildMessageId kSomeIpSdServiceId kSomeIpSdMethodId
     \<and> hdr_protocol_version (header_of d) = 1 \<and> hdr_interface_version (header_of d) = 1
     \<and> \<not> hdr_length (header_of d) < 8 \<and> 16 + unat (hdr_length (header_of d) - 8) = length d"
  by (auto simp: DecodePacket_def Let_def split: if_splits)

lemma length_field_iff:
  assumes "16 \<le> length d"
  shows "\<not> (l :: u32) < 8 \<and> 16 + unat (l - 8) = length d \<longleftrightarrow> unat l = length d - 8"
proof (cases "l < 8")
  case True
  then show ?thesis using assms by (simp add: word_less_nat_alt)
next
  case False
  then have "unat (l - 8) = unat l - 8" by (simp add: not_less unat_sub)
  with False assms show ?thesis by (auto simp: word_less_nat_alt)
qed

lemma wire_id_bytes:
  "be_bytes 4 (BuildRequestId c (ucast (wire_id r)))
     = [ucast (drop_bit 8 c), ucast c, ucast (drop_bit 8 r), ucast r]"
proof -
  have "ucast (drop_bit 24 (BuildRequestId c s)) = (ucast (drop_bit 8 c) :: u8)"
    and "ucast (drop_bit 16 (BuildRequestId c s)) = (ucast c :: u8)"
    and "ucast (drop_bit 8 (BuildRequestId c s)) = (ucast (drop_bit 8 s) :: u8)"
    and "ucast (BuildRequestId c s) = (ucast s :: u8)" for s
    by (rule bit_word_eqI; auto simp: BuildRequestId_def bit_simps)+
  moreover have "ucast (drop_bit 8 (ucast (wire_id r) :: u16)) = (ucast (drop_bit 8 r) :: u8)"
    and "ucast (ucast (wire_id r) :: u16) = (ucast r :: u8)"
    by (rule bit_word_eqI; auto simp: wire_id_def bit_simps)+
  ultimately show ?thesis by (simp only: be_bytes_4)
qed

lemma reencoded_header:
  assumes "DecodePacket d = Inr p" and "i < 16" and "i \<notin> {8, 9, 15}"
  shows "header_image (header_of (EncodePacket p)) ! i = header_image (header_of d) ! i"
proof -
  note d = DecodePacket_Inr [OF assms(1)]
  have "i \<in> {0, 1, 2, 3, 4, 5, 6, 7, 10, 11, 12, 13, 14}"
    using assms(2,3) by (simp add: numeral_eq_Suc less_Suc_eq)
  then show ?thesis
    unfolding header_image_def header_of_EncodePacket [of p "[]", simplified append_Nil2]
    by (auto simp: d(3-8) wire_id_bytes simp del: of_nat_add) (simp_all add: be_bytes_4)
qed

section \<open>Properties\<close>

text \<open>C9. A frame that fits a 32-bit length decodes to the packet with its request id cut to the 16
  bits the wire carries; every proper prefix of it is refused (as too short below 16 bytes, else by
  its length field), and so is the frame with any bytes after it.\<close>

theorem frame_exact:
  assumes "fits_frame p"
  shows "DecodePacket (EncodePacket p) = Inr (on_wire p)
    \<and> (\<forall>n < length (EncodePacket p). DecodePacket (take n (EncodePacket p)) =
          Inl (if n < 16 then PacketTooShort else SomeIpLengthMismatch))
    \<and> (\<forall>e. e \<noteq> [] \<longrightarrow> DecodePacket (EncodePacket p @ e) = Inl SomeIpLengthMismatch)"
  using assms DecodePacket_EncodePacket DecodePacket_truncated DecodePacket_trailing by blast

theorem frame_exact_witness:
  "let p = \<lparr> pkt_message_type = kRequest, pkt_request_id = 0x12345678, pkt_payload = [1, 2, 3] \<rparr> in
     DecodePacket (EncodePacket p) = Inr (p\<lparr> pkt_request_id := 0x5678 \<rparr>)"
  using frame_exact [of "\<lparr> pkt_message_type = kRequest, pkt_request_id = 0x12345678, pkt_payload = [1, 2, 3] \<rparr>"]
  by (simp add: fits_frame_def on_wire_def wire_id_def)

text \<open>C8. Exactly which byte strings are accepted: at least a header, the SD message id, versions
  one, and a length field that counts every byte after it.\<close>

theorem decoder_accepts_iff:
  "(\<exists>p. DecodePacket d = Inr p) \<longleftrightarrow>
     16 \<le> length d \<and> take 4 d = [0xFF, 0xFF, 0x81, 0x00] \<and> d ! 12 = 1 \<and> d ! 13 = 1
     \<and> unat (be_value (subrange d 4 8) :: u32) = length d - 8"
proof (cases "16 \<le> length d")
  case True
  have "take 4 d = subrange d 0 4" by (simp add: subrange_def)
  with True have "take 4 d = [0xFF, 0xFF, 0x81, 0x00] \<longleftrightarrow>
      hdr_message_id (header_of d) = BuildMessageId kSomeIpSdServiceId kSomeIpSdMethodId"
    by (simp only: message_id_bytes [symmetric])
      (simp add: header_of_def be_value_eq_iff length_subrange)
  with True show ?thesis
    unfolding DecodePacket_accepts using length_field_iff [OF True]
    by (auto simp: header_of_def)
qed (simp add: DecodePacket_def)

text \<open>C10. The decoder loses only what it does not look at: the re-encoding of what it returns agrees
  with the input outside the client id (bytes 8 and 9) and the return code (byte 15).\<close>

theorem decoder_canonical:
  assumes "DecodePacket d = Inr p"
  shows "length (EncodePacket p) = length d
    \<and> (\<forall>i < length d. i \<notin> {8, 9, 15} \<longrightarrow> EncodePacket p ! i = d ! i)"
proof (intro conjI allI impI)
  note d = DecodePacket_Inr [OF assms]
  show "length (EncodePacket p) = length d" using d(1) by simp
  fix i assume i: "i < length d" "i \<notin> {8, 9, 15}"
  show "EncodePacket p ! i = d ! i"
  proof (cases "i < 16")
    case True
    have "EncodePacket p ! i = header_image (header_of (EncodePacket p)) ! i"
      using True by (simp add: EncodePacket_def Let_def header_of_image nth_append)
    also have "\<dots> = take 16 d ! i"
      using reencoded_header [OF assms True i(2)] d(1) by (simp add: header_image_of)
    finally show ?thesis using True by simp
  next
    case False
    then show ?thesis using d(1,2) i(1)
      by (simp add: EncodePacket_def Let_def nth_append)
  qed
qed

definition sample_frame :: bytes where
  "sample_frame = [0xFF, 0xFF, 0x81, 0x00, 0, 0, 0, 10, 0xAA, 0xBB, 0x12, 0x34, 1, 1, 0x80, 0x55, 7, 8]"

lemma sample_frame_decoded:
  "DecodePacket sample_frame =
     Inr \<lparr> pkt_message_type = kResponse, pkt_request_id = 0x1234, pkt_payload = [7, 8] \<rparr>"
  by (simp add: sample_frame_def DecodePacket_def header_of_def subrange_def be_value_def be_push_def
      BuildMessageId_def Let_def)

theorem decoder_canonical_witness:
  "let p = \<lparr> pkt_message_type = kResponse, pkt_request_id = 0x1234, pkt_payload = [7, 8] \<rparr> in
     DecodePacket sample_frame = Inr p \<and> length (EncodePacket p) = 18 \<and> EncodePacket p ! 11 = 0x34"
  using decoder_canonical [OF sample_frame_decoded] sample_frame_decoded
  by (auto simp: sample_frame_def)

end
