(* ===== verification/Sd_Blocks.thy ===== *)
theory Sd_Blocks
  imports Sd_Wire
begin

text \<open>
  The block structure of a service-discovery payload: four bytes of flags, a length-prefixed array
  of 16-byte entries and a length-prefixed sequence of self-describing options.
  \<open>ParseSdBlocks\<close> is the scanner of \<open>protocol.cpp\<close>; its two \<open>while\<close> loops are functions of the
  cursor, terminating because the cursor moves towards the end of the block. The theory ends with
  the grammar: the scanner accepts exactly the images of well-formed entries and options.
\<close>

section \<open>The scanner\<close>

function entries_loop :: "bytes \<Rightarrow> nat \<Rightarrow> nat \<Rightarrow> bytes list \<Rightarrow> (bytes list \<times> nat) option" where
  "entries_loop payload pos entries_end entries =
     (if pos < entries_end then
        (if pos + 16 > entries_end then None
         else entries_loop payload (pos + 16) entries_end
                (entries @ [subrange payload pos (pos + 16)]))
      else Some (entries, pos))"
  by pat_completeness auto
termination
  by (relation "measure (\<lambda>(payload, pos, entries_end, entries). entries_end - pos)") auto

declare entries_loop.simps [simp del]

function options_loop :: "bytes \<Rightarrow> nat \<Rightarrow> nat \<Rightarrow> bytes list \<Rightarrow> bytes list option" where
  "options_loop payload pos options_end options =
     (if pos < options_end then
        (case ReadU16 payload pos of
           None \<Rightarrow> None
         | Some (opt_payload_len, pos1) \<Rightarrow>
             (if pos1 + 2 + unat opt_payload_len > options_end then None
              else let opt_full_len = 2 + 2 + unat opt_payload_len in
                options_loop payload (pos1 + 2 + unat opt_payload_len) options_end
                  (options @ [subrange payload (pos1 - 2) (pos1 - 2 + opt_full_len)])))
      else Some options)"
  by pat_completeness auto
termination
  by (relation "measure (\<lambda>(payload, pos, options_end, options). options_end - pos)")
    (auto dest: U16.rd_some)

declare options_loop.simps [simp del]

definition ParseSdBlocks :: "bytes \<Rightarrow> (bytes list \<times> bytes list) option" where
  "ParseSdBlocks payload =
     (if length payload < 12 then None
      else case ReadU32 payload (0 + 4) of
        None \<Rightarrow> None
      | Some (entries_len, pos) \<Rightarrow>
          (if pos + unat entries_len > length payload then None
           else case entries_loop payload pos (pos + unat entries_len) [] of
             None \<Rightarrow> None
           | Some (entries, pos) \<Rightarrow>
               (case ReadU32 payload pos of
                  None \<Rightarrow> None
                | Some (options_len, pos) \<Rightarrow>
                    (if pos + unat options_len \<noteq> length payload then None
                     else case options_loop payload pos (pos + unat options_len) [] of
                       None \<Rightarrow> None
                     | Some options \<Rightarrow> Some (entries, options)))))"

section \<open>The grammar\<close>

definition entry_ok :: "bytes \<Rightarrow> bool" where
  "entry_ok e \<longleftrightarrow> length e = 16"

definition option_ok :: "bytes \<Rightarrow> bool" where
  "option_ok opt \<longleftrightarrow> (\<exists>n :: u16. \<exists>body. opt = be_bytes 2 n @ body \<and> length body = 2 + unat n)"

definition sd_image :: "bytes \<Rightarrow> bytes list \<Rightarrow> bytes list \<Rightarrow> bytes" where
  "sd_image flags entries options =
     flags @ be_bytes 4 (of_nat (length (concat entries)) :: u32) @ concat entries
       @ be_bytes 4 (of_nat (length (concat options)) :: u32) @ concat options"

definition blocks_ok :: "bytes list \<Rightarrow> bytes list \<Rightarrow> bool" where
  "blocks_ok entries options \<longleftrightarrow>
     list_all entry_ok entries \<and> list_all option_ok options
       \<and> length (concat entries) < 2 ^ 32 \<and> length (concat options) < 2 ^ 32"

section \<open>The scanner accepts every image\<close>

lemma entries_loop_image:
  assumes "list_all entry_ok es" and "pos = length xs"
  shows "entries_loop (xs @ concat es @ ys) pos (pos + length (concat es)) acc
           = Some (acc @ es, pos + length (concat es))"
  using assms
proof (induction es arbitrary: xs pos acc)
  case Nil
  then show ?case by (simp add: entries_loop.simps)
next
  case (Cons e es)
  let ?p = "xs @ concat (e # es) @ ys"
  have e: "length e = 16" using Cons.prems by (simp add: entry_ok_def)
  have es: "list_all entry_ok es" using Cons.prems by simp
  have s: "subrange ?p pos (pos + 16) = e"
    using subrange_append [of xs pos "pos + 16" e "concat es @ ys"] Cons.prems e by simp
  have "entries_loop ((xs @ e) @ concat es @ ys) (pos + 16)
          (pos + 16 + length (concat es)) (acc @ [e]) = Some ((acc @ [e]) @ es, pos + 16 + length (concat es))"
    using Cons.prems e by (intro Cons.IH es) simp
  with s e show ?case
    by (subst entries_loop.simps) (simp add: add.assoc)
qed

lemma options_loop_image:
  assumes "list_all option_ok os" and "pos = length xs"
  shows "options_loop (xs @ concat os) pos (pos + length (concat os)) acc = Some (acc @ os)"
  using assms
proof (induction os arbitrary: xs pos acc)
  case Nil
  then show ?case by (simp add: options_loop.simps)
next
  case (Cons opt os)
  let ?p = "xs @ concat (opt # os)"
  obtain n :: u16 and body where opt: "opt = be_bytes 2 n @ body" and body: "length body = 2 + unat n"
    using Cons.prems by (auto simp: option_ok_def)
  have os: "list_all option_ok os" using Cons.prems by simp
  have r: "ReadU16 ?p pos = Some (n, pos + 2)"
    using U16.rd_at [of pos xs n "body @ concat os"] Cons.prems opt by simp
  have s: "subrange ?p pos (pos + (4 + unat n)) = opt"
    using subrange_append [of xs pos "pos + (4 + unat n)" opt "concat os"] Cons.prems opt body by simp
  have "options_loop ((xs @ opt) @ concat os) (pos + length opt)
          (pos + length opt + length (concat os)) (acc @ [opt]) = Some ((acc @ [opt]) @ os)"
    using Cons.prems opt by (intro Cons.IH os) simp
  moreover have "length opt = 4 + unat n" using opt body by simp
  ultimately show ?case using r s
    by (subst options_loop.simps) (simp add: Let_def add.assoc)
qed

lemma ParseSdBlocks_image:
  assumes "blocks_ok es os" and "length flags = 4"
  shows "ParseSdBlocks (sd_image flags es os) = Some (es, os)"
proof -
  let ?E = "concat es" and ?O = "concat os"
  let ?el = "of_nat (length ?E) :: u32" and ?ol = "of_nat (length ?O) :: u32"
  let ?p = "sd_image flags es os"
  have el: "unat ?el = length ?E" and ol: "unat ?ol = length ?O"
    using assms by (simp_all add: blocks_ok_def unat_of_nat)
  have r1: "ReadU32 ?p (0 + 4) = Some (?el, 8)"
    using U32.rd_at [of 4 flags ?el] assms(2) by (simp add: sd_image_def)
  have e: "entries_loop ?p 8 (8 + length ?E) [] = Some (es, 8 + length ?E)"
    using entries_loop_image [of es 8 "flags @ be_bytes 4 ?el" "be_bytes 4 ?ol @ ?O" "[]"] assms
    by (simp add: sd_image_def blocks_ok_def)
  have r2: "ReadU32 ?p (8 + length ?E) = Some (?ol, 12 + length ?E)"
    using U32.rd_at [of "8 + length ?E" "flags @ be_bytes 4 ?el @ ?E" ?ol ?O] assms(2)
    by (simp add: sd_image_def)
  have o: "options_loop ?p (12 + length ?E) (12 + length ?E + length ?O) [] = Some os"
    using options_loop_image [of os "12 + length ?E" "flags @ be_bytes 4 ?el @ ?E @ be_bytes 4 ?ol" "[]"] assms
    by (simp add: sd_image_def blocks_ok_def)
  have len: "length ?p = 12 + length ?E + length ?O"
    using assms(2) by (simp add: sd_image_def)
  show ?thesis
    by (simp only: ParseSdBlocks_def r1 option.case prod.case el e r2 ol o len) simp
qed

section \<open>And nothing else\<close>

lemma subrange_self [simp]: "subrange xs i i = []"
  by (simp add: subrange_def)

lemma entries_loop_some:
  assumes "entries_loop p pos stop acc = Some (r, pos')" and "pos \<le> stop" and "stop \<le> length p"
  shows "pos' = stop \<and> (\<exists>es. r = acc @ es \<and> list_all entry_ok es \<and> concat es = subrange p pos stop)"
  using assms
proof (induction p pos stop acc rule: entries_loop.induct)
  case (1 p pos stop acc)
  show ?case
  proof (cases "pos < stop")
    case False
    with "1.prems" show ?thesis by (simp add: entries_loop.simps [of p pos])
  next
    case True
    let ?e = "subrange p pos (pos + 16)"
    have fit: "pos + 16 \<le> stop" and rest: "entries_loop p (pos + 16) stop (acc @ [?e]) = Some (r, pos')"
      using "1.prems" True by (simp_all add: entries_loop.simps [of p pos] split: if_splits)
    then obtain es where "pos' = stop" and r: "r = (acc @ [?e]) @ es" and es: "list_all entry_ok es"
      and c: "concat es = subrange p (pos + 16) stop"
      using "1.IH" True "1.prems" by auto
    moreover have "concat (?e # es) = subrange p pos stop"
      using fit c subrange_split [of pos "pos + 16" stop p] by simp
    moreover have "entry_ok ?e" using fit "1.prems" by (simp add: entry_ok_def length_subrange)
    ultimately show ?thesis by (intro conjI exI [of _ "?e # es"]) simp_all
  qed
qed

lemma option_ok_subrange:
  assumes "ReadU16 p pos = Some (n, pos1)" and "pos + 4 + unat n \<le> length p"
  shows "option_ok (subrange p pos (pos + 4 + unat n))"
proof -
  have "subrange p pos (pos + 4 + unat n)
      = be_bytes 2 n @ subrange p (pos + 2) (pos + 4 + unat n)"
    using subrange_split [of pos "pos + 2" "pos + 4 + unat n" p] U16.rd_some [OF assms(1)] by simp
  moreover have "length (subrange p (pos + 2) (pos + 4 + unat n)) = 2 + unat n"
    using assms(2) by (simp add: length_subrange)
  ultimately show ?thesis unfolding option_ok_def by blast
qed

lemma options_loop_some:
  assumes "options_loop p pos stop acc = Some r" and "pos \<le> stop" and "stop \<le> length p"
  shows "\<exists>os. r = acc @ os \<and> list_all option_ok os \<and> concat os = subrange p pos stop"
  using assms
proof (induction p pos stop acc rule: options_loop.induct)
  case (1 p pos stop acc)
  show ?case
  proof (cases "pos < stop")
    case False
    with "1.prems" show ?thesis by (simp add: options_loop.simps [of p pos])
  next
    case True
    then obtain n where rd: "ReadU16 p pos = Some (n, pos + 2)"
      using "1.prems" by (cases "ReadU16 p pos")
        (auto simp: options_loop.simps [of p pos] dest: U16.rd_some(1))
    let ?o = "subrange p pos (pos + 4 + unat n)"
    have fit: "pos + 4 + unat n \<le> stop"
      and rest: "options_loop p (pos + 4 + unat n) stop (acc @ [?o]) = Some r"
      using "1.prems" True rd
      by (simp_all add: options_loop.simps [of p pos] Let_def ac_simps split: if_splits)
    have "\<exists>os. r = (acc @ [?o]) @ os \<and> list_all option_ok os
        \<and> concat os = subrange p (pos + 4 + unat n) stop"
      using "1.IH" [OF True rd refl] rest fit "1.prems" by (simp add: ac_simps)
    then obtain os where r: "r = (acc @ [?o]) @ os" and os: "list_all option_ok os"
      and c: "concat os = subrange p (pos + 4 + unat n) stop" by blast
    have "concat (?o # os) = subrange p pos stop"
      using fit c subrange_split [of pos "pos + 4 + unat n" stop p] by simp
    moreover have "option_ok ?o" using option_ok_subrange [OF rd] fit "1.prems" by simp
    ultimately show ?thesis using r os by (intro exI [of _ "?o # os"]) simp
  qed
qed

lemma ParseSdBlocks_some:
  assumes "ParseSdBlocks p = Some (es, os)"
  shows "blocks_ok es os" and "p = sd_image (take 4 p) es os" and "12 \<le> length p"
proof -
  obtain el pos where len: "12 \<le> length p" and r1: "ReadU32 p 4 = Some (el, pos)"
    and fit: "pos + unat el \<le> length p"
    using assms by (auto simp: ParseSdBlocks_def not_less split: if_splits option.splits)
  have pos: "pos = 8" using U32.rd_some(1) [OF r1] by simp
  obtain pos' ol pos2 where e: "entries_loop p 8 (8 + unat el) [] = Some (es, pos')"
    and r2: "ReadU32 p pos' = Some (ol, pos2)" and all: "pos2 + unat ol = length p"
    and o: "options_loop p pos2 (pos2 + unat ol) [] = Some os"
    using assms len r1 fit pos by (auto simp: ParseSdBlocks_def split: if_splits option.splits)
  have es: "pos' = 8 + unat el" "list_all entry_ok es" "concat es = subrange p 8 (8 + unat el)"
    using entries_loop_some [OF e] fit pos by auto
  have os: "list_all option_ok os" "concat os = subrange p pos2 (pos2 + unat ol)"
    using options_loop_some [OF o] all by auto
  have pos2: "pos2 = 12 + unat el" using U32.rd_some(1) [OF r2] es(1) by simp
  have lens: "length (concat es) = unat el" "length (concat os) = unat ol"
    using es(3) os(2) fit pos all by (simp_all add: length_subrange)
  then show "blocks_ok es os"
    using es(2) os(1) unsigned_less [of el, where ?'a = nat] unsigned_less [of ol, where ?'a = nat]
    by (simp add: blocks_ok_def)
  have "p = subrange p 0 4 @ subrange p 4 8 @ subrange p 8 (8 + unat el)
      @ subrange p (8 + unat el) pos2 @ subrange p pos2 (length p)"
    using subrange_split [of 0 4 "length p" p] subrange_split [of 4 8 "length p" p] fit pos pos2 all len
      subrange_split [of 8 "8 + unat el" "length p" p] subrange_split [of "8 + unat el" pos2 "length p" p]
    by simp
  moreover have "subrange p 4 8 = be_bytes 4 el" using U32.rd_some(3) [OF r1] by simp
  moreover have "subrange p (8 + unat el) pos2 = be_bytes 4 ol"
    using U32.rd_some(3) [OF r2] es(1) pos2 by simp
  moreover have "subrange p 0 4 = take 4 p" by (simp add: subrange_def)
  ultimately show "p = sd_image (take 4 p) es os"
    unfolding sd_image_def lens using es(3) os(2) all by simp
  show "12 \<le> length p" by (rule len)
qed

text \<open>What the clients of the scanner index is there.\<close>

lemma ParseSdBlocks_entry: "ParseSdBlocks p = Some (es, os) \<Longrightarrow> e \<in> set es \<Longrightarrow> length e = 16"
  by (auto dest!: ParseSdBlocks_some(1) simp: blocks_ok_def list_all_iff entry_ok_def)

section \<open>Property\<close>

text \<open>C11. The scanner accepts exactly the images of well-formed blocks, and returns the entries and
  options the image was made of: any four bytes of flags, then entries of 16 bytes and options as
  long as their own length field says, each block behind its 32-bit length. In particular a length
  field that points past the payload, or an entry block that is no multiple of 16, is refused.\<close>

theorem scanner_grammar:
  "ParseSdBlocks p = Some (es, os) \<longleftrightarrow>
     (\<exists>flags. length flags = 4 \<and> blocks_ok es os \<and> p = sd_image flags es os)"
proof
  assume "ParseSdBlocks p = Some (es, os)"
  from ParseSdBlocks_some [OF this]
  show "\<exists>flags. length flags = 4 \<and> blocks_ok es os \<and> p = sd_image flags es os"
    by (intro exI [of _ "take 4 p"]) simp
qed (auto intro: ParseSdBlocks_image)

end
