(* ===== verification/Inet.thy ===== *)
theory Inet
  imports Prelude
begin

text \<open>
  The address conversions of the POSIX library that \<open>protocol.cpp\<close> calls. They are not code of
  the repository, so the model takes them as a parameter: a record of the two functions. What the
  code relies on is the documented pairing of the two (\<open>inet_ntop\<close> on an IPv4 address yields a
  text that \<open>inet_pton\<close> reads back), stated as the assumption of a locale. The dotted-decimal
  conversion written at the end of the theory is an instance of it.
\<close>

section \<open>The interface\<close>

text \<open>An \<open>in_addr\<close>, as its four bytes in memory (network order).\<close>

type_synonym in_addr = "u8 \<times> u8 \<times> u8 \<times> u8"

record inet_lib =
  inet_pton :: "string \<Rightarrow> in_addr option"
  inet_ntop :: "in_addr \<Rightarrow> string option"

definition INADDR_LOOPBACK_be :: in_addr where
  "INADDR_LOOPBACK_be = (127, 0, 0, 1)"

locale inet_conv =
  fixes lib :: inet_lib
  assumes ntop_pton: "\<exists>s. inet_ntop lib q = Some s \<and> CHR 0x00 \<notin> set s \<and> inet_pton lib s = Some q"
begin

lemma ntop_some: obtains s where "inet_ntop lib q = Some s" and "c_str s = s" and "inet_pton lib s = Some q"
  using ntop_pton [of q] by (auto dest: c_str_id)

lemma ntop_not_none [simp]: "inet_ntop lib q \<noteq> None"
  by (rule ntop_some [of q]) simp

lemma pton_the_ntop [simp]: "inet_pton lib (c_str (the (inet_ntop lib q))) = Some q"
  by (rule ntop_some [of q]) simp

lemma ntop_inject: "inet_ntop lib q = inet_ntop lib r \<Longrightarrow> q = r"
  by (metis option.inject pton_the_ntop)

end

section \<open>Dotted decimal\<close>

definition digit_char :: "nat \<Rightarrow> char" where
  "digit_char d = char_of (48 + d)"

definition octet_text :: "nat \<Rightarrow> string" where
  "octet_text n =
     (if n < 10 then [digit_char n]
      else if n < 100 then [digit_char (n div 10), digit_char (n mod 10)]
      else [digit_char (n div 100), digit_char (n div 10 mod 10), digit_char (n mod 10)])"

definition digit_value :: "char \<Rightarrow> nat option" where
  "digit_value c = (let n = of_char c :: nat in if 48 \<le> n \<and> n \<le> 57 then Some (n - 48) else None)"

fun digits_value :: "nat \<Rightarrow> string \<Rightarrow> nat option" where
  "digits_value acc [] = Some acc"
| "digits_value acc (c # cs) =
     (case digit_value c of None \<Rightarrow> None | Some d \<Rightarrow> digits_value (10 * acc + d) cs)"

text \<open>One to three digits, no leading zero, at most 255.\<close>

definition octet_value :: "string \<Rightarrow> u8 option" where
  "octet_value s =
     (if s = [] \<or> 3 < length s \<or> (1 < length s \<and> hd s = CHR ''0'') then None
      else case digits_value 0 s of None \<Rightarrow> None
        | Some n \<Rightarrow> if n \<le> 255 then Some (of_nat n) else None)"

fun split_dots :: "string \<Rightarrow> string list" where
  "split_dots [] = [[]]"
| "split_dots (c # cs) =
     (if c = CHR ''.'' then [] # split_dots cs
      else case split_dots cs of [] \<Rightarrow> [[c]] | w # ws \<Rightarrow> (c # w) # ws)"

definition dotted_pton :: "string \<Rightarrow> in_addr option" where
  "dotted_pton s =
     (case split_dots s of
        [a, b, c, d] \<Rightarrow>
          (case (octet_value a, octet_value b, octet_value c, octet_value d) of
             (Some w, Some x, Some y, Some z) \<Rightarrow> Some (w, x, y, z) | _ \<Rightarrow> None)
      | _ \<Rightarrow> None)"

fun dotted_ntop :: "in_addr \<Rightarrow> string option" where
  "dotted_ntop (w, x, y, z) =
     Some (octet_text (unat w) @ ''.'' @ octet_text (unat x) @ ''.'' @
           octet_text (unat y) @ ''.'' @ octet_text (unat z))"

definition dotted :: inet_lib where
  "dotted = \<lparr> inet_pton = dotted_pton, inet_ntop = dotted_ntop \<rparr>"

lemma of_digit_char [simp]: "d < 10 \<Longrightarrow> (of_char (digit_char d) :: nat) = 48 + d"
  by (simp add: digit_char_def)

lemma digit_value_char [simp]: "d < 10 \<Longrightarrow> digit_value (digit_char d) = Some d"
  by (simp add: digit_value_def)

lemma digit_char_neq:
  "d < 10 \<Longrightarrow> (of_char c :: nat) \<noteq> 48 + d \<Longrightarrow> digit_char d \<noteq> c"
  by (metis of_digit_char)

lemma octet_digits:
  assumes "n < 256"
  shows "digits_value 0 (octet_text n) = Some n"
proof -
  have hundreds: "n div 100 < 10" using assms by simp
  have tens: "n < 100 \<Longrightarrow> n div 10 < 10" by simp
  have units: "10 * (n div 10) + n mod 10 = n" by simp
  have "10 * (n div 100) + n div 10 mod 10 = n div 10"
    using div_mult_mod_eq [of "n div 10" 10] by (simp add: div_mult2_eq [symmetric] mult.commute)
  with hundreds tens units show ?thesis by (simp add: octet_text_def)
qed

lemma octet_value_text:
  assumes "n < 256"
  shows "octet_value (octet_text n) = Some (of_nat n)"
proof -
  have "\<not> (1 < length (octet_text n) \<and> hd (octet_text n) = CHR ''0'')"
    using assms by (auto simp: octet_text_def dest!: arg_cong [where f = "of_char :: char \<Rightarrow> nat"])
  moreover have "octet_text n \<noteq> []" and "length (octet_text n) \<le> 3"
    by (simp_all add: octet_text_def)
  ultimately show ?thesis
    using assms octet_digits [OF assms] by (auto simp: octet_value_def)
qed

lemma octet_text_chars:
  assumes "n < 256" and "(of_char c :: nat) < 48"
  shows "c \<notin> set (octet_text n)"
  using assms digit_char_neq by (auto simp: octet_text_def split: if_splits)

lemma unat_u8_less: "unat (b :: u8) < 256"
  using unsigned_less [of b, where ?'a = nat] by simp

lemma octet_round_trip [simp]: "octet_value (octet_text (unat (b :: u8))) = Some b"
  using octet_value_text [OF unat_u8_less] by simp

lemma octet_no_dot: "CHR ''.'' \<notin> set (octet_text (unat (b :: u8)))"
  by (rule octet_text_chars [OF unat_u8_less]) simp

lemma octet_no_nul: "CHR 0x00 \<notin> set (octet_text (unat (b :: u8)))"
  by (rule octet_text_chars [OF unat_u8_less]) simp

lemma split_dots_word: "CHR ''.'' \<notin> set w \<Longrightarrow> split_dots w = [w]"
  by (induction w) auto

lemma split_dots_append:
  "CHR ''.'' \<notin> set w \<Longrightarrow> split_dots (w @ CHR ''.'' # s) = w # split_dots s"
  by (induction w) auto

interpretation dotted: inet_conv dotted
proof
  fix q :: in_addr
  obtain w x y z where q: "q = (w, x, y, z)" by (cases q)
  show "\<exists>s. inet_ntop dotted q = Some s \<and> CHR 0x00 \<notin> set s \<and> inet_pton dotted s = Some q"
    by (simp add: q dotted_def dotted_pton_def split_dots_append split_dots_word octet_no_dot octet_no_nul)
qed

end
