(* ===== verification/Sd_Payload.thy ===== *)
theory Sd_Payload
  imports Sd_Blocks Inet
begin

text \<open>
  The service-discovery payloads of \<open>protocol.cpp\<close>: the builders of Find and Offer payloads and
  their parsers. Vectors that a function appends to become values returned; the out-parameters of
  a parser become its result, \<open>None\<close> for \<open>false\<close> (every caller drops the outputs then). The
  address conversions are the parameter \<open>lib\<close> of theory \<open>Inet\<close>. The second half says what each
  parser returns on each builder's output.
\<close>

section \<open>Builders\<close>

definition BuildIpv4EndpointOption :: "inet_lib \<Rightarrow> ServiceDescriptor \<Rightarrow> bytes" where
  "BuildIpv4EndpointOption lib svc =
     (let out = WriteU16 [] 9;
          out = out @ [kSdOptionIpv4Endpoint];
          out = out @ [0x00];
          out = out @ [0x00];
          addr = (case inet_pton lib (c_str (endpoint_host svc)) of
                    None \<Rightarrow> INADDR_LOOPBACK_be | Some a \<Rightarrow> a);
          out = (case addr of (b0, b1, b2, b3) \<Rightarrow> out @ [b0, b1, b2, b3]);
          out = out @ [0x00];
          out = out @ [kL4ProtocolUdp]
      in WriteU16 out (endpoint_port svc))"

definition BuildServiceEntry ::
    "u8 \<Rightarrow> u8 \<Rightarrow> u8 \<Rightarrow> u8 \<Rightarrow> u8 \<Rightarrow> ServiceDescriptor \<Rightarrow> u32 \<Rightarrow> u32 \<Rightarrow> bytes" where
  "BuildServiceEntry entry_type idx1 idx2 num_opt1 num_opt2 svc ttl_sec minor =
     (let out = [entry_type, idx1, idx2, push_bit 4 (num_opt1 AND 0x0F) OR (num_opt2 AND 0x0F)];
          out = WriteU16 out (service_id svc);
          out = WriteU16 out (instance_id svc);
          out = out @ [major_version svc];
          out = WriteU24 out (min ttl_sec 0x00FFFFFF)
      in WriteU32 out minor)"

definition BuildSdFindPayload :: "u16 \<Rightarrow> u16 option \<Rightarrow> bytes" where
  "BuildSdFindPayload service instance_opt =
     (let svc = default_descriptor \<lparr> service_id := service,
                  instance_id := (case instance_opt of Some i \<Rightarrow> i | None \<Rightarrow> 0xFFFF),
                  major_version := 0xFF \<rparr>;
          entry = BuildServiceEntry kSdEntryFindService 0 0 0 0 svc 0 0xFFFFFFFF;
          out = [0x00, 0x00, 0x00, 0x00];
          out = WriteU32 out (of_nat (length entry));
          out = out @ entry
      in WriteU32 out 0)"

definition BuildSdOfferPayload :: "inet_lib \<Rightarrow> ServiceDescriptor \<Rightarrow> u32 \<Rightarrow> bool \<Rightarrow> bytes" where
  "BuildSdOfferPayload lib descriptor ttl_sec stop_offer =
     (let opt = BuildIpv4EndpointOption lib descriptor;
          entry = BuildServiceEntry kSdEntryOfferService 0 0 1 0 descriptor
                    (if stop_offer then 0 else ttl_sec) (ucast (minor_version descriptor));
          out = [0x00, 0x00, 0x00, 0x00];
          out = WriteU32 out (of_nat (length entry));
          out = out @ entry;
          out = WriteU32 out (of_nat (length opt))
      in out @ opt)"

text \<open>The index of the loop is a \<open>size_t\<close>, narrowed to a byte in the entry.\<close>

definition offer_entries :: "ServiceList \<Rightarrow> u32 \<Rightarrow> bytes list" where
  "offer_entries services ttl_sec =
     map (\<lambda>i. BuildServiceEntry kSdEntryOfferService (of_nat i) 0 1 0 (services ! i) ttl_sec
                (ucast (minor_version (services ! i))))
         [0..<length services]"

definition BuildSdOfferPayloadList :: "inet_lib \<Rightarrow> ServiceList \<Rightarrow> u32 \<Rightarrow> bytes" where
  "BuildSdOfferPayloadList lib services ttl_sec =
     (let options = map (BuildIpv4EndpointOption lib) services;
          entries_blob = concat (offer_entries services ttl_sec);
          out = [0x00, 0x00, 0x00, 0x00];
          out = WriteU32 out (of_nat (length entries_blob));
          out = out @ entries_blob;
          options_blob = concat options;
          out = WriteU32 out (of_nat (length options_blob))
      in out @ options_blob)"

section \<open>Parsers\<close>

definition u16_at :: "bytes \<Rightarrow> nat \<Rightarrow> u16" where
  "u16_at e i = push_bit 8 (ucast (e ! i)) OR ucast (e ! (i + 1))"

definition ParseEndpointOption :: "inet_lib \<Rightarrow> bytes \<Rightarrow> (string \<times> u16 \<times> string) option" where
  "ParseEndpointOption lib opt =
     (if length opt \<noteq> 13 then None
      else if opt ! 2 \<noteq> kSdOptionIpv4Endpoint then None
      else if opt ! 10 \<noteq> kL4ProtocolUdp then None
      else case inet_ntop lib (opt ! 5, opt ! 6, opt ! 7, opt ! 8) of
        None \<Rightarrow> None
      | Some ipbuf \<Rightarrow> Some (c_str ipbuf, u16_at opt 11, ''udp''))"

definition ParseSdFindPayload :: "bytes \<Rightarrow> (u16 \<times> u16 option) option" where
  "ParseSdFindPayload pl =
     (case ParseSdBlocks pl of
        None \<Rightarrow> None
      | Some (entries, options) \<Rightarrow>
          (if entries = [] then None
           else let e = hd entries in
             if e ! 0 \<noteq> kSdEntryFindService then None
             else let inst = u16_at e 6 in
               Some (u16_at e 4, if inst = 0xFFFF then None else Some inst)))"

text \<open>The endpoint part that both Offer parsers share, on a descriptor with the entry's fields.\<close>

definition with_endpoint ::
    "inet_lib \<Rightarrow> bytes list \<Rightarrow> bytes \<Rightarrow> ServiceDescriptor \<Rightarrow> ServiceDescriptor" where
  "with_endpoint lib options e svc =
     (let option_index = unat (e ! 1);
          option_count = drop_bit 4 (e ! 3) AND 0x0F
      in if option_count > 0 \<and> option_index < length options
         then case ParseEndpointOption lib (options ! option_index) of
             Some (host, port, tp) \<Rightarrow>
               svc \<lparr> endpoint_host := host, endpoint_port := port, transport := tp \<rparr>
           | None \<Rightarrow> svc
         else svc)"

definition entry_descriptor :: "inet_lib \<Rightarrow> bytes list \<Rightarrow> bytes \<Rightarrow> ServiceDescriptor" where
  "entry_descriptor lib options e =
     with_endpoint lib options e
       (default_descriptor \<lparr> service_id := u16_at e 4, instance_id := u16_at e 6,
          major_version := e ! 8, minor_version := e ! 15 \<rparr>)"

fun offers_loop :: "inet_lib \<Rightarrow> bytes list \<Rightarrow> bytes list \<Rightarrow> ServiceList \<Rightarrow> ServiceList" where
  "offers_loop lib options [] services = services"
| "offers_loop lib options (e # es) services =
     (if e ! 0 \<noteq> kSdEntryOfferService then offers_loop lib options es services
      else offers_loop lib options es (services @ [entry_descriptor lib options e]))"

definition ParseSdOffers :: "inet_lib \<Rightarrow> bytes \<Rightarrow> ServiceList option" where
  "ParseSdOffers lib pl =
     (case ParseSdBlocks pl of
        None \<Rightarrow> None
      | Some (entries, options) \<Rightarrow> Some (offers_loop lib options entries []))"

definition ParseSdOfferFirst :: "inet_lib \<Rightarrow> bytes \<Rightarrow> (ServiceDescriptor \<times> u32) option" where
  "ParseSdOfferFirst lib pl =
     (case ParseSdBlocks pl of
        None \<Rightarrow> None
      | Some (entries, options) \<Rightarrow>
          (if entries = [] then None
           else let e = hd entries in
             if e ! 0 \<noteq> kSdEntryOfferService then None
             else let ttl = push_bit 16 (ucast (e ! 9)) OR push_bit 8 (ucast (e ! 10))
                              OR ucast (e ! 11) in
               Some (entry_descriptor lib options e, ttl)))"

section \<open>Fields of built entries and options\<close>

lemma join_16: "push_bit 8 (ucast (ucast (drop_bit 8 v) :: u8)) OR ucast (ucast v :: u8) = (v :: u16)"
  using be_value_bytes [of 2 v] by (simp add: be_bytes_2 be_value_2)

lemma join_24:
  assumes "v \<le> (0x00FFFFFF :: u32)"
  shows "push_bit 16 (ucast (ucast (drop_bit 16 v) :: u8)) OR push_bit 8 (ucast (ucast (drop_bit 8 v) :: u8))
           OR ucast (ucast v :: u8) = v"
proof -
  have "unat v < 2 ^ 24" using assms by (simp add: word_le_nat_alt)
  then have "drop_bit 24 (unat v) = 0" by (simp add: drop_bit_eq_div)
  then have z: "drop_bit 24 v = 0"
    by (simp only: word_unat_eq_iff unat_drop_bit_eq unat_0)
  show ?thesis
    using be_value_bytes [of 4 v] by (simp add: be_bytes_4 be_value_4 z)
qed

lemma byte_widen [simp]: "(ucast (ucast (b :: u8) :: u32) :: u8) = b"
  by (rule bit_word_eqI) (simp add: bit_simps)

lemma BuildServiceEntry_image:
  "BuildServiceEntry t i1 i2 n1 n2 svc ttl minor =
     [t, i1, i2, push_bit 4 (n1 AND 0x0F) OR (n2 AND 0x0F)] @ be_bytes 2 (service_id svc)
       @ be_bytes 2 (instance_id svc) @ [major_version svc] @ be_bytes 3 (min ttl 0x00FFFFFF)
       @ be_bytes 4 minor"
  by (simp add: BuildServiceEntry_def Let_def)

lemma length_BuildServiceEntry [simp, wire_len]:
  "length (BuildServiceEntry t i1 i2 n1 n2 svc ttl minor) = 16"
  by (simp add: BuildServiceEntry_image)

lemma entry_ok_BuildServiceEntry [simp]:
  "entry_ok (BuildServiceEntry t i1 i2 n1 n2 svc ttl minor)"
  by (simp add: entry_ok_def)

lemma built_entry_fields:
  fixes svc :: ServiceDescriptor
  defines "e i1 i2 n1 n2 t ttl minor \<equiv> BuildServiceEntry t i1 i2 n1 n2 svc ttl minor"
  shows "e i1 i2 n1 n2 t ttl minor ! 0 = t" and "e i1 i2 n1 n2 t ttl minor ! 1 = i1"
    and "e i1 i2 n1 n2 t ttl minor ! 3 = push_bit 4 (n1 AND 0x0F) OR (n2 AND 0x0F)"
    and "u16_at (e i1 i2 n1 n2 t ttl minor) 4 = service_id svc"
    and "u16_at (e i1 i2 n1 n2 t ttl minor) 6 = instance_id svc"
    and "e i1 i2 n1 n2 t ttl minor ! 8 = major_version svc"
    and "push_bit 16 (ucast (e i1 i2 n1 n2 t ttl minor ! 9)) OR
         push_bit 8 (ucast (e i1 i2 n1 n2 t ttl minor ! 10)) OR
         ucast (e i1 i2 n1 n2 t ttl minor ! 11) = min ttl (0x00FFFFFF :: u32)"
    and "e i1 i2 n1 n2 t ttl minor ! 15 = ucast minor"
  by (simp_all add: e_def BuildServiceEntry_image be_bytes_2 be_bytes_3 be_bytes_4 u16_at_def
      join_16 join_24)

definition resolve :: "inet_lib \<Rightarrow> string \<Rightarrow> in_addr" where
  "resolve lib host =
     (case inet_pton lib (c_str host) of None \<Rightarrow> INADDR_LOOPBACK_be | Some a \<Rightarrow> a)"

lemma endpoint_option_image:
  "BuildIpv4EndpointOption lib svc =
     (case resolve lib (endpoint_host svc) of (b0, b1, b2, b3) \<Rightarrow>
        be_bytes 2 (9 :: u16) @ [0x04, 0x00, 0x00, b0, b1, b2, b3, 0x00, 0x11]
          @ be_bytes 2 (endpoint_port svc))"
  by (simp add: BuildIpv4EndpointOption_def resolve_def Let_def split: prod.splits)

lemma length_endpoint_option [simp, wire_len]: "length (BuildIpv4EndpointOption lib svc) = 13"
  by (simp add: endpoint_option_image split: prod.splits)

lemma option_ok_endpoint [simp]: "option_ok (BuildIpv4EndpointOption lib svc)"
proof -
  obtain b0 b1 b2 b3 where "resolve lib (endpoint_host svc) = (b0, b1, b2, b3)"
    by (cases "resolve lib (endpoint_host svc)")
  then show ?thesis
    unfolding option_ok_def
    by (intro exI [of _ 9]
        exI [of _ "[0x04, 0x00, 0x00, b0, b1, b2, b3, 0x00, 0x11] @ be_bytes 2 (endpoint_port svc)"])
      (simp add: endpoint_option_image)
qed

text \<open>A descriptor as the other side of the wire sees it.\<close>

definition wire_descriptor :: "inet_lib \<Rightarrow> ServiceDescriptor \<Rightarrow> ServiceDescriptor" where
  "wire_descriptor lib d =
     d \<lparr> endpoint_host := the (inet_ntop lib (resolve lib (endpoint_host d))), transport := ''udp'' \<rparr>"

definition with_endpoint_of :: "ServiceDescriptor \<Rightarrow> ServiceDescriptor \<Rightarrow> ServiceDescriptor" where
  "with_endpoint_of d d' =
     d \<lparr> endpoint_host := endpoint_host d', endpoint_port := endpoint_port d', transport := transport d' \<rparr>"

lemma with_endpoint_of_self [simp]: "with_endpoint_of d d = d"
  by (simp add: with_endpoint_of_def)

context inet_conv
begin

lemma ParseEndpointOption_built:
  "ParseEndpointOption lib (BuildIpv4EndpointOption lib svc) =
     Some (endpoint_host (wire_descriptor lib svc), endpoint_port svc, ''udp'')"
proof -
  let ?q = "resolve lib (endpoint_host svc)"
  obtain b0 b1 b2 b3 where q: "?q = (b0, b1, b2, b3)" by (cases ?q)
  obtain s where s: "inet_ntop lib ?q = Some s" "c_str s = s" by (rule ntop_some [of ?q])
  show ?thesis using s
    by (simp add: ParseEndpointOption_def endpoint_option_image q be_bytes_2 u16_at_def join_16
        wire_descriptor_def)
qed

lemma wire_descriptor_idem: "wire_descriptor lib (wire_descriptor lib d) = wire_descriptor lib d"
  by (simp add: wire_descriptor_def resolve_def)

text \<open>The entry and the option need not come from the same descriptor.\<close>

lemma entry_descriptor_built:
  assumes "unat i < length options" and "options ! unat i = BuildIpv4EndpointOption lib d'"
  shows "entry_descriptor lib options
           (BuildServiceEntry kSdEntryOfferService i j 1 k d ttl (ucast (minor_version d)))
         = with_endpoint_of (wire_descriptor lib d) (wire_descriptor lib d')"
proof -
  let ?e = "BuildServiceEntry kSdEntryOfferService i j 1 k d ttl (ucast (minor_version d))"
  have "drop_bit 4 (?e ! 3) AND 0x0F = 1"
    unfolding built_entry_fields mask_eq_exp_minus_1 [of 4, symmetric]
    by (rule bit_word_eqI) (auto simp: bit_simps bit_1_iff)
  then show ?thesis using assms
    by (cases d) (simp add: entry_descriptor_def with_endpoint_def built_entry_fields Let_def
        ParseEndpointOption_built with_endpoint_of_def wire_descriptor_def default_descriptor_def
        del: One_nat_def)
qed

end

section \<open>Payloads as block images\<close>

abbreviation no_flags :: bytes where
  "no_flags \<equiv> [0x00, 0x00, 0x00, 0x00]"

definition find_entry :: "u16 \<Rightarrow> u16 option \<Rightarrow> bytes" where
  "find_entry s i = BuildServiceEntry kSdEntryFindService 0 0 0 0
     (default_descriptor \<lparr> service_id := s, instance_id := (case i of Some i \<Rightarrow> i | None \<Rightarrow> 0xFFFF),
        major_version := 0xFF \<rparr>) 0 0xFFFFFFFF"

lemma BuildSdFindPayload_image: "BuildSdFindPayload s i = sd_image no_flags [find_entry s i] []"
  by (simp add: BuildSdFindPayload_def sd_image_def find_entry_def Let_def)

lemma BuildSdOfferPayload_image:
  "BuildSdOfferPayload lib d ttl stop = sd_image no_flags
     [BuildServiceEntry kSdEntryOfferService 0 0 1 0 d (if stop then 0 else ttl) (ucast (minor_version d))]
     [BuildIpv4EndpointOption lib d]"
  by (simp add: BuildSdOfferPayload_def sd_image_def Let_def)

lemma BuildSdOfferPayloadList_image:
  "BuildSdOfferPayloadList lib svcs ttl =
     sd_image no_flags (offer_entries svcs ttl) (map (BuildIpv4EndpointOption lib) svcs)"
  by (simp add: BuildSdOfferPayloadList_def sd_image_def Let_def)

lemma length_concat_const: "\<forall>x \<in> set xs. length x = k \<Longrightarrow> length (concat xs) = k * length xs"
  by (induction xs) auto

lemma length_offer_entries [simp, wire_len]: "length (offer_entries svcs ttl) = length svcs"
  by (simp add: offer_entries_def)

lemma length_entries_blob [simp, wire_len]:
  "length (concat (offer_entries svcs ttl)) = 16 * length svcs"
  by (subst length_concat_const [of _ 16]) (auto simp: offer_entries_def)

lemma length_options_blob [simp, wire_len]:
  "length (concat (map (BuildIpv4EndpointOption lib) svcs)) = 13 * length svcs"
  by (subst length_concat_const [of _ 13]) auto

lemma length_sd_image [wire_len]:
  "length (sd_image flags es os) = length flags + 8 + length (concat es) + length (concat os)"
  by (simp add: sd_image_def)

lemma length_BuildSdOfferPayloadList [simp, wire_len]:
  "length (BuildSdOfferPayloadList lib svcs ttl) = 12 + 29 * length svcs"
  by (simp add: BuildSdOfferPayloadList_image length_sd_image)

lemma length_BuildSdOfferPayload [simp, wire_len]: "length (BuildSdOfferPayload lib d ttl stop) = 41"
  by (simp add: BuildSdOfferPayload_image length_sd_image)

lemma length_BuildSdFindPayload [simp, wire_len]: "length (BuildSdFindPayload s i) = 28"
  by (simp add: BuildSdFindPayload_image length_sd_image find_entry_def)

lemma scan_find: "ParseSdBlocks (BuildSdFindPayload s i) = Some ([find_entry s i], [])"
  unfolding BuildSdFindPayload_image
  by (rule ParseSdBlocks_image) (simp_all add: blocks_ok_def find_entry_def)

lemma scan_offer:
  "ParseSdBlocks (BuildSdOfferPayload lib d ttl stop) = Some
     ([BuildServiceEntry kSdEntryOfferService 0 0 1 0 d (if stop then 0 else ttl) (ucast (minor_version d))],
      [BuildIpv4EndpointOption lib d])"
  unfolding BuildSdOfferPayload_image
  by (rule ParseSdBlocks_image) (simp_all add: blocks_ok_def)

lemma scan_offer_list:
  assumes "length svcs < 2 ^ 28"
  shows "ParseSdBlocks (BuildSdOfferPayloadList lib svcs ttl)
           = Some (offer_entries svcs ttl, map (BuildIpv4EndpointOption lib) svcs)"
proof -
  have "list_all entry_ok (offer_entries svcs ttl)"
    by (auto simp: list_all_iff offer_entries_def)
  moreover have "list_all option_ok (map (BuildIpv4EndpointOption lib) svcs)"
    by (auto simp: list_all_iff)
  ultimately show ?thesis
    unfolding BuildSdOfferPayloadList_image using assms
    by (intro ParseSdBlocks_image) (simp_all add: blocks_ok_def)
qed

section \<open>What the parsers return on built payloads\<close>

lemma parse_find_built:
  "ParseSdFindPayload (BuildSdFindPayload s i) = Some (s, if i = Some 0xFFFF then None else i)"
  by (cases i) (simp_all add: ParseSdFindPayload_def scan_find find_entry_def built_entry_fields)

lemma parse_find_offer: "ParseSdFindPayload (BuildSdOfferPayload lib d ttl stop) = None"
  by (simp add: ParseSdFindPayload_def scan_offer built_entry_fields)

lemma parse_offer_find: "ParseSdOfferFirst lib (BuildSdFindPayload s i) = None"
  by (simp add: ParseSdOfferFirst_def scan_find find_entry_def built_entry_fields)

lemma offers_loop_all:
  "list_all (\<lambda>e. e ! 0 = kSdEntryOfferService) es \<Longrightarrow>
     offers_loop lib options es acc = acc @ map (entry_descriptor lib options) es"
  by (induction es arbitrary: acc) auto

context inet_conv
begin

lemma parse_offer_built:
  "ParseSdOfferFirst lib (BuildSdOfferPayload lib d ttl stop)
     = Some (wire_descriptor lib d, if stop then 0 else min ttl 0x00FFFFFF)"
proof -
  let ?t = "if stop then 0 else ttl"
  have "ParseSdOfferFirst lib (BuildSdOfferPayload lib d ttl stop)
      = Some (with_endpoint_of (wire_descriptor lib d) (wire_descriptor lib d), min ?t 0x00FFFFFF)"
    unfolding ParseSdOfferFirst_def scan_offer using entry_descriptor_built [of 0]
    by (simp add: built_entry_fields)
  then show ?thesis by simp
qed

lemma parse_offer_list_built:
  assumes "length svcs < 2 ^ 28"
  shows "ParseSdOffers lib (BuildSdOfferPayloadList lib svcs ttl) =
     Some (map (\<lambda>i. with_endpoint_of (wire_descriptor lib (svcs ! i))
                                     (wire_descriptor lib (svcs ! (i mod 256))))
               [0..<length svcs])"
proof -
  let ?opts = "map (BuildIpv4EndpointOption lib) svcs"
  have first: "list_all (\<lambda>e. e ! 0 = kSdEntryOfferService) (offer_entries svcs ttl)"
    by (auto simp: list_all_iff offer_entries_def built_entry_fields)
  have one: "entry_descriptor lib ?opts
        (BuildServiceEntry kSdEntryOfferService (of_nat i) 0 1 0 (svcs ! i) ttl
          (ucast (minor_version (svcs ! i))))
      = with_endpoint_of (wire_descriptor lib (svcs ! i)) (wire_descriptor lib (svcs ! (i mod 256)))"
    if "i < length svcs" for i
  proof -
    have u: "unat (of_nat i :: u8) = i mod 256" by (simp add: unat_of_nat)
    have "i mod 256 < length svcs" using that by (meson mod_less_eq_dividend le_less_trans)
    with u show ?thesis by (intro entry_descriptor_built) simp_all
  qed
  have "map (entry_descriptor lib ?opts) (offer_entries svcs ttl)
      = map (\<lambda>i. with_endpoint_of (wire_descriptor lib (svcs ! i))
                   (wire_descriptor lib (svcs ! (i mod 256)))) [0..<length svcs]"
    using one by (simp add: offer_entries_def)
  with first show ?thesis
    by (simp add: ParseSdOffers_def scan_offer_list [OF assms] offers_loop_all)
qed

lemma parse_offer_list_256:
  assumes "length svcs \<le> 256"
  shows "ParseSdOffers lib (BuildSdOfferPayloadList lib svcs ttl) = Some (map (wire_descriptor lib) svcs)"
proof -
  have "map (\<lambda>i. with_endpoint_of (wire_descriptor lib (svcs ! i))
          (wire_descriptor lib (svcs ! (i mod 256)))) [0..<length svcs] = map (wire_descriptor lib) svcs"
    using assms by (intro nth_equalityI) auto
  with assms show ?thesis by (subst parse_offer_list_built) auto
qed

end

section \<open>Properties\<close>

definition sample_service :: ServiceDescriptor where
  "sample_service = \<lparr> service_id = 0x1234, instance_id = 1, major_version = 1, minor_version = 2,
     endpoint_host = ''10.0.0.7'', endpoint_port = 50001, transport = ''tcp'' \<rparr>"

lemma wire_sample: "wire_descriptor dotted sample_service = sample_service\<lparr> transport := ''udp'' \<rparr>"
  by code_simp

lemma parse_offers_single:
  assumes "inet_conv lib"
  shows "ParseSdOffers lib (BuildSdOfferPayload lib d ttl stop) = Some [wire_descriptor lib d]"
proof -
  have "entry_descriptor lib [BuildIpv4EndpointOption lib d]
      (BuildServiceEntry kSdEntryOfferService 0 0 1 0 d (if stop then 0 else ttl)
        (ucast (minor_version d))) = with_endpoint_of (wire_descriptor lib d) (wire_descriptor lib d)"
    by (rule inet_conv.entry_descriptor_built [OF assms]) simp_all
  then show ?thesis by (simp add: ParseSdOffers_def scan_offer built_entry_fields)
qed

text \<open>C12. An Offer survives the wire: both Offer parsers give back the descriptor with its host as
  the address it resolves to (the loopback address when it is no IPv4 text) and transport
  \<open>udp\<close>, and the TTL cut to 24 bits' maximum, or 0 for a stop offer. Another trip changes
  nothing.\<close>

theorem offer_round_trip:
  assumes "inet_conv lib"
  shows "ParseSdOfferFirst lib (BuildSdOfferPayload lib d ttl stop)
           = Some (wire_descriptor lib d, if stop then 0 else min ttl 0x00FFFFFF)
    \<and> ParseSdOffers lib (BuildSdOfferPayload lib d ttl stop) = Some [wire_descriptor lib d]
    \<and> wire_descriptor lib (wire_descriptor lib d) = wire_descriptor lib d"
  using inet_conv.parse_offer_built [OF assms] parse_offers_single [OF assms]
    inet_conv.wire_descriptor_idem [OF assms] by simp

theorem offer_round_trip_witness:
  "ParseSdOfferFirst dotted (BuildSdOfferPayload dotted sample_service 0x12345678 False)
     = Some (sample_service\<lparr> transport := ''udp'' \<rparr>, 0x00FFFFFF)"
  using offer_round_trip [OF dotted.inet_conv_axioms, where d = sample_service and ttl = "0x12345678" and stop = False]
  by (simp add: wire_sample)

text \<open>A Find survives the wire (instance \<open>0xFFFF\<close> being the wildcard), and no payload is taken
  for the other kind: the daemon's choice of branch is unambiguous on built payloads.\<close>

theorem find_round_trip:
  "ParseSdFindPayload (BuildSdFindPayload s i) = Some (s, if i = Some 0xFFFF then None else i)
    \<and> ParseSdOfferFirst lib (BuildSdFindPayload s i) = None
    \<and> ParseSdOffers lib (BuildSdFindPayload s i) = Some []
    \<and> ParseSdFindPayload (BuildSdOfferPayload lib d ttl stop) = None"
  using parse_find_built parse_offer_find parse_find_offer
  by (simp add: ParseSdOffers_def scan_find find_entry_def built_entry_fields)

text \<open>C13. A list of offers survives the wire entry by entry, but each entry names its option by one
  byte: the service at position \<open>i\<close> comes back with the endpoint of the one at \<open>i mod 256\<close>.
  Lists of up to 256 services therefore come back whole.\<close>

theorem offer_list_endpoints:
  assumes "inet_conv lib" and "length svcs < 2 ^ 28"
  shows "ParseSdOffers lib (BuildSdOfferPayloadList lib svcs ttl) =
      Some (map (\<lambda>i. with_endpoint_of (wire_descriptor lib (svcs ! i))
                                      (wire_descriptor lib (svcs ! (i mod 256))))
                [0..<length svcs])
    \<and> (length svcs \<le> 256 \<longrightarrow>
        ParseSdOffers lib (BuildSdOfferPayloadList lib svcs ttl) = Some (map (wire_descriptor lib) svcs))"
  using inet_conv.parse_offer_list_built [OF assms] inet_conv.parse_offer_list_256 [OF assms(1)] by blast

theorem offer_list_endpoints_witness:
  "ParseSdOffers dotted (BuildSdOfferPayloadList dotted [sample_service, default_descriptor] 3)
     = Some (map (wire_descriptor dotted) [sample_service, default_descriptor])"
  using offer_list_endpoints [OF dotted.inet_conv_axioms, of "[sample_service, default_descriptor]" 3]
  by simp

end
