(* ===== verification/Sd_Api.thy ===== *)
theory Sd_Api
  imports Sd_Packet Sd_Payload
begin

text \<open>
  The application-facing client of service discovery (\<open>sd_api.cpp\<close>): configuration, request
  identifiers, the control request and the three operations. The socket calls are the parameter
  \<open>net\<close>: what comes of sending these bytes to that destination in a state \<open>'w\<close> of the world,
  and the state of the world after it. The model is the Linux build. Each
  text the code stores through its \<open>error\<close> pointer is a constructor of \<open>api_error\<close>.
\<close>

section \<open>The object\<close>

datatype ControlTransport = kUdp | kUnixDomainSocket

record SomeIpSdApi =
  api_control_transport :: ControlTransport
  api_daemon_host :: string
  api_daemon_port :: u16
  api_unix_socket_path :: string
  api_discovery_multicast_group :: string
  api_discovery_multicast_port :: u16
  api_discovery_interface_address :: string
  api_discovery_multicast_ttl :: int
  api_timeout_ms :: int
  api_next_request_id :: u32

definition new_SomeIpSdApi :: "string \<Rightarrow> u16 \<Rightarrow> int \<Rightarrow> SomeIpSdApi" where
  "new_SomeIpSdApi daemon_host daemon_port timeout_ms =
     \<lparr> api_control_transport = kUdp, api_daemon_host = daemon_host, api_daemon_port = daemon_port,
       api_unix_socket_path = '''', api_discovery_multicast_group = ''239.255.0.1'',
       api_discovery_multicast_port = daemon_port, api_discovery_interface_address = ''0.0.0.0'',
       api_discovery_multicast_ttl = 1, api_timeout_ms = timeout_ms, api_next_request_id = 1 \<rparr>"

definition SetControlUdp :: "string \<Rightarrow> u16 \<Rightarrow> SomeIpSdApi \<Rightarrow> SomeIpSdApi" where
  "SetControlUdp daemon_host daemon_port api =
     api\<lparr> api_control_transport := kUdp, api_daemon_host := daemon_host, api_daemon_port := daemon_port \<rparr>"

definition SetDiscoveryMulticast :: "string \<Rightarrow> u16 \<Rightarrow> string \<Rightarrow> SomeIpSdApi \<Rightarrow> SomeIpSdApi" where
  "SetDiscoveryMulticast multicast_group multicast_port interface_address api =
     api\<lparr> api_discovery_multicast_group := multicast_group, api_discovery_multicast_port := multicast_port,
          api_discovery_interface_address := interface_address \<rparr>"

definition SetDiscoveryMulticastTtl :: "int \<Rightarrow> SomeIpSdApi \<Rightarrow> SomeIpSdApi" where
  "SetDiscoveryMulticastTtl ttl api = api\<lparr> api_discovery_multicast_ttl := (if ttl < 1 then 1 else ttl) \<rparr>"

definition EnableUnixDomainControl :: "string \<Rightarrow> SomeIpSdApi \<Rightarrow> SomeIpSdApi" where
  "EnableUnixDomainControl socket_path api =
     api\<lparr> api_control_transport := kUnixDomainSocket, api_unix_socket_path := socket_path \<rparr>"

text \<open>The byte passed to \<open>IP_MULTICAST_TTL\<close>.\<close>

definition multicast_ttl_byte :: "SomeIpSdApi \<Rightarrow> u8" where
  "multicast_ttl_byte api = word_of_int (api_discovery_multicast_ttl api)"

definition AllocateRequestId :: "SomeIpSdApi \<Rightarrow> u32 \<times> SomeIpSdApi" where
  "AllocateRequestId api = (api_next_request_id api, api\<lparr> api_next_request_id := api_next_request_id api + 1 \<rparr>)"

section \<open>Control requests\<close>

datatype api_error =
    UnixPathEmpty | UnixSocketCreateFailed | UnixBindFailed | UnixSendFailed | UnixControlTimeout
  | SocketCreateFailed | SendControlFailed | ControlTimeout
  | DecodeFailed decode_error
  | RegisterIdMismatch | RegisterUnexpectedType | RegisterPayloadParseFailed
  | UnregisterIdMismatch | UnregisterUnexpectedType | UnregisterPayloadParseFailed
  | BindDiscoverFailed | SendFindFailed

text \<open>The ways the socket calls of a request can end, given where it goes and its bytes.\<close>

datatype control_io = SocketFails | SendFails | NothingReceived | Reply bytes

datatype unix_io = BindFails | UnixIo control_io

record 'w network =
  net_udp :: "string \<Rightarrow> u16 \<Rightarrow> bytes \<Rightarrow> 'w \<Rightarrow> control_io \<times> 'w"
  net_unix :: "string \<Rightarrow> bytes \<Rightarrow> 'w \<Rightarrow> unix_io \<times> 'w"

definition kApiBufferSize :: nat where [simp]: "kApiBufferSize = 4096"

definition decode_reply :: "bytes \<Rightarrow> api_error + SdPacket" where
  "decode_reply buffer =
     (case DecodePacket buffer of Inl ex \<Rightarrow> Inl (DecodeFailed ex) | Inr resp \<Rightarrow> Inr resp)"

text \<open>A datagram is cut to the receive buffer; one of no bytes counts as a timeout.\<close>

definition DoControlRequest ::
    "'w network \<Rightarrow> SomeIpSdApi \<Rightarrow> SdPacket \<Rightarrow> 'w \<Rightarrow> (api_error + SdPacket) \<times> 'w" where
  "DoControlRequest net api req w =
     (if api_control_transport api = kUnixDomainSocket then
        (if api_unix_socket_path api = '''' then (Inl UnixPathEmpty, w)
         else case net_unix net (api_unix_socket_path api) (EncodePacket req) w of (io, w) \<Rightarrow>
           (case io of
              BindFails \<Rightarrow> Inl UnixBindFailed
            | UnixIo SocketFails \<Rightarrow> Inl UnixSocketCreateFailed
            | UnixIo SendFails \<Rightarrow> Inl UnixSendFailed
            | UnixIo NothingReceived \<Rightarrow> Inl UnixControlTimeout
            | UnixIo (Reply d) \<Rightarrow>
                if d = [] then Inl UnixControlTimeout else decode_reply (take kApiBufferSize d), w))
      else case net_udp net (api_daemon_host api) (api_daemon_port api) (EncodePacket req) w of (io, w) \<Rightarrow>
           (case io of
              SocketFails \<Rightarrow> Inl SocketCreateFailed
            | SendFails \<Rightarrow> Inl SendControlFailed
            | NothingReceived \<Rightarrow> Inl ControlTimeout
            | Reply d \<Rightarrow>
                if d = [] then Inl ControlTimeout else decode_reply (take kApiBufferSize d), w))"

section \<open>Register and unregister\<close>

definition RegisterService ::
    "inet_lib \<Rightarrow> 'w network \<Rightarrow> ServiceDescriptor \<Rightarrow> int \<Rightarrow> SomeIpSdApi \<Rightarrow> 'w \<Rightarrow>
     (api_error + unit) \<times> SomeIpSdApi \<times> 'w" where
  "RegisterService lib net d ttl_sec api w =
     (let (rid, api) = AllocateRequestId api;
          req = \<lparr> pkt_message_type = kRequest, pkt_request_id = rid,
                  pkt_payload = BuildSdOfferPayload lib d (word_of_int ttl_sec) False \<rparr>;
          (r, w) = DoControlRequest net api req w
      in (case r of
            Inl e \<Rightarrow> Inl e
          | Inr resp \<Rightarrow>
              (if pkt_request_id resp \<noteq> rid then Inl RegisterIdMismatch
               else if pkt_message_type resp \<noteq> kResponse then Inl RegisterUnexpectedType
               else case ParseSdOfferFirst lib (pkt_payload resp) of
                 None \<Rightarrow> Inl RegisterPayloadParseFailed
               | Some _ \<Rightarrow> Inr ()), api, w))"

definition UnregisterService ::
    "inet_lib \<Rightarrow> 'w network \<Rightarrow> u16 \<Rightarrow> u16 \<Rightarrow> SomeIpSdApi \<Rightarrow> 'w \<Rightarrow>
     (api_error + unit) \<times> SomeIpSdApi \<times> 'w" where
  "UnregisterService lib net service inst api w =
     (let (rid, api) = AllocateRequestId api;
          desc = default_descriptor\<lparr> service_id := service, instance_id := inst \<rparr>;
          req = \<lparr> pkt_message_type = kRequest, pkt_request_id = rid,
                  pkt_payload = BuildSdOfferPayload lib desc 0 True \<rparr>;
          (r, w) = DoControlRequest net api req w
      in (case r of
            Inl e \<Rightarrow> Inl e
          | Inr resp \<Rightarrow>
              (if pkt_request_id resp \<noteq> rid then Inl UnregisterIdMismatch
               else if pkt_message_type resp \<noteq> kResponse then Inl UnregisterUnexpectedType
               else case ParseSdOfferFirst lib (pkt_payload resp) of
                 None \<Rightarrow> Inl UnregisterPayloadParseFailed
               | Some _ \<Rightarrow> Inr ()), api, w))"

section \<open>Discovery\<close>

text \<open>The key the collected offers are told apart by.\<close>

definition dedup_key :: "ServiceDescriptor \<Rightarrow> u64" where
  "dedup_key svc =
     push_bit 48 (ucast (service_id svc)) OR push_bit 32 (ucast (instance_id svc))
       OR ucast (endpoint_port svc)"

record discovery =
  found :: ServiceList
  dedup :: "u64 set"
  last_error :: "api_error option"

fun collect :: "ServiceList \<Rightarrow> discovery \<Rightarrow> discovery" where
  "collect [] st = st"
| "collect (svc # svcs) st =
     (if dedup_key svc \<in> dedup st then collect svcs st
      else collect svcs (st\<lparr> dedup := insert (dedup_key svc) (dedup st), found := found st @ [svc] \<rparr>))"

text \<open>One received datagram.\<close>

definition on_datagram :: "inet_lib \<Rightarrow> u32 \<Rightarrow> bytes \<Rightarrow> discovery \<Rightarrow> discovery" where
  "on_datagram lib rid d st =
     (case DecodePacket (take kApiBufferSize d) of
        Inl ex \<Rightarrow> st\<lparr> last_error := Some (DecodeFailed ex) \<rparr>
      | Inr resp \<Rightarrow>
          (if pkt_request_id resp \<noteq> rid then st
           else if pkt_message_type resp \<noteq> kResponse then st
           else case ParseSdOffers lib (pkt_payload resp) of
             None \<Rightarrow> st
           | Some partial \<Rightarrow> collect partial st))"

text \<open>One round of the loop: the clock reading it starts with, and what poll and \<open>recvfrom\<close> gave.
  The rounds of a call are a list; the loop is left at the deadline or when poll reports
  nothing. Clock readings are in nanoseconds.\<close>

datatype round = PollEnds | NoData | Data bytes

fun discover_loop :: "inet_lib \<Rightarrow> u32 \<Rightarrow> int \<Rightarrow> (int \<times> round) list \<Rightarrow> discovery \<Rightarrow> discovery" where
  "discover_loop lib rid deadline [] st = st"
| "discover_loop lib rid deadline ((now, r) # rs) st =
     (if now \<ge> deadline then st
      else case r of
          PollEnds \<Rightarrow> st
        | NoData \<Rightarrow> discover_loop lib rid deadline rs st
        | Data d \<Rightarrow>
            (if d = [] then discover_loop lib rid deadline rs st
             else discover_loop lib rid deadline rs (on_datagram lib rid d st)))"

datatype discover_setup = DiscoverSocketFails | DiscoverBindFails | DiscoverSendFails | DiscoverSent

text \<open>\<open>setup\<close> is what came of the calls up to the sending of the Find, and \<open>net\<close> the rounds that
  follow it (the datagrams that arrive depend on what was sent, and where). The request id is
  allocated after the socket is bound.\<close>

definition find_packet :: "u32 \<Rightarrow> u16 \<Rightarrow> u16 option \<Rightarrow> SdPacket" where
  "find_packet rid service inst =
     \<lparr> pkt_message_type = kRequest, pkt_request_id = rid, pkt_payload = BuildSdFindPayload service inst \<rparr>"

definition DiscoverServices ::
    "inet_lib \<Rightarrow> discover_setup \<Rightarrow> (string \<Rightarrow> u16 \<Rightarrow> bytes \<Rightarrow> 'w \<Rightarrow> (int \<times> round) list \<times> 'w) \<Rightarrow> int \<Rightarrow>
     u16 \<Rightarrow> u16 option \<Rightarrow> int \<Rightarrow> SomeIpSdApi \<Rightarrow> 'w \<Rightarrow> (ServiceList \<times> api_error option) \<times> SomeIpSdApi \<times> 'w" where
  "DiscoverServices lib setup net start_ns service inst timeout_ms api w =
     (if setup = DiscoverSocketFails then (([], Some SocketCreateFailed), api, w)
      else if setup = DiscoverBindFails then (([], Some BindDiscoverFailed), api, w)
      else let (rid, api) = AllocateRequestId api;
               out = EncodePacket (find_packet rid service inst)
           in if setup = DiscoverSendFails then (([], Some SendFindFailed), api, w)
              else let (rounds, w) = net (api_discovery_multicast_group api)
                              (api_discovery_multicast_port api) out w;
                       st = discover_loop lib rid (start_ns + timeout_ms * 1000000) rounds
                              \<lparr> found = [], dedup = {}, last_error = None \<rparr>
                   in ((found st, last_error st), api, w))"

section \<open>Request identifiers\<close>

lemma decode_reply_id: "decode_reply d = Inr resp \<Longrightarrow> unat (pkt_request_id resp) < 65536"
  by (metis DecodePacket_Inr(4) decode_reply_def sum.case_eq_if sum.collapse(2) sum.disc(2)
      wire_id_eq_iff wire_id_idem sum.sel(2) Inl_Inr_False)

lemma control_reply_id:
  "DoControlRequest net api req w = (Inr resp, w') \<Longrightarrow> unat (pkt_request_id resp) < 65536"
  by (auto simp: DoControlRequest_def dest!: decode_reply_id
      split: if_splits unix_io.splits control_io.splits prod.splits)

lemma register_large_id:
  assumes "65536 \<le> unat (api_next_request_id api)"
  shows "isl (fst (RegisterService lib net d ttl api w))"
  using assms
  by (auto simp: RegisterService_def AllocateRequestId_def Let_def dest: control_reply_id
      split: sum.split option.split prod.split)

lemma unregister_large_id:
  assumes "65536 \<le> unat (api_next_request_id api)"
  shows "isl (fst (UnregisterService lib net s i api w))"
  using assms
  by (auto simp: UnregisterService_def AllocateRequestId_def Let_def dest: control_reply_id
      split: sum.split option.split prod.split)

section \<open>Collecting offers\<close>

lemma dedup_key_parts:
  "(ucast (drop_bit 48 (dedup_key d)) :: u16) = service_id d"
  "(ucast (drop_bit 32 (dedup_key d)) :: u16) = instance_id d"
  "(ucast (dedup_key d) :: u16) = endpoint_port d"
  by (rule bit_word_eqI; auto simp: dedup_key_def bit_simps)+

lemma dedup_key_eq:
  "dedup_key a = dedup_key b \<longleftrightarrow>
     service_id a = service_id b \<and> instance_id a = instance_id b \<and> endpoint_port a = endpoint_port b"
  by (metis dedup_key_def dedup_key_parts)

definition discovery_inv :: "discovery \<Rightarrow> bool" where
  "discovery_inv st \<longleftrightarrow> distinct (map dedup_key (found st)) \<and> dedup st = dedup_key ` set (found st)"

lemma collect_inv: "discovery_inv st \<Longrightarrow> discovery_inv (collect svcs st)"
proof (induction svcs st rule: collect.induct)
  case (2 svc svcs st)
  show ?case
  proof (cases "dedup_key svc \<in> dedup st")
    case True
    with 2 show ?thesis by simp
  next
    case False
    with 2(3) have "discovery_inv
        (st\<lparr> dedup := insert (dedup_key svc) (dedup st), found := found st @ [svc] \<rparr>)"
      by (auto simp: discovery_inv_def)
    with False 2 show ?thesis by simp
  qed
qed simp

lemma discovery_inv_error [simp]: "discovery_inv (st\<lparr> last_error := e \<rparr>) = discovery_inv st"
  by (simp add: discovery_inv_def)

lemma on_datagram_inv: "discovery_inv st \<Longrightarrow> discovery_inv (on_datagram lib rid d st)"
  by (simp add: on_datagram_def collect_inv split: sum.split option.split)

lemma discover_loop_inv: "discovery_inv st \<Longrightarrow> discovery_inv (discover_loop lib rid deadline rs st)"
  by (induction lib rid deadline rs st rule: discover_loop.induct)
    (auto simp: on_datagram_inv split: round.split)

text \<open>Collection only appends, keeps what it is given once, and invents nothing.\<close>

lemma collect_found:
  "\<exists>new. found (collect svcs st) = found st @ new \<and> set new \<subseteq> set svcs"
proof (induction svcs st rule: collect.induct)
  case (2 svc svcs st)
  then show ?case by (cases "dedup_key svc \<in> dedup st") fastforce+
qed simp

lemma collect_keys: "dedup (collect svcs st) = dedup st \<union> dedup_key ` set svcs"
  by (induction svcs st rule: collect.induct) auto

lemma collect_last_error [simp]: "last_error (collect svcs st) = last_error st"
  by (induction svcs st rule: collect.induct) auto

lemma collect_fresh:
  "distinct (map dedup_key svcs) \<Longrightarrow> dedup_key ` set svcs \<inter> dedup st = {} \<Longrightarrow>
     found (collect svcs st) = found st @ svcs"
proof (induction svcs st rule: collect.induct)
  case (2 svc svcs st)
  then have "dedup_key svc \<notin> dedup st" by auto
  with 2 show ?case by auto
qed simp

section \<open>Where a found service comes from\<close>

definition offered_by :: "inet_lib \<Rightarrow> u32 \<Rightarrow> ServiceDescriptor \<Rightarrow> bytes \<Rightarrow> bool" where
  "offered_by lib rid d data \<longleftrightarrow>
     (case DecodePacket (take kApiBufferSize data) of
        Inl _ \<Rightarrow> False
      | Inr resp \<Rightarrow> pkt_request_id resp = rid \<and> pkt_message_type resp = kResponse
          \<and> (case ParseSdOffers lib (pkt_payload resp) of None \<Rightarrow> False | Some svcs \<Rightarrow> d \<in> set svcs))"

lemma collect_set: "set (found (collect svcs st)) \<subseteq> set (found st) \<union> set svcs"
  using collect_found [of svcs st] by auto

lemma on_datagram_source:
  "d \<in> set (found (on_datagram lib rid data st)) \<Longrightarrow> d \<in> set (found st) \<or> offered_by lib rid d data"
  using collect_set
  by (auto simp: on_datagram_def offered_by_def simp del: kApiBufferSize_def
      split: sum.splits option.splits if_splits)

lemma discover_loop_source:
  "d \<in> set (found (discover_loop lib rid deadline rs st)) \<Longrightarrow>
     d \<in> set (found st) \<or> (\<exists>now data. (now, Data data) \<in> set rs \<and> now < deadline \<and> offered_by lib rid d data)"
proof (induction lib rid deadline rs st rule: discover_loop.induct)
  case (2 lib rid deadline now r rs st)
  show ?case
  proof (cases "now < deadline \<and> (\<exists>data. r = Data data \<and> data \<noteq> [])")
    case True
    then obtain data where r: "now < deadline" "r = Data data" "data \<noteq> []" by blast
    have "d \<in> set (found (on_datagram lib rid data st))
        \<or> (\<exists>now data. (now, Data data) \<in> set rs \<and> now < deadline \<and> offered_by lib rid d data)"
      using 2 r by simp
    with r on_datagram_source [of d lib rid data st] show ?thesis by auto
  next
    case False
    with 2 show ?thesis by (cases r) (auto split: if_splits)
  qed
qed simp

lemma offered_by_id: "offered_by lib rid d data \<Longrightarrow> unat rid < 65536"
  by (auto simp: offered_by_def DecodePacket_Inr(4) wire_id_eq_iff [symmetric] split: sum.splits)

section \<open>Properties\<close>

text \<open>C16. A discovery lists each pair of service and instance at most once per port, and lists only
  what a response to this very request, received before the deadline, offers.\<close>

theorem discovery_sound:
  "distinct (map (\<lambda>d. (service_id d, instance_id d, endpoint_port d))
       (fst (fst (DiscoverServices lib setup net start s i timeout api w))))
    \<and> (\<forall>d. d \<in> set (fst (fst (DiscoverServices lib setup net start s i timeout api w))) \<longrightarrow>
        (\<exists>now data. (now, Data data) \<in> set (fst (net (api_discovery_multicast_group api)
              (api_discovery_multicast_port api) (EncodePacket (find_packet (api_next_request_id api) s i)) w))
           \<and> now < start + timeout * 1000000 \<and> offered_by lib (api_next_request_id api) d data))"
proof -
  let ?rounds = "fst (net (api_discovery_multicast_group api) (api_discovery_multicast_port api)
    (EncodePacket (find_packet (api_next_request_id api) s i)) w)"
  let ?empty = "\<lparr> found = [], dedup = {}, last_error = None \<rparr>"
  let ?st = "discover_loop lib (api_next_request_id api) (start + timeout * 1000000) ?rounds ?empty"
  have res: "fst (fst (DiscoverServices lib setup net start s i timeout api w)) = []
      \<or> fst (fst (DiscoverServices lib setup net start s i timeout api w)) = found ?st"
    by (simp add: DiscoverServices_def AllocateRequestId_def Let_def split: prod.split)
  have "distinct (map dedup_key (found ?st))"
    using discover_loop_inv [of ?empty] by (simp add: discovery_inv_def)
  then have "distinct (map (\<lambda>d. (service_id d, instance_id d, endpoint_port d)) (found ?st))"
    by (auto simp: distinct_map inj_on_def dedup_key_eq)
  with res discover_loop_source show ?thesis by fastforce
qed

definition silent_net :: "string \<Rightarrow> u16 \<Rightarrow> bytes \<Rightarrow> unit \<Rightarrow> (int \<times> round) list \<times> unit" where
  "silent_net grp port out w = ([(0, PollEnds)], w)"

theorem discovery_sound_witness:
  "distinct (map (\<lambda>d. (service_id d, instance_id d, endpoint_port d))
     (fst (fst (DiscoverServices dotted DiscoverSent silent_net 0 1 None 10 (new_SomeIpSdApi ''h'' 1 5) ()))))"
  by (rule conjunct1 [OF discovery_sound])

section \<open>Running out of request identifiers\<close>

text \<open>Calls of one client in a row. A discovery whose socket cannot be made or bound returns before it takes an
  identifier.\<close>

datatype client_op =
    OpRegister ServiceDescriptor int
  | OpUnregister u16 u16
  | OpDiscover discover_setup int u16 "u16 option" int

type_synonym op_result = "(api_error + unit) + (ServiceList \<times> api_error option)"

type_synonym 'w discover_net = "string \<Rightarrow> u16 \<Rightarrow> bytes \<Rightarrow> 'w \<Rightarrow> (int \<times> round) list \<times> 'w"

fun run_op ::
    "inet_lib \<Rightarrow> 'w network \<Rightarrow> 'w discover_net \<Rightarrow> client_op \<Rightarrow> SomeIpSdApi \<times> 'w \<Rightarrow> op_result \<times> SomeIpSdApi \<times> 'w" where
  "run_op lib net net' (OpRegister d ttl) (api, w) = apfst Inl (RegisterService lib net d ttl api w)"
| "run_op lib net net' (OpUnregister s i) (api, w) = apfst Inl (UnregisterService lib net s i api w)"
| "run_op lib net net' (OpDiscover setup start s i timeout) (api, w) =
     apfst Inr (DiscoverServices lib setup net' start s i timeout api w)"

primrec client_ops ::
    "inet_lib \<Rightarrow> 'w network \<Rightarrow> 'w discover_net \<Rightarrow> client_op list \<Rightarrow> SomeIpSdApi \<times> 'w \<Rightarrow> SomeIpSdApi \<times> 'w" where
  "client_ops lib net net' [] st = st"
| "client_ops lib net net' (c # cs) st = client_ops lib net net' cs (snd (run_op lib net net' c st))"

fun takes_id :: "client_op \<Rightarrow> bool" where
  "takes_id (OpDiscover setup start s i timeout) = (setup \<notin> {DiscoverSocketFails, DiscoverBindFails})"
| "takes_id _ = True"

definition op_fails :: "op_result \<Rightarrow> bool" where
  "op_fails r = (case r of Inl done \<Rightarrow> isl done | Inr found_services \<Rightarrow> fst found_services = [])"

lemma run_op_id:
  "api_next_request_id (fst (snd (run_op lib net net' c (api, w)))) = api_next_request_id api + of_bool (takes_id c)"
  by (cases c)
    (auto simp: RegisterService_def UnregisterService_def DiscoverServices_def AllocateRequestId_def Let_def
      split: prod.split)

lemma client_ops_id:
  "api_next_request_id (fst (client_ops lib net net' cs st))
     = api_next_request_id (fst st) + of_nat (length (filter takes_id cs))"
proof (induction cs arbitrary: st)
  case (Cons c cs)
  then show ?case using run_op_id [of lib net net' c "fst st" "snd st"] by simp
qed simp

lemma large_id_fails:
  assumes "65536 \<le> unat (api_next_request_id (fst st))"
  shows "op_fails (fst (run_op lib net net' c st))"
proof -
  let ?empty = "\<lparr> found = [], dedup = {}, last_error = None \<rparr>" and ?rid = "api_next_request_id (fst st)"
  obtain api w where st: "st = (api, w)" by fastforce
  have "found (discover_loop lib ?rid deadline rs ?empty) = []" for deadline rs
  proof (rule ccontr)
    assume "found (discover_loop lib ?rid deadline rs ?empty) \<noteq> []"
    then have "hd (found (discover_loop lib ?rid deadline rs ?empty))
        \<in> set (found (discover_loop lib ?rid deadline rs ?empty))" by simp
    from discover_loop_source [OF this] obtain d data where "offered_by lib ?rid d data" by auto
    from offered_by_id [OF this] assms show False by simp
  qed
  then have "fst (fst (DiscoverServices lib sent net' start s i timeout api w)) = []" for sent start s i timeout
    by (simp add: DiscoverServices_def AllocateRequestId_def Let_def st split: prod.split)
  then show ?thesis
    using assms register_large_id [of api lib net] unregister_large_id [of api lib net]
    by (cases c) (simp_all add: st op_fails_def)
qed

text \<open>C17. The client numbers its requests from 1 with 32 bits and the wire carries 16: whatever the network and
  the daemon do, after 65535 calls that took an identifier (and until the counter wraps after 2 to the 32)
  no call succeeds any more: no registration, no unregistration, and a discovery finds nothing.\<close>

theorem request_ids_run_out:
  assumes "api_next_request_id api = 1"
    and "65535 \<le> length (filter takes_id cs)" and "length (filter takes_id cs) < 2 ^ 32 - 1"
  shows "op_fails (fst (run_op lib net net' c (client_ops lib net net' cs (api, w))))"
proof (rule large_id_fails)
  have "unat (1 + of_nat (length (filter takes_id cs)) :: u32) = 1 + length (filter takes_id cs)"
    using assms(3) by (simp add: unat_word_ariths unat_of_nat)
  then show "65536 \<le> unat (api_next_request_id (fst (client_ops lib net net' cs (api, w))))"
    using assms(1,2) by (simp add: client_ops_id)
qed

definition echo_net :: "unit network" where
  "echo_net = \<lparr> net_udp = (\<lambda>h p d w. (Reply d, w)), net_unix = (\<lambda>p d w. (UnixIo (Reply d), w)) \<rparr>"

theorem request_ids_run_out_witness:
  "op_fails (fst (run_op dotted echo_net silent_net (OpRegister default_descriptor 5)
     (client_ops dotted echo_net silent_net (replicate 65535 (OpUnregister 1 1)) (new_SomeIpSdApi ''h'' 1 5, ()))))"
  by (rule request_ids_run_out) (simp_all add: new_SomeIpSdApi_def)

end
