(* ===== verification/Sd_Deadline.thy ===== *)
theory Sd_Deadline
  imports Sd_Api
begin

text \<open>
  Does a discovery return? \<open>discover_loop\<close> of \<open>Sd_Api\<close> runs over the rounds that happened, so it
  always returns. Here the \<open>while (true)\<close> of \<open>DiscoverServices\<close> runs over an endless stream of what
  the clock and the socket would give, and may not end. It ends exactly when a round reads a clock at
  the deadline or a poll that reports nothing, and then with what \<open>discover_loop\<close> computes from the
  rounds up to there.
\<close>

section \<open>The loop on an endless stream\<close>

partial_function (option) discover_while ::
    "inet_lib \<Rightarrow> u32 \<Rightarrow> int \<Rightarrow> (nat \<Rightarrow> int \<times> round) \<Rightarrow> nat \<Rightarrow> discovery \<Rightarrow> discovery option" where
  "discover_while lib rid deadline rounds i st =
     (case rounds i of (now, r) \<Rightarrow>
        (if now \<ge> deadline then Some st
         else case r of
             PollEnds \<Rightarrow> Some st
           | NoData \<Rightarrow> discover_while lib rid deadline rounds (Suc i) st
           | Data d \<Rightarrow>
               (if d = [] then discover_while lib rid deadline rounds (Suc i) st
                else discover_while lib rid deadline rounds (Suc i) (on_datagram lib rid d st))))"

text \<open>A round that leaves the loop.\<close>

definition last_round :: "int \<Rightarrow> int \<times> round \<Rightarrow> bool" where
  "last_round deadline r \<longleftrightarrow> fst r \<ge> deadline \<or> snd r = PollEnds"

section \<open>When it ends\<close>

lemma discover_while_step:
  "\<not> last_round deadline (rounds i) \<Longrightarrow> \<exists>st'. discover_while lib rid deadline rounds i st
       = discover_while lib rid deadline rounds (Suc i) st'
     \<and> (\<forall>rs. discover_loop lib rid deadline (rounds i # rs) st = discover_loop lib rid deadline rs st')"
  by (subst discover_while.simps) (auto simp: last_round_def split: prod.split round.split)

lemma discover_while_last:
  "last_round deadline (rounds i) \<Longrightarrow> discover_while lib rid deadline rounds i st = Some st"
  by (subst discover_while.simps) (auto simp: last_round_def split: prod.split)

lemma discover_loop_last:
  "last_round deadline r \<Longrightarrow> discover_loop lib rid deadline (r # rs) st = st"
  by (cases r) (auto simp: last_round_def)

text \<open>The rounds after the last one do not matter to the loop on a list.\<close>

lemma discover_while_first:
  assumes "last_round deadline (rounds (i + n))" and "\<forall>j < n. \<not> last_round deadline (rounds (i + j))" and "n < m"
  shows "discover_while lib rid deadline rounds i st
     = Some (discover_loop lib rid deadline (map rounds [i..<i + m]) st)"
  using assms
proof (induction n arbitrary: i st m)
  case 0
  then show ?case by (simp add: upt_conv_Cons discover_while_last discover_loop_last)
next
  case (Suc n)
  then have "\<not> last_round deadline (rounds i)" by (metis add_0_right zero_less_Suc)
  then obtain st' where st': "discover_while lib rid deadline rounds i st
      = discover_while lib rid deadline rounds (Suc i) st'"
    "\<And>rs. discover_loop lib rid deadline (rounds i # rs) st = discover_loop lib rid deadline rs st'"
    using discover_while_step by metis
  obtain m' where m: "m = Suc m'" and "n < m'" using Suc.prems(3) by (cases m) auto
  have "discover_while lib rid deadline rounds (Suc i) st'
      = Some (discover_loop lib rid deadline (map rounds [Suc i..<Suc i + m']) st')"
    using Suc.prems(1,2) \<open>n < m'\<close> by (intro Suc.IH) (auto dest: spec [of _ "Suc _"])
  with st' show ?case by (simp add: m upt_conv_Cons del: upt_Suc)
qed

lemma discover_while_Some:
  assumes "discover_while lib rid deadline rounds i st = Some st'"
  shows "\<exists>n. last_round deadline (rounds (i + n))"
proof (rule discover_while.raw_induct
    [where P = "\<lambda>lib rid deadline rounds i st st'. \<exists>n. last_round deadline (rounds (i + n))", OF _ assms])
  fix f lib rid deadline rounds i st st'
  assume IH: "\<And>lib rid deadline rounds i st st'. f lib rid deadline rounds i st = Some st' \<Longrightarrow>
      \<exists>n. last_round deadline (rounds (i + n))"
    and step: "(case rounds i of (now, r) \<Rightarrow>
        (if deadline \<le> now then Some st
         else case r of
             PollEnds \<Rightarrow> Some st
           | NoData \<Rightarrow> f lib rid deadline rounds (Suc i) st
           | Data d \<Rightarrow> if d = [] then f lib rid deadline rounds (Suc i) st
                      else f lib rid deadline rounds (Suc i) (on_datagram lib rid d st))) = Some st'"
  show "\<exists>n. last_round deadline (rounds (i + n))"
  proof (cases "last_round deadline (rounds i)")
    case True
    then show ?thesis by (metis add_0_right)
  next
    case False
    with step obtain st1 where "f lib rid deadline rounds (Suc i) st1 = Some st'"
      by (auto simp: last_round_def split: prod.splits round.splits if_splits)
    from IH [OF this] show ?thesis by (metis add_Suc_shift)
  qed
qed

section \<open>Property\<close>

text \<open>The loop of a discovery returns if and only if some round reads the clock at or past the
  deadline or polls nothing; the calls cannot keep it in the loop past the deadline, whatever arrives.
  It returns what the loop over the finitely many rounds up to there collects: later ones have no
  influence.\<close>

theorem discovery_returns:
  "(discover_while lib rid deadline rounds 0 st = None
      \<longleftrightarrow> (\<forall>n. fst (rounds n) < deadline \<and> snd (rounds n) \<noteq> PollEnds))
    \<and> (deadline \<le> fst (rounds n) \<longrightarrow> discover_while lib rid deadline rounds 0 st
          = Some (discover_loop lib rid deadline (map rounds [0..<Suc n]) st))"
proof -
  have ends: "discover_while lib rid deadline rounds 0 st
      = Some (discover_loop lib rid deadline (map rounds [0..<Suc n]) st)"
    if "last_round deadline (rounds n)" for n
  proof -
    define k where "k = (LEAST k. last_round deadline (rounds k))"
    have "last_round deadline (rounds k)" unfolding k_def using that by (rule LeastI)
    moreover have "\<forall>j < k. \<not> last_round deadline (rounds j)" unfolding k_def by (blast dest: not_less_Least)
    moreover have "k < Suc n" unfolding k_def using Least_le [of _ n] that by (metis le_imp_less_Suc)
    ultimately show ?thesis
      using discover_while_first [of deadline rounds 0 k "Suc n" lib rid st] by simp
  qed
  have "discover_while lib rid deadline rounds 0 st \<noteq> None \<longleftrightarrow> (\<exists>n. last_round deadline (rounds n))"
    using ends discover_while_Some [of lib rid deadline rounds 0 st] by fastforce
  then have "discover_while lib rid deadline rounds 0 st = None
      \<longleftrightarrow> (\<forall>n. fst (rounds n) < deadline \<and> snd (rounds n) \<noteq> PollEnds)"
    by (metis last_round_def not_le)
  moreover have "deadline \<le> fst (rounds n) \<longrightarrow> discover_while lib rid deadline rounds 0 st
      = Some (discover_loop lib rid deadline (map rounds [0..<Suc n]) st)"
    using ends [of n] by (simp add: last_round_def del: upt_Suc)
  ultimately show ?thesis by blast
qed

text \<open>Three rounds of silence, and the clock is at the deadline.\<close>

theorem discovery_returns_witness:
  "discover_while dotted 1 300 (\<lambda>i. (100 * int i, NoData)) 0 \<lparr> found = [], dedup = {}, last_error = None \<rparr>
     = Some \<lparr> found = [], dedup = {}, last_error = None \<rparr>"
  using discovery_returns [of dotted 1 300 "\<lambda>i. (100 * int i, NoData)"
      "\<lparr> found = [], dedup = {}, last_error = None \<rparr>" 3]
  by (simp add: upt_rec)

end
