(* ===== verification/Soft_State.thy ===== *)
theory Soft_State
  imports Prelude
begin

text \<open>
  The contract of a soft-state table: entries with an expiry time that are put, deleted and swept.
  The clients of the discovery daemon rely on it (a registration lasts until its time is up, and
  no longer than the first sweep after that), and theory \<open>Sd_Registry\<close> shows that the registry
  of the daemon provides it. An operation sequence is a value, so that facts about whole
  histories are proved here once.
\<close>

datatype ('k, 'v) table_op =
    Put 'k 'v nat
  | Del 'k
  | Sweep nat

definition apply_op ::
    "('k \<Rightarrow> 'v \<Rightarrow> nat \<Rightarrow> 's \<Rightarrow> 's) \<Rightarrow> ('k \<Rightarrow> 's \<Rightarrow> 's) \<Rightarrow> (nat \<Rightarrow> 's \<Rightarrow> 's) \<Rightarrow> ('k, 'v) table_op \<Rightarrow> 's \<Rightarrow> 's" where
  "apply_op put del sweep op s =
     (case op of Put k v t \<Rightarrow> put k v t s | Del k \<Rightarrow> del k s | Sweep now \<Rightarrow> sweep now s)"

definition run_ops ::
    "('k \<Rightarrow> 'v \<Rightarrow> nat \<Rightarrow> 's \<Rightarrow> 's) \<Rightarrow> ('k \<Rightarrow> 's \<Rightarrow> 's) \<Rightarrow> (nat \<Rightarrow> 's \<Rightarrow> 's) \<Rightarrow> ('k, 'v) table_op list \<Rightarrow> 's \<Rightarrow> 's" where
  "run_ops put del sweep ops s = foldl (\<lambda>s op. apply_op put del sweep op s) s ops"

text \<open>An operation that leaves key \<open>k\<close> alone: it is about another key, or a sweep before \<open>t\<close>.\<close>

fun spares :: "'k \<Rightarrow> nat \<Rightarrow> ('k, 'v) table_op \<Rightarrow> bool" where
  "spares k t (Put k' v t') \<longleftrightarrow> k' \<noteq> k"
| "spares k t (Del k') \<longleftrightarrow> k' \<noteq> k"
| "spares k t (Sweep now) \<longleftrightarrow> now < t"

fun op_ok :: "(nat \<Rightarrow> bool) \<Rightarrow> ('k, 'v) table_op \<Rightarrow> bool" where
  "op_ok time_ok (Put k v t) \<longleftrightarrow> time_ok t"
| "op_ok time_ok (Del k) \<longleftrightarrow> True"
| "op_ok time_ok (Sweep now) \<longleftrightarrow> time_ok now"

fun puts :: "'k \<Rightarrow> ('k, 'v) table_op \<Rightarrow> bool" where
  "puts k (Put k' v t) \<longleftrightarrow> k' = k"
| "puts k _ \<longleftrightarrow> False"

locale soft_state =
  fixes look :: "'s \<Rightarrow> 'k \<Rightarrow> ('v \<times> nat) option"
    and put :: "'k \<Rightarrow> 'v \<Rightarrow> nat \<Rightarrow> 's \<Rightarrow> 's"
    and del :: "'k \<Rightarrow> 's \<Rightarrow> 's"
    and sweep :: "nat \<Rightarrow> 's \<Rightarrow> 's"
    and time_ok :: "nat \<Rightarrow> bool"
  assumes look_put: "time_ok t \<Longrightarrow> look (put k v t s) k' = (if k' = k then Some (v, t) else look s k')"
    and look_del: "look (del k s) k' = (if k' = k then None else look s k')"
    and look_sweep: "time_ok now \<Longrightarrow> look (sweep now s) k =
      (case look s k of None \<Rightarrow> None | Some (v, t) \<Rightarrow> if t \<le> now then None else Some (v, t))"
begin

lemma run_Nil [simp]: "run_ops put del sweep [] s = s"
  by (simp add: run_ops_def)

lemma run_Cons [simp]:
  "run_ops put del sweep (op # ops) s = run_ops put del sweep ops (apply_op put del sweep op s)"
  by (simp add: run_ops_def)

lemma run_append [simp]:
  "run_ops put del sweep (xs @ ys) s = run_ops put del sweep ys (run_ops put del sweep xs s)"
  by (simp add: run_ops_def)

lemma apply_spares:
  "look s k = Some (v, t) \<Longrightarrow> spares k t op \<Longrightarrow> op_ok time_ok op \<Longrightarrow>
     look (apply_op put del sweep op s) k = Some (v, t)"
  by (cases op) (auto simp: apply_op_def look_put look_del look_sweep)

lemma apply_no_put:
  "look s k = None \<Longrightarrow> \<not> puts k op \<Longrightarrow> op_ok time_ok op \<Longrightarrow> look (apply_op put del sweep op s) k = None"
  by (cases op) (auto simp: apply_op_def look_put look_del look_sweep)

text \<open>An entry survives every operation that spares it.\<close>

lemma run_spares:
  "look s k = Some (v, t) \<Longrightarrow> list_all (spares k t) ops \<Longrightarrow> list_all (op_ok time_ok) ops \<Longrightarrow>
     look (run_ops put del sweep ops s) k = Some (v, t)"
  by (induction ops arbitrary: s) (simp_all add: apply_spares)

text \<open>A key that is absent stays absent until it is put.\<close>

lemma run_no_put:
  "look s k = None \<Longrightarrow> list_all (\<lambda>op. \<not> puts k op) ops \<Longrightarrow> list_all (op_ok time_ok) ops \<Longrightarrow>
     look (run_ops put del sweep ops s) k = None"
  by (induction ops arbitrary: s) (simp_all add: apply_no_put)

lemma put_lasts:
  assumes "time_ok t" and "list_all (spares k t) ops" and "list_all (op_ok time_ok) ops"
  shows "look (run_ops put del sweep (Put k v t # ops) s) k = Some (v, t)"
  using assms by (simp add: apply_op_def look_put run_spares)

lemma sweep_removes:
  assumes "look s k = Some (v, t)" and "t \<le> now" and "time_ok now"
    and "list_all (\<lambda>op. \<not> puts k op) ops" and "list_all (op_ok time_ok) ops"
  shows "look (run_ops put del sweep (Sweep now # ops) s) k = None"
  using assms by (simp add: apply_op_def look_sweep run_no_put)

lemma del_removes:
  assumes "list_all (\<lambda>op. \<not> puts k op) ops" and "list_all (op_ok time_ok) ops"
  shows "look (run_ops put del sweep (Del k # ops) s) k = None"
  using assms by (simp add: apply_op_def look_del run_no_put)

text \<open>A key whose last put has run out by a sweep is gone.\<close>

lemma apply_aging:
  "(look s k = None \<or> (\<exists>v. look s k = Some (v, t))) \<Longrightarrow> \<not> puts k op \<Longrightarrow> op_ok time_ok op \<Longrightarrow>
     look (apply_op put del sweep op s) k = None \<or> (\<exists>v. look (apply_op put del sweep op s) k = Some (v, t))"
  by (cases op) (auto simp: apply_op_def look_put look_del look_sweep split: if_splits)

lemma run_aging:
  "(look s k = None \<or> (\<exists>v. look s k = Some (v, t))) \<Longrightarrow> list_all (\<lambda>op. \<not> puts k op) ops \<Longrightarrow>
     list_all (op_ok time_ok) ops \<Longrightarrow>
     look (run_ops put del sweep ops s) k = None \<or> (\<exists>v. look (run_ops put del sweep ops s) k = Some (v, t))"
proof (induction ops arbitrary: s)
  case (Cons op ops)
  have "look (apply_op put del sweep op s) k = None
      \<or> (\<exists>v. look (apply_op put del sweep op s) k = Some (v, t))"
    using Cons.prems by (intro apply_aging) simp_all
  with Cons show ?case by simp
qed simp

lemma gone_after_sweep:
  assumes "t \<le> now" and "list_all (\<lambda>op. \<not> puts k op) (mid @ ops)"
    and "list_all (op_ok time_ok) (Put k v t # mid @ Sweep now # ops)"
  shows "look (run_ops put del sweep (Put k v t # mid @ Sweep now # ops) s) k = None"
proof -
  let ?s = "run_ops put del sweep mid (put k v t s)"
  have "look ?s k = None \<or> (\<exists>v. look ?s k = Some (v, t))"
    using assms by (intro run_aging) (simp_all add: look_put)
  then have "look (sweep now ?s) k = None" using assms by (auto simp: look_sweep)
  then show ?thesis using assms by (simp add: apply_op_def run_no_put)
qed

text \<open>What a history leaves at a key: its last put, if everything after that spared it.\<close>

lemma run_history:
  assumes "look s k = None" and "list_all (op_ok time_ok) ops"
  shows "look (run_ops put del sweep ops s) k = Some (v, t) \<longleftrightarrow>
     (\<exists>xs ys. ops = xs @ Put k v t # ys \<and> list_all (spares k t) ys)"
  using assms(2)
proof (induction ops arbitrary: v t rule: rev_induct)
  case Nil
  show ?case using assms(1) by simp
next
  case (snoc op ops)
  let ?s = "run_ops put del sweep ops s"
  have split: "(\<exists>xs ys. ops @ [op] = xs @ Put k v t # ys \<and> list_all (spares k t) ys) \<longleftrightarrow>
      op = Put k v t \<or> spares k t op \<and> (\<exists>xs ys. ops = xs @ Put k v t # ys \<and> list_all (spares k t) ys)"
    (is "?L = ?R")
  proof
    assume ?L
    then obtain xs ys where "ops @ [op] = xs @ Put k v t # ys" "list_all (spares k t) ys" by blast
    then show ?R by (cases ys rule: rev_cases) auto
  next
    assume ?R
    then show ?L
    proof
      assume "spares k t op \<and> (\<exists>xs ys. ops = xs @ Put k v t # ys \<and> list_all (spares k t) ys)"
      then obtain xs ys where "ops = xs @ Put k v t # ys" "list_all (spares k t) (ys @ [op])" by auto
      then show ?L by (intro exI [of _ xs] exI [of _ "ys @ [op]"]) simp
    qed (intro exI [of _ ops] exI [of _ "[]"], simp)
  qed
  have "look (apply_op put del sweep op ?s) k = Some (v, t) \<longleftrightarrow>
      op = Put k v t \<or> spares k t op \<and> look ?s k = Some (v, t)"
    using snoc.prems
    by (cases op) (auto simp: apply_op_def look_put look_del look_sweep not_le split: option.splits if_splits)
  then show ?case using snoc by (simp add: split)
qed

end

end
