(* ===== verification/Sd_Registry.thy ===== *)
theory Sd_Registry
  imports Sd_Types Soft_State
begin

text \<open>
  The registry of \<open>SomeIpSdDaemon\<close>: an \<open>unordered_map\<close> from the packed service and instance
  identifiers to a descriptor and its expiry. The map is a finite partial function. The order in
  which \<open>unordered_map\<close> enumerates its elements is unspecified, so the loops over it take that
  order as an argument, a list of the keys; \<open>enumerates\<close> says it lists each key once.
\<close>

record RegistryEntry =
  descriptor :: ServiceDescriptor
  expires_at_ms :: u64

type_synonym registry = "u32 \<rightharpoonup> RegistryEntry"

definition enumerates :: "'k list \<Rightarrow> ('k \<rightharpoonup> 'v) \<Rightarrow> bool" where
  "enumerates ks m \<longleftrightarrow> distinct ks \<and> set ks = dom m"

section \<open>Keys\<close>

definition MakeRegistryKey :: "u16 \<Rightarrow> u16 \<Rightarrow> u32" where
  "MakeRegistryKey service inst = push_bit 16 (ucast service) OR ucast inst"

lemma registry_key_parts:
  "(ucast (drop_bit 16 (MakeRegistryKey s i)) :: u16) = s" "(ucast (MakeRegistryKey s i) :: u16) = i"
  by (rule bit_word_eqI; auto simp: MakeRegistryKey_def bit_simps)+

lemma registry_key_inject [simp]: "MakeRegistryKey s i = MakeRegistryKey s' i' \<longleftrightarrow> s = s' \<and> i = i'"
  by (metis registry_key_parts)

definition entry_key :: "ServiceDescriptor \<Rightarrow> u32" where
  "entry_key d = MakeRegistryKey (service_id d) (instance_id d)"

section \<open>Expiry\<close>

fun cleanup_loop :: "u32 list \<Rightarrow> u64 \<Rightarrow> registry \<Rightarrow> registry" where
  "cleanup_loop [] now m = m"
| "cleanup_loop (k # ks) now m =
     (case m k of
        None \<Rightarrow> cleanup_loop ks now m
      | Some e \<Rightarrow>
          (if expires_at_ms e \<le> now then cleanup_loop ks now (m(k := None))
           else cleanup_loop ks now m))"

definition CleanupExpired :: "u32 list \<Rightarrow> u64 \<Rightarrow> registry \<Rightarrow> registry" where
  "CleanupExpired ks now m = cleanup_loop ks now m"

text \<open>What the loop leaves, said without the loop.\<close>

definition live :: "u64 \<Rightarrow> registry \<Rightarrow> registry" where
  "live now m = (\<lambda>k. case m k of None \<Rightarrow> None
                     | Some e \<Rightarrow> if expires_at_ms e \<le> now then None else Some e)"

lemma cleanup_loop_at:
  "cleanup_loop ks now m k = (if k \<in> set ks then live now m k else m k)"
  by (induction ks now m arbitrary: k rule: cleanup_loop.induct)
    (auto simp: live_def split: option.splits)

lemma CleanupExpired_live: "enumerates ks m \<Longrightarrow> CleanupExpired ks now m = live now m"
  by (auto simp: CleanupExpired_def cleanup_loop_at enumerates_def live_def fun_eq_iff
      split: option.splits)

lemma dom_live: "dom (live now m) \<subseteq> dom m"
  by (auto simp: live_def dom_def split: option.splits)

lemma live_Some: "live now m k = Some e \<longleftrightarrow> m k = Some e \<and> now < expires_at_ms e"
  by (auto simp: live_def not_le split: option.splits)

section \<open>Lookup by a Find\<close>

definition matches_query :: "u16 \<Rightarrow> u16 option \<Rightarrow> ServiceDescriptor \<Rightarrow> bool" where
  "matches_query s i d \<longleftrightarrow> service_id d = s \<and> (case i of None \<Rightarrow> True | Some x \<Rightarrow> instance_id d = x)"

fun matches_loop ::
    "u32 list \<Rightarrow> registry \<Rightarrow> u16 \<Rightarrow> u16 option \<Rightarrow> RegistryEntry list \<Rightarrow> RegistryEntry list" where
  "matches_loop [] m s i matches = matches"
| "matches_loop (k # ks) m s i matches =
     (case m k of
        None \<Rightarrow> matches_loop ks m s i matches
      | Some svc \<Rightarrow>
          (if service_id (descriptor svc) \<noteq> s then matches_loop ks m s i matches
           else if i \<noteq> None \<and> instance_id (descriptor svc) \<noteq> the i then matches_loop ks m s i matches
           else matches_loop ks m s i (matches @ [svc])))"

lemma matches_loop_filter:
  assumes "set ks \<subseteq> dom m"
  shows "matches_loop ks m s i acc =
     acc @ filter (\<lambda>e. matches_query s i (descriptor e)) (map (\<lambda>k. the (m k)) ks)"
  using assms
  by (induction ks m s i acc rule: matches_loop.induct)
    (auto simp: matches_query_def split: option.splits)

lemma set_matches_loop:
  assumes "enumerates ks m"
  shows "set (matches_loop ks m s i []) = {e \<in> ran m. matches_query s i (descriptor e)}"
  using assms by (auto simp: enumerates_def matches_loop_filter ran_def dom_def image_iff)

section \<open>The registry is a soft-state table\<close>

definition reg_look :: "registry \<Rightarrow> u32 \<Rightarrow> (ServiceDescriptor \<times> nat) option" where
  "reg_look m k = map_option (\<lambda>e. (descriptor e, unat (expires_at_ms e))) (m k)"

definition reg_put :: "u32 \<Rightarrow> ServiceDescriptor \<Rightarrow> nat \<Rightarrow> registry \<Rightarrow> registry" where
  "reg_put k d t m = m(k \<mapsto> \<lparr> descriptor = d, expires_at_ms = of_nat t \<rparr>)"

definition reg_del :: "u32 \<Rightarrow> registry \<Rightarrow> registry" where
  "reg_del k m = m(k := None)"

definition reg_sweep :: "nat \<Rightarrow> registry \<Rightarrow> registry" where
  "reg_sweep now m = live (of_nat now) m"

definition ms_ok :: "nat \<Rightarrow> bool" where
  "ms_ok t \<longleftrightarrow> t < 2 ^ 64"

interpretation registry: soft_state reg_look reg_put reg_del reg_sweep ms_ok
proof
  show "ms_ok t \<Longrightarrow> reg_look (reg_put k v t s) k' = (if k' = k then Some (v, t) else reg_look s k')"
    for t k v s k'
    by (simp add: reg_look_def reg_put_def ms_ok_def unat_of_nat)
  show "reg_look (reg_del k s) k' = (if k' = k then None else reg_look s k')" for k s k'
    by (simp add: reg_look_def reg_del_def)
  show "ms_ok now \<Longrightarrow> reg_look (reg_sweep now s) k =
      (case reg_look s k of None \<Rightarrow> None | Some (v, t) \<Rightarrow> if t \<le> now then None else Some (v, t))"
    for now s k
    by (cases "s k") (auto simp: reg_look_def reg_sweep_def live_def ms_ok_def word_le_nat_alt unat_of_nat)
qed

section \<open>Properties\<close>

text \<open>The erase-while-iterating loop removes exactly the expired entries: whatever order the
  hash map enumerates its keys in, an entry is left if and only if it was there and expires after
  the clock reading.\<close>

theorem cleanup_exact:
  assumes "enumerates ks m"
  shows "CleanupExpired ks now m k = Some e \<longleftrightarrow> m k = Some e \<and> now < expires_at_ms e"
  using assms by (simp add: CleanupExpired_live live_Some)

definition two_entries :: registry where
  "two_entries = [MakeRegistryKey 1 1 \<mapsto> \<lparr> descriptor = default_descriptor, expires_at_ms = 5 \<rparr>,
                  MakeRegistryKey 1 2 \<mapsto> \<lparr> descriptor = default_descriptor, expires_at_ms = 6 \<rparr>]"

lemma two_entries_keys: "enumerates [MakeRegistryKey 1 2, MakeRegistryKey 1 1] two_entries"
  by (auto simp: enumerates_def two_entries_def)

theorem cleanup_exact_witness:
  "CleanupExpired [MakeRegistryKey 1 2, MakeRegistryKey 1 1] 5 two_entries (MakeRegistryKey 1 2) \<noteq> None
    \<and> CleanupExpired [MakeRegistryKey 1 2, MakeRegistryKey 1 1] 5 two_entries (MakeRegistryKey 1 1) = None"
proof -
  have "CleanupExpired [MakeRegistryKey 1 2, MakeRegistryKey 1 1] 5 two_entries (MakeRegistryKey 1 1) \<noteq> Some e"
    for e unfolding cleanup_exact [OF two_entries_keys] by (auto simp: two_entries_def)
  moreover have "CleanupExpired [MakeRegistryKey 1 2, MakeRegistryKey 1 1] 5 two_entries (MakeRegistryKey 1 2)
      = Some \<lparr> descriptor = default_descriptor, expires_at_ms = 6 \<rparr>"
    unfolding cleanup_exact [OF two_entries_keys] by (auto simp: two_entries_def)
  ultimately show ?thesis by auto
qed

end
