(* ===== verification/Sd_Daemon.thy ===== *)
theory Sd_Daemon
  imports Sd_Packet Sd_Payload Sd_Registry
begin

text \<open>
  The request handling of the discovery daemon (\<open>sd_daemon.cpp\<close>): \<open>HandlePacket\<close>, the datagram
  handler of the server loop, and the loop itself as a step relation. Each reading of the clock
  and each enumeration order of the registry is an argument, supplied by the environment. The
  registry lock is held around every access and the server thread is the only one that touches
  the registry, so a handler is one atomic step.
\<close>

section \<open>HandlePacket\<close>

text \<open>The result is the function's own (it always returns \<open>true\<close>), the response and the
  registry after the call.\<close>

definition HandlePacket ::
    "inet_lib \<Rightarrow> u32 list \<Rightarrow> u64 \<Rightarrow> SdPacket \<Rightarrow> registry \<Rightarrow> bool \<times> SdPacket \<times> registry" where
  "HandlePacket lib order now req reg =
     (if pkt_message_type req \<noteq> kRequest then
        (True, \<lparr> pkt_message_type = kError, pkt_request_id = pkt_request_id req, pkt_payload = [] \<rparr>, reg)
      else case ParseSdFindPayload (pkt_payload req) of
        Some (service, inst) \<Rightarrow>
          (let matches = matches_loop order reg service inst [];
               found = map descriptor matches
           in (True, \<lparr> pkt_message_type = kResponse, pkt_request_id = pkt_request_id req,
                       pkt_payload = BuildSdOfferPayloadList lib found 3 \<rparr>, reg))
      | None \<Rightarrow>
          (case ParseSdOfferFirst lib (pkt_payload req) of
             None \<Rightarrow>
               (True, \<lparr> pkt_message_type = kError, pkt_request_id = pkt_request_id req,
                        pkt_payload = [] \<rparr>, reg)
           | Some (parsed, ttl_sec) \<Rightarrow>
               (if ttl_sec = 0 then
                  let key = MakeRegistryKey (service_id parsed) (instance_id parsed)
                  in (True, \<lparr> pkt_message_type = kResponse, pkt_request_id = pkt_request_id req,
                              pkt_payload = BuildSdOfferPayload lib parsed 0 True \<rparr>, reg(key := None))
                else
                  let key = MakeRegistryKey (service_id parsed) (instance_id parsed);
                      entry = \<lparr> descriptor = parsed, expires_at_ms = now + ucast ttl_sec * 1000 \<rparr>
                  in (True, \<lparr> pkt_message_type = kResponse, pkt_request_id = pkt_request_id req,
                              pkt_payload = BuildSdOfferPayload lib parsed ttl_sec False \<rparr>,
                      reg(key \<mapsto> entry)))))"

section \<open>One datagram\<close>

text \<open>\<open>recvfrom\<close> fills a buffer of 4096 bytes and drops the rest of a longer datagram.\<close>

definition kBufferSize :: nat where [simp]: "kBufferSize = 4096"

definition process_fd ::
    "inet_lib \<Rightarrow> u32 list \<Rightarrow> u64 \<Rightarrow> bytes \<Rightarrow> registry \<Rightarrow> bytes option \<times> registry" where
  "process_fd lib order now datagram reg =
     (let buffer = take kBufferSize datagram in
      if length buffer \<le> 0 then (None, reg)
      else case DecodePacket buffer of
        Inl _ \<Rightarrow> (None, reg)
      | Inr req \<Rightarrow>
          (case HandlePacket lib order now req reg of
             (ok, resp, reg') \<Rightarrow>
               (if \<not> ok then (None, reg') else (Some (EncodePacket resp), reg'))))"

section \<open>Every branch of the handler\<close>

lemma handle_not_request:
  "pkt_message_type req \<noteq> kRequest \<Longrightarrow> HandlePacket lib order now req reg =
     (True, \<lparr> pkt_message_type = kError, pkt_request_id = pkt_request_id req, pkt_payload = [] \<rparr>, reg)"
  by (simp add: HandlePacket_def)

lemma handle_malformed:
  "ParseSdFindPayload (pkt_payload req) = None \<Longrightarrow> ParseSdOfferFirst lib (pkt_payload req) = None \<Longrightarrow>
     HandlePacket lib order now req reg =
     (True, \<lparr> pkt_message_type = kError, pkt_request_id = pkt_request_id req, pkt_payload = [] \<rparr>, reg)"
  by (simp add: HandlePacket_def)

lemma handle_ok: "fst (HandlePacket lib order now req reg) = True"
  by (simp add: HandlePacket_def Let_def split: option.split prod.split)

lemma handle_request_id:
  "pkt_request_id (fst (snd (HandlePacket lib order now req reg))) = pkt_request_id req"
  by (simp add: HandlePacket_def Let_def split: option.split prod.split)

definition find_reply :: "inet_lib \<Rightarrow> u32 list \<Rightarrow> registry \<Rightarrow> u16 \<Rightarrow> u16 option \<Rightarrow> ServiceList" where
  "find_reply lib order reg s i = map descriptor (matches_loop order reg s i [])"

lemma handle_find:
  assumes "pkt_message_type req = kRequest" and "ParseSdFindPayload (pkt_payload req) = Some (s, i)"
  shows "HandlePacket lib order now req reg =
     (True, \<lparr> pkt_message_type = kResponse, pkt_request_id = pkt_request_id req,
              pkt_payload = BuildSdOfferPayloadList lib (find_reply lib order reg s i) 3 \<rparr>, reg)"
  using assms by (simp add: HandlePacket_def find_reply_def Let_def)

lemma handle_register:
  assumes "pkt_message_type req = kRequest" and "ParseSdFindPayload (pkt_payload req) = None"
    and "ParseSdOfferFirst lib (pkt_payload req) = Some (d, ttl)" and "ttl \<noteq> 0"
  shows "HandlePacket lib order now req reg =
     (True, \<lparr> pkt_message_type = kResponse, pkt_request_id = pkt_request_id req,
              pkt_payload = BuildSdOfferPayload lib d ttl False \<rparr>,
      reg(entry_key d \<mapsto> \<lparr> descriptor = d, expires_at_ms = now + ucast ttl * 1000 \<rparr>))"
  using assms by (simp add: HandlePacket_def entry_key_def Let_def)

lemma handle_unregister:
  assumes "pkt_message_type req = kRequest" and "ParseSdFindPayload (pkt_payload req) = None"
    and "ParseSdOfferFirst lib (pkt_payload req) = Some (d, 0)"
  shows "HandlePacket lib order now req reg =
     (True, \<lparr> pkt_message_type = kResponse, pkt_request_id = pkt_request_id req,
              pkt_payload = BuildSdOfferPayload lib d 0 True \<rparr>, reg(entry_key d := None))"
  using assms by (simp add: HandlePacket_def entry_key_def Let_def)

section \<open>The table operation of a packet\<close>

text \<open>What a datagram means for the registry: at most one operation of the soft-state table.\<close>

definition packet_op :: "inet_lib \<Rightarrow> u64 \<Rightarrow> SdPacket \<Rightarrow> (u32, ServiceDescriptor) table_op option" where
  "packet_op lib now req =
     (if pkt_message_type req \<noteq> kRequest \<or> ParseSdFindPayload (pkt_payload req) \<noteq> None then None
      else case ParseSdOfferFirst lib (pkt_payload req) of
        None \<Rightarrow> None
      | Some (d, ttl) \<Rightarrow>
          Some (if ttl = 0 then Del (entry_key d)
                else Put (entry_key d) d (unat (now + ucast ttl * 1000 :: u64))))"

definition datagram_op :: "inet_lib \<Rightarrow> u64 \<Rightarrow> bytes \<Rightarrow> (u32, ServiceDescriptor) table_op option" where
  "datagram_op lib now datagram =
     (case DecodePacket (take kBufferSize datagram) of Inl _ \<Rightarrow> None | Inr req \<Rightarrow> packet_op lib now req)"

abbreviation reg_run :: "(u32, ServiceDescriptor) table_op list \<Rightarrow> registry \<Rightarrow> registry" where
  "reg_run \<equiv> run_ops reg_put reg_del reg_sweep"

definition opt_list :: "'a option \<Rightarrow> 'a list" where
  "opt_list x = (case x of None \<Rightarrow> [] | Some y \<Rightarrow> [y])"

lemma handle_refines:
  "snd (snd (HandlePacket lib order now req reg)) = reg_run (opt_list (packet_op lib now req)) reg"
  by (auto simp: HandlePacket_def packet_op_def opt_list_def apply_op_def reg_put_def reg_del_def
      entry_key_def Let_def split: option.split prod.split)

lemma process_refines:
  "snd (process_fd lib order now datagram reg) = reg_run (opt_list (datagram_op lib now datagram)) reg"
proof (cases "DecodePacket (take kBufferSize datagram)")
  case (Inl e)
  then show ?thesis by (simp add: process_fd_def datagram_op_def opt_list_def Let_def)
next
  case (Inr req)
  have "datagram \<noteq> []" using Inr by (auto simp: DecodePacket_def)
  with Inr show ?thesis
    using handle_refines [of lib order now req reg] handle_ok [of lib order now req reg]
    by (auto simp: process_fd_def datagram_op_def Let_def split: prod.splits)
qed

section \<open>Replies are well-formed\<close>

definition keys_ok :: "registry \<Rightarrow> bool" where
  "keys_ok reg \<longleftrightarrow> (\<forall>k e. reg k = Some e \<longrightarrow> k = entry_key (descriptor e))"

lemma find_reply_filter:
  assumes "enumerates ks reg"
  shows "find_reply lib ks reg s i
           = filter (matches_query s i) (map (\<lambda>k. descriptor (the (reg k))) ks)"
proof -
  have "set ks \<subseteq> dom reg" using assms by (simp add: enumerates_def)
  then show ?thesis by (simp add: find_reply_def matches_loop_filter filter_map comp_def)
qed

lemma find_reply_keys:
  assumes "enumerates ks reg" and "keys_ok reg"
  shows "distinct (map entry_key (find_reply lib ks reg s i))"
proof -
  have "map entry_key (map (\<lambda>k. descriptor (the (reg k))) ks) = ks"
    using assms by (simp, intro map_idI) (auto simp: keys_ok_def enumerates_def)
  then have "distinct (map entry_key (map (\<lambda>k. descriptor (the (reg k))) ks))"
    using assms(1) by (simp add: enumerates_def)
  then show ?thesis
    unfolding find_reply_filter [OF assms(1)] by (rule distinct_map_filter)
qed

text \<open>One service has at most \<open>2 ^ 16\<close> instances, so a reply is far below the frame limit.\<close>

lemma find_reply_length:
  assumes "enumerates ks reg" and "keys_ok reg"
  shows "length (find_reply lib ks reg s i) \<le> 2 ^ 16"
proof -
  let ?L = "find_reply lib ks reg s i"
  have s: "service_id d = s" if "d \<in> set ?L" for d
    using that unfolding find_reply_filter [OF assms(1)] by (auto simp: matches_query_def)
  have "distinct (map instance_id ?L)"
    using find_reply_keys [OF assms, of lib s i] s
    by (auto simp: distinct_map inj_on_def entry_key_def)
  then have "length ?L = card (set (map instance_id ?L))"
    using distinct_card by fastforce
  also have "\<dots> \<le> card (UNIV :: u16 set)" by (rule card_mono) simp_all
  also have "\<dots> = 2 ^ 16" by (simp add: card_word)
  finally show ?thesis .
qed

lemma handle_fits:
  assumes "enumerates ks reg" and "keys_ok reg"
  shows "length (pkt_payload (fst (snd (HandlePacket lib ks now req reg)))) \<le> 12 + 29 * 2 ^ 16"
proof (cases "ParseSdFindPayload (pkt_payload req)")
  case None
  then show ?thesis by (auto simp: HandlePacket_def Let_def split: option.split)
next
  case (Some si)
  obtain s i where si: "si = (s, i)" by fastforce
  show ?thesis
  proof (cases "pkt_message_type req = kRequest")
    case True
    with Some si show ?thesis
      using find_reply_length [OF assms, of lib s i] by (simp only: handle_find) simp
  qed (simp add: handle_not_request)
qed

lemma handle_reply_type:
  "pkt_message_type (fst (snd (HandlePacket lib ks now req reg)))
     = (if pkt_message_type req = kRequest
           \<and> (ParseSdFindPayload (pkt_payload req) \<noteq> None \<or> ParseSdOfferFirst lib (pkt_payload req) \<noteq> None)
        then kResponse else kError)"
  by (auto simp: HandlePacket_def Let_def split: option.split)

text \<open>C7. The daemon answers a datagram if and only if its first 4096 bytes are a frame, and every
  answer is a frame that its client decodes: with the request's id, and a response if and only if
  the frame is a request that holds a Find or an Offer, an error otherwise.\<close>

theorem reply_well_formed:
  assumes "enumerates ks reg" and "keys_ok reg"
  shows "case DecodePacket (take kBufferSize data) of
      Inl e \<Rightarrow> process_fd lib ks now data reg = (None, reg)
    | Inr req \<Rightarrow> (\<exists>r resp. fst (process_fd lib ks now data reg) = Some r \<and> DecodePacket r = Inr resp
        \<and> pkt_request_id resp = pkt_request_id req
        \<and> pkt_message_type resp =
            (if pkt_message_type req = kRequest
                \<and> (ParseSdFindPayload (pkt_payload req) \<noteq> None
                   \<or> ParseSdOfferFirst lib (pkt_payload req) \<noteq> None)
             then kResponse else kError))"
proof (cases "DecodePacket (take kBufferSize data)")
  case (Inl e)
  then show ?thesis by (simp add: process_fd_def Let_def)
next
  case (Inr req)
  let ?r = "fst (snd (HandlePacket lib ks now req reg))"
  have "data \<noteq> []" using Inr by (auto simp: DecodePacket_def)
  with Inr have "fst (process_fd lib ks now data reg) = Some (EncodePacket ?r)"
    using handle_ok [of lib ks now req reg] by (auto simp: process_fd_def Let_def split: prod.splits)
  moreover have "fits_frame ?r"
    using handle_fits [OF assms, of lib now req] by (simp add: fits_frame_def)
  moreover have "wire_id (pkt_request_id ?r) = pkt_request_id req"
    using DecodePacket_Inr(4) [OF Inr] by (simp only: handle_request_id wire_id_idem)
  ultimately show ?thesis
    unfolding Inr sum.case handle_reply_type [of lib ks now req reg, symmetric]
    by (simp add: DecodePacket_EncodePacket on_wire_def)
qed

definition sample_find :: bytes where
  "sample_find = EncodePacket \<lparr> pkt_message_type = kRequest, pkt_request_id = 7,
                                pkt_payload = BuildSdFindPayload 0x1234 None \<rparr>"

theorem reply_well_formed_witness:
  "\<exists>r resp. fst (process_fd dotted [] 0 sample_find Map.empty) = Some r \<and> DecodePacket r = Inr resp
     \<and> pkt_request_id resp = 7 \<and> pkt_message_type resp = kResponse"
proof -
  have "DecodePacket (take kBufferSize sample_find)
      = Inr \<lparr> pkt_message_type = kRequest, pkt_request_id = 7,
             pkt_payload = BuildSdFindPayload 0x1234 None \<rparr>" by code_simp
  moreover have "enumerates [] (Map.empty :: registry)" and "keys_ok Map.empty"
    by (simp_all add: enumerates_def keys_ok_def)
  ultimately show ?thesis
    using reply_well_formed [where ks = "[]" and reg = Map.empty and data = sample_find and lib = dotted
        and now = 0]
    by (simp add: parse_find_built)
qed

text \<open>A datagram changes the registry at one key at most, and only as an Offer request: the
  key of its first entry, which a zero TTL removes and any other sets to the parsed descriptor.
  Finds, errors and malformed datagrams change nothing.\<close>

theorem registry_changed_only_by_offer:
  assumes "snd (process_fd lib ks now data reg) k \<noteq> reg k"
  shows "\<exists>req d ttl. DecodePacket (take kBufferSize data) = Inr req \<and> pkt_message_type req = kRequest
    \<and> ParseSdOfferFirst lib (pkt_payload req) = Some (d, ttl) \<and> k = MakeRegistryKey (service_id d) (instance_id d)
    \<and> snd (process_fd lib ks now data reg) k
        = (if ttl = 0 then None else Some \<lparr> descriptor = d, expires_at_ms = now + ucast ttl * 1000 \<rparr>)"
  using assms
  by (auto simp: process_refines datagram_op_def packet_op_def opt_list_def apply_op_def reg_put_def
      reg_del_def entry_key_def split: sum.splits option.splits if_splits)

definition sample_offer :: bytes where
  "sample_offer = EncodePacket \<lparr> pkt_message_type = kRequest, pkt_request_id = 8,
                                 pkt_payload = BuildSdOfferPayload dotted sample_service 2 False \<rparr>"

theorem registry_changed_only_by_offer_witness:
  "\<exists>req d ttl. DecodePacket (take kBufferSize sample_offer) = Inr req
    \<and> ParseSdOfferFirst dotted (pkt_payload req) = Some (d, ttl)
    \<and> MakeRegistryKey 0x1234 1 = MakeRegistryKey (service_id d) (instance_id d)"
proof -
  have "map_option expires_at_ms (snd (process_fd dotted [] 10 sample_offer Map.empty) (MakeRegistryKey 0x1234 1))
      = Some 2010" by code_simp
  then have "snd (process_fd dotted [] 10 sample_offer Map.empty) (MakeRegistryKey 0x1234 1)
      \<noteq> Map.empty (MakeRegistryKey 0x1234 1)" by auto
  from registry_changed_only_by_offer [OF this] show ?thesis by blast
qed

end
