(* ===== verification/Sd_Serve.thy ===== *)
theory Sd_Serve
  imports Sd_Daemon
begin

text \<open>
  The server loop of \<open>SomeIpSdDaemon::ServeLoop\<close> as a step relation. An iteration sweeps the
  registry, polls, and handles at most one datagram of the UDP socket and then at most one of the
  Unix socket. What the environment chooses is a premise of a rule: the datagrams, the readings of
  the monotonic clock (below \<open>2 ^ 63\<close>: its representation is a signed 64-bit count) and the
  enumeration orders of the registry. The labels of a run are its history.
\<close>

section \<open>Steps\<close>

datatype channel = Udp | Unix

datatype serve_pc = AtCleanup | AtUdp | AtUnix

record ServeState =
  sv_reg :: registry
  sv_clock :: u64
  sv_swept :: u64
  sv_pc :: serve_pc

datatype serve_event =
    Idle
  | Cleaned u64
  | Received channel bytes u64 "bytes option"

definition tick_ok :: "u64 \<Rightarrow> u64 \<Rightarrow> bool" where
  "tick_ok clock now \<longleftrightarrow> clock \<le> now \<and> unat now < 2 ^ 63"

inductive serve_step :: "inet_lib \<Rightarrow> bool \<Rightarrow> ServeState \<Rightarrow> serve_event \<Rightarrow> ServeState \<Rightarrow> bool"
  for lib :: inet_lib and unix_open :: bool where
  cleanup: "sv_pc s = AtCleanup \<Longrightarrow> tick_ok (sv_clock s) now \<Longrightarrow> enumerates ks (sv_reg s) \<Longrightarrow>
     serve_step lib unix_open s (Cleaned now)
       (s\<lparr> sv_reg := CleanupExpired ks now (sv_reg s), sv_clock := now, sv_swept := now, sv_pc := AtUdp \<rparr>)"
| poll_timeout: "sv_pc s = AtUdp \<Longrightarrow> serve_step lib unix_open s Idle (s\<lparr> sv_pc := AtCleanup \<rparr>)"
| udp: "sv_pc s = AtUdp \<Longrightarrow> tick_ok (sv_clock s) now \<Longrightarrow> enumerates ks (sv_reg s) \<Longrightarrow>
     process_fd lib ks now data (sv_reg s) = (reply, reg') \<Longrightarrow>
     serve_step lib unix_open s (Received Udp data now reply)
       (s\<lparr> sv_reg := reg', sv_clock := now, sv_pc := AtUnix \<rparr>)"
| udp_quiet: "sv_pc s = AtUdp \<Longrightarrow> serve_step lib unix_open s Idle (s\<lparr> sv_pc := AtUnix \<rparr>)"
| unix: "unix_open \<Longrightarrow> sv_pc s = AtUnix \<Longrightarrow> tick_ok (sv_clock s) now \<Longrightarrow> enumerates ks (sv_reg s) \<Longrightarrow>
     process_fd lib ks now data (sv_reg s) = (reply, reg') \<Longrightarrow>
     serve_step lib unix_open s (Received Unix data now reply)
       (s\<lparr> sv_reg := reg', sv_clock := now, sv_pc := AtCleanup \<rparr>)"
| unix_quiet: "sv_pc s = AtUnix \<Longrightarrow> serve_step lib unix_open s Idle (s\<lparr> sv_pc := AtCleanup \<rparr>)"

inductive_cases step_CleanedE: "serve_step lib u s (Cleaned now) s'"
inductive_cases step_ReceivedE: "serve_step lib u s (Received c data now reply) s'"
inductive_cases step_IdleE: "serve_step lib u s Idle s'"

inductive serve_run :: "inet_lib \<Rightarrow> bool \<Rightarrow> ServeState \<Rightarrow> serve_event list \<Rightarrow> ServeState \<Rightarrow> bool"
  for lib :: inet_lib and unix_open :: bool where
  run_done: "serve_run lib unix_open s [] s"
| run_more: "serve_step lib unix_open s e t \<Longrightarrow> serve_run lib unix_open t es u \<Longrightarrow>
     serve_run lib unix_open s (e # es) u"

inductive_simps serve_run_Nil [simp]: "serve_run lib u s [] t"
inductive_simps serve_run_Cons: "serve_run lib u s (e # es) t"

definition serve_start :: "u64 \<Rightarrow> ServeState" where
  "serve_start t = \<lparr> sv_reg = Map.empty, sv_clock = t, sv_swept = t, sv_pc = AtCleanup \<rparr>"

section \<open>Histories refine table operations\<close>

definition event_ops :: "inet_lib \<Rightarrow> serve_event \<Rightarrow> (u32, ServiceDescriptor) table_op list" where
  "event_ops lib e = (case e of
       Idle \<Rightarrow> []
     | Cleaned now \<Rightarrow> [Sweep (unat now)]
     | Received c data now reply \<Rightarrow> opt_list (datagram_op lib now data))"

definition history_ops :: "inet_lib \<Rightarrow> serve_event list \<Rightarrow> (u32, ServiceDescriptor) table_op list" where
  "history_ops lib es = concat (map (event_ops lib) es)"

lemma reg_sweep_live: "reg_sweep (unat now) m = live now m"
  by (simp add: reg_sweep_def)

lemma step_refines:
  "serve_step lib u s e s' \<Longrightarrow> sv_reg s' = reg_run (event_ops lib e) (sv_reg s)"
proof (induction rule: serve_step.induct)
  case (cleanup s now ks)
  then show ?case
    by (simp add: event_ops_def apply_op_def reg_sweep_live CleanupExpired_live)
next
  case (udp s now ks data reply reg')
  then show ?case using process_refines [of lib ks now data "sv_reg s"] by (simp add: event_ops_def)
next
  case (unix s now ks data reply reg')
  then show ?case using process_refines [of lib ks now data "sv_reg s"] by (simp add: event_ops_def)
qed (simp_all add: event_ops_def)

lemma run_refines:
  "serve_run lib u s es s' \<Longrightarrow> sv_reg s' = reg_run (history_ops lib es) (sv_reg s)"
  by (induction rule: serve_run.induct) (simp_all add: history_ops_def step_refines)

lemma run_append_split:
  "serve_run lib u s (xs @ ys) t \<longleftrightarrow> (\<exists>m. serve_run lib u s xs m \<and> serve_run lib u m ys t)"
  by (induction xs arbitrary: s) (auto simp: serve_run_Cons)

section \<open>The TTL on the wire\<close>

lemma be_value_zero_head: "be_value (0 # bs) = be_value bs"
  by (simp add: be_value_def be_push_def)

lemma unat_take_bit_bound:
  assumes "take_bit n v = (v :: 'a::len word)"
  shows "unat v < 2 ^ n"
proof -
  have "unat (take_bit n v) = take_bit n (unat v)" by (rule unsigned_take_bit_eq)
  then have "unat v = take_bit n (unat v)" by (simp only: assms)
  then show ?thesis using take_bit_nat_less_exp [of n "unat v"] by simp
qed

lemma ttl_bound:
  "unat (push_bit 16 (ucast (a :: u8)) OR push_bit 8 (ucast (b :: u8)) OR ucast (c :: u8) :: u32) < 2 ^ 24"
  by (intro unat_take_bit_bound bit_word_eqI) (auto simp: bit_simps not_le)

lemma parse_offer_ttl: "ParseSdOfferFirst lib pl = Some (d, ttl) \<Longrightarrow> unat ttl < 2 ^ 24"
  using ttl_bound by (auto simp: ParseSdOfferFirst_def Let_def split: option.splits if_splits)

lemma expiry_no_wrap:
  assumes "unat now < 2 ^ 63" and "unat ttl < 2 ^ 24"
  shows "unat (now + ucast (ttl :: u32) * 1000 :: u64) = unat now + unat ttl * 1000"
proof -
  have u: "unat (ucast ttl :: u64) = unat ttl"
    by (simp add: unsigned_ucast_eq take_bit_nat_eq_self less_trans [OF assms(2)])
  have "unat ttl * 1000 < 2 ^ 64" using assms(2) by simp
  then have m: "unat (ucast ttl * 1000 :: u64) = unat ttl * 1000"
    by (simp add: unat_word_ariths u)
  show ?thesis using assms by (simp add: unat_word_ariths(1) m)
qed

section \<open>What the loop keeps\<close>

definition max_lifetime_ms :: nat where
  "max_lifetime_ms = (2 ^ 24 - 1) * 1000"

definition entry_inv :: "ServeState \<Rightarrow> u32 \<Rightarrow> RegistryEntry \<Rightarrow> bool" where
  "entry_inv s k e \<longleftrightarrow> k = entry_key (descriptor e) \<and> transport (descriptor e) = ''udp''
     \<and> unat (expires_at_ms e) \<le> unat (sv_clock s) + max_lifetime_ms
     \<and> (sv_pc s \<noteq> AtCleanup \<longrightarrow> sv_swept s < expires_at_ms e)"

definition serve_inv :: "ServeState \<Rightarrow> bool" where
  "serve_inv s \<longleftrightarrow> unat (sv_clock s) < 2 ^ 63 \<and> sv_swept s \<le> sv_clock s
     \<and> finite (dom (sv_reg s)) \<and> (\<forall>k e. sv_reg s k = Some e \<longrightarrow> entry_inv s k e)"

lemma parse_offer_transport: "ParseSdOfferFirst lib pl = Some (d, ttl) \<Longrightarrow> transport d = ''udp''"
  by (auto simp: ParseSdOfferFirst_def Let_def entry_descriptor_def with_endpoint_def
      ParseEndpointOption_def default_descriptor_def split: option.splits if_splits)

lemma datagram_put:
  assumes "datagram_op lib now data = Some (Put k d t)" and "unat now < 2 ^ 63"
  shows "k = entry_key d" and "transport d = ''udp''" and "unat now < t"
    and "t \<le> unat now + max_lifetime_ms" and "ms_ok t"
proof -
  obtain req where "packet_op lib now req = Some (Put k d t)"
    using assms(1) by (auto simp: datagram_op_def split: sum.splits)
  then obtain ttl where p: "ParseSdOfferFirst lib (pkt_payload req) = Some (d, ttl)" and "ttl \<noteq> 0"
    and k: "k = entry_key d" and t: "t = unat (now + ucast ttl * 1000)"
    by (cases "ParseSdOfferFirst lib (pkt_payload req)")
      (auto simp: packet_op_def split: if_splits)
  have ttl: "unat ttl < 2 ^ 24" "0 < unat ttl"
    using parse_offer_ttl [OF p] \<open>ttl \<noteq> 0\<close> by (simp_all add: unat_gt_0)
  have t': "t = unat now + unat ttl * 1000" using expiry_no_wrap [OF assms(2) ttl(1)] t by simp
  show "k = entry_key d" by (rule k)
  show "transport d = ''udp''" by (rule parse_offer_transport [OF p])
  show "unat now < t" and "t \<le> unat now + max_lifetime_ms" and "ms_ok t"
    using t' ttl assms(2) by (auto simp: max_lifetime_ms_def ms_ok_def)
qed

lemma datagram_not_sweep: "datagram_op lib now data \<noteq> Some (Sweep t)"
  by (auto simp: datagram_op_def packet_op_def split: sum.splits option.splits)

lemma entry_inv_mono:
  "entry_inv s k e \<Longrightarrow> sv_clock s \<le> now \<Longrightarrow> (pc \<noteq> AtCleanup \<Longrightarrow> sv_pc s \<noteq> AtCleanup) \<Longrightarrow>
     entry_inv (s\<lparr> sv_reg := r, sv_clock := now, sv_pc := pc \<rparr>) k e"
  by (auto simp: entry_inv_def word_le_nat_alt)

lemma received_inv:
  assumes inv: "serve_inv s" and tick: "tick_ok (sv_clock s) now"
    and p: "process_fd lib ks now data (sv_reg s) = (reply, reg')"
    and pc: "pc \<noteq> AtCleanup \<Longrightarrow> sv_pc s \<noteq> AtCleanup"
  shows "serve_inv (s\<lparr> sv_reg := reg', sv_clock := now, sv_pc := pc \<rparr>)"
proof -
  let ?s = "s\<lparr> sv_reg := reg', sv_clock := now, sv_pc := pc \<rparr>"
  let ?op = "datagram_op lib now data"
  have now: "unat now < 2 ^ 63" "sv_clock s \<le> now" using tick by (simp_all add: tick_ok_def)
  have swept: "sv_swept s \<le> now" using inv now(2) by (auto simp: serve_inv_def)
  have reg': "reg' = reg_run (opt_list ?op) (sv_reg s)"
    using process_refines [of lib ks now data "sv_reg s"] p by simp
  have old: "entry_inv ?s k e" if "sv_reg s k = Some e" for k e
    using that inv entry_inv_mono [OF _ now(2) pc] by (simp add: serve_inv_def)
  have fin: "finite (dom reg')"
    using inv by (auto simp: reg' opt_list_def apply_op_def reg_put_def reg_del_def serve_inv_def
        datagram_not_sweep split: option.splits table_op.splits)
  have "entry_inv ?s k e" if e: "reg' k = Some e" for k e
  proof (cases ?op)
    case None
    with e old show ?thesis by (simp add: reg' opt_list_def)
  next
    case (Some op)
    show ?thesis
    proof (cases op)
      case (Put k' d t)
      note put = datagram_put [OF Some [unfolded Put] now(1)]
      have "unat (of_nat t :: u64) = t" using put(5) by (simp add: ms_ok_def unat_of_nat)
      then have "entry_inv ?s (entry_key d) \<lparr> descriptor = d, expires_at_ms = of_nat t \<rparr>"
        using put swept by (auto simp: entry_inv_def word_le_nat_alt word_less_nat_alt)
      with e old Some Put put(1) show ?thesis
        by (auto simp: reg' opt_list_def apply_op_def reg_put_def split: if_splits)
    next
      case (Del k')
      with e old Some show ?thesis
        by (auto simp: reg' opt_list_def apply_op_def reg_del_def split: if_splits)
    qed (use Some datagram_not_sweep [of lib now data] in auto)
  qed
  with fin now swept show ?thesis by (simp add: serve_inv_def)
qed

lemma pc_inv: "serve_inv s \<Longrightarrow> sv_pc s \<noteq> AtCleanup \<Longrightarrow> serve_inv (s\<lparr> sv_pc := pc \<rparr>)"
  by (auto simp: serve_inv_def entry_inv_def)

lemma step_inv: "serve_step lib u s e s' \<Longrightarrow> serve_inv s \<Longrightarrow> serve_inv s'"
proof (induction rule: serve_step.induct)
  case (cleanup s now ks)
  have "finite (dom (live now (sv_reg s)))"
    using cleanup.prems dom_live by (auto simp: serve_inv_def intro: finite_subset)
  with cleanup show ?case
    by (fastforce simp: serve_inv_def entry_inv_def CleanupExpired_live live_Some tick_ok_def word_le_nat_alt)
qed (auto intro: received_inv pc_inv)

lemma run_inv: "serve_run lib u s es s' \<Longrightarrow> serve_inv s \<Longrightarrow> serve_inv s'"
  by (induction rule: serve_run.induct) (auto intro: step_inv)

lemma start_inv: "unat t < 2 ^ 63 \<Longrightarrow> serve_inv (serve_start t)"
  by (simp add: serve_inv_def serve_start_def)

section \<open>What a history leaves\<close>

lemma datagram_op_ok:
  assumes "unat now < 2 ^ 63"
  shows "list_all (op_ok ms_ok) (opt_list (datagram_op lib now data))"
proof (cases "datagram_op lib now data")
  case (Some op)
  then show ?thesis using datagram_put(5) [OF _ assms, of lib data] datagram_not_sweep [of lib now data]
    by (cases op) (auto simp: opt_list_def)
qed (simp add: opt_list_def)

lemma ms_ok_clock: "unat (now :: u64) < 2 ^ 63 \<Longrightarrow> ms_ok (unat now)"
  by (simp add: ms_ok_def)

lemma step_op_ok: "serve_step lib u s e s' \<Longrightarrow> list_all (op_ok ms_ok) (event_ops lib e)"
  by (induction rule: serve_step.induct)
    (simp_all add: event_ops_def tick_ok_def datagram_op_ok ms_ok_clock)

lemma run_op_ok: "serve_run lib u s es s' \<Longrightarrow> list_all (op_ok ms_ok) (history_ops lib es)"
  by (induction rule: serve_run.induct) (simp_all add: history_ops_def step_op_ok)

lemma entry_parts: "expires_at_ms e = x \<Longrightarrow> e = \<lparr> descriptor = descriptor e, expires_at_ms = x \<rparr>"
  by simp

lemma reg_look_entry:
  "reg_look m k = Some (d, unat x) \<longleftrightarrow> m k = Some \<lparr> descriptor = d, expires_at_ms = x \<rparr>"
  by (cases "m k") (auto simp: reg_look_def word_unat_eq_iff intro: RegistryEntry.equality)

lemma run_history_entry:
  assumes "serve_run lib u s es s'" and "sv_reg s k = None"
  shows "sv_reg s' k = Some \<lparr> descriptor = d, expires_at_ms = x \<rparr> \<longleftrightarrow>
     (\<exists>xs ys. history_ops lib es = xs @ Put k d (unat x) # ys \<and> list_all (spares k (unat x)) ys)"
proof -
  have "reg_look (sv_reg s) k = None" using assms(2) by (simp add: reg_look_def)
  from registry.run_history [OF this run_op_ok [OF assms(1)]]
  show ?thesis unfolding run_refines [OF assms(1), symmetric] by (simp only: reg_look_entry [symmetric])
qed

section \<open>Properties\<close>

text \<open>C14. In every state the server loop reaches, each entry stands under its own key, has transport
  \<open>udp\<close>, expires at most 16777215 seconds after the clock, and, while datagrams are handled,
  has not expired at the last sweep; the registry is finite and the clock in its range.\<close>

theorem serve_loop_invariant:
  assumes "unat t0 < 2 ^ 63" and "serve_run lib u (serve_start t0) es s"
  shows "serve_inv s"
  using run_inv [OF assms(2) start_inv [OF assms(1)]] .

text \<open>C6. The daemon refines a soft-state table: after any history of sweeps and datagrams a key
  holds a descriptor if and only if some datagram put it there and everything since spared it (no
  other put or removal of the key, and no sweep at or after its expiry).\<close>

theorem registry_from_history:
  assumes "serve_run lib u (serve_start t0) es s"
  shows "sv_reg s k = Some \<lparr> descriptor = d, expires_at_ms = x \<rparr> \<longleftrightarrow>
     (\<exists>xs ys. history_ops lib es = xs @ Put k d (unat x) # ys \<and> list_all (spares k (unat x)) ys)"
  by (rule run_history_entry [OF assms]) (simp add: serve_start_def)

definition sample_history :: "serve_event list" where
  "sample_history = [Cleaned 10, Received Udp sample_offer 20
     (fst (process_fd dotted [] 20 sample_offer Map.empty)), Idle]"

definition sample_end :: ServeState where
  "sample_end = \<lparr> sv_reg = snd (process_fd dotted [] 20 sample_offer Map.empty), sv_clock = 20,
                  sv_swept = 10, sv_pc = AtCleanup \<rparr>"

lemma sample_run: "serve_run dotted False (serve_start 5) sample_history sample_end"
proof -
  have e: "enumerates [] (Map.empty :: registry)" by (simp add: enumerates_def)
  let ?s1 = "\<lparr> sv_reg = Map.empty, sv_clock = 10, sv_swept = 10, sv_pc = AtUdp \<rparr>"
  let ?s2 = "\<lparr> sv_reg = snd (process_fd dotted [] 20 sample_offer Map.empty), sv_clock = 20,
               sv_swept = 10, sv_pc = AtUnix \<rparr>"
  have "serve_step dotted False (serve_start 5) (Cleaned 10) ?s1"
    using serve_step.cleanup [of "serve_start 5" 10 "[]" dotted False] e
    by (simp add: serve_start_def tick_ok_def CleanupExpired_def)
  moreover have "serve_step dotted False ?s1 (Received Udp sample_offer 20
      (fst (process_fd dotted [] 20 sample_offer Map.empty))) ?s2"
    using serve_step.udp [of ?s1 20 "[]" dotted sample_offer _ _ False] e by (simp add: tick_ok_def)
  moreover have "serve_step dotted False ?s2 Idle sample_end"
    using serve_step.unix_quiet [of ?s2 dotted False] by (simp add: sample_end_def)
  ultimately show ?thesis by (auto simp: sample_history_def serve_run_Cons)
qed

theorem serve_loop_invariant_witness: "serve_inv sample_end"
  by (rule serve_loop_invariant [OF _ sample_run]) simp

theorem registry_from_history_witness:
  "\<exists>d xs ys. history_ops dotted sample_history
        = xs @ Put (MakeRegistryKey 0x1234 1) d (unat (2020 :: u64)) # ys
      \<and> list_all (spares (MakeRegistryKey 0x1234 1) (unat (2020 :: u64))) ys"
proof -
  have "map_option expires_at_ms (sv_reg sample_end (MakeRegistryKey 0x1234 1)) = Some 2020" by code_simp
  then obtain d where "sv_reg sample_end (MakeRegistryKey 0x1234 1)
      = Some \<lparr> descriptor = d, expires_at_ms = 2020 \<rparr>"
    by (cases "sv_reg sample_end (MakeRegistryKey 0x1234 1)") (auto dest: entry_parts)
  then show ?thesis unfolding registry_from_history [OF sample_run] by blast
qed

end
