(* ===== verification/Sd_Lifecycle.thy ===== *)
theory Sd_Lifecycle
  imports Sd_Serve
begin

text \<open>
  The life of a \<open>SomeIpSdDaemon\<close> object: constructor, configuration, \<open>Start\<close>, \<open>Stop\<close>, destructor, and
  the server thread as far as the flag \<open>running_\<close> and its sockets go. One client thread calls the
  operations; \<open>Stop\<close> is split between clearing the flag, sending the wake-up datagrams and blocking in
  \<open>join\<close>, and the server loop at its test, its \<open>poll\<close> and the handling of what arrived, so that the two
  threads interleave there. Assigning to or destroying a joinable \<open>std::thread\<close> calls \<open>std::terminate\<close>, which
  is the client state \<open>Terminated\<close>.
\<close>

section \<open>The object\<close>

record SomeIpSdDaemon =
  dm_host :: string
  dm_port :: u16
  dm_multicast_group :: string
  dm_multicast_port :: u16
  dm_interface_address :: string
  dm_unix_enabled :: bool
  dm_unix_path :: string
  dm_running :: bool

definition new_SomeIpSdDaemon :: "string \<Rightarrow> u16 \<Rightarrow> SomeIpSdDaemon" where
  "new_SomeIpSdDaemon host port = \<lparr> dm_host = host, dm_port = port, dm_multicast_group = ''239.255.0.1'',
     dm_multicast_port = port, dm_interface_address = ''0.0.0.0'', dm_unix_enabled = False,
     dm_unix_path = '''', dm_running = False \<rparr>"

definition dm_SetDiscoveryMulticast :: "string \<Rightarrow> u16 \<Rightarrow> string \<Rightarrow> SomeIpSdDaemon \<Rightarrow> SomeIpSdDaemon" where
  "dm_SetDiscoveryMulticast multicast_group multicast_port interface_address d =
     d\<lparr> dm_multicast_group := multicast_group, dm_multicast_port := multicast_port,
        dm_interface_address := interface_address \<rparr>"

definition dm_EnableUnixDomainControl :: "string \<Rightarrow> SomeIpSdDaemon \<Rightarrow> SomeIpSdDaemon" where
  "dm_EnableUnixDomainControl socket_path d = d\<lparr> dm_unix_enabled := True, dm_unix_path := socket_path \<rparr>"

section \<open>The sockets of the server loop\<close>

text \<open>Which system calls succeed. A function's result is its verdict and whether its descriptor is
  open.\<close>

record socket_calls =
  udp_socket_ok :: bool
  udp_bind_ok :: bool
  unix_socket_ok :: bool
  unix_bind_ok :: bool

definition SetupUdpSocket :: "socket_calls \<Rightarrow> bool \<times> bool" where
  "SetupUdpSocket sys =
     (if \<not> udp_socket_ok sys then (False, False)
      else if \<not> udp_bind_ok sys then (False, False)
      else (True, True))"

definition SetupUnixSocket :: "socket_calls \<Rightarrow> SomeIpSdDaemon \<Rightarrow> bool \<times> bool" where
  "SetupUnixSocket sys d =
     (if \<not> dm_unix_enabled d then (True, False)
      else if dm_unix_path d = '''' then (False, False)
      else if \<not> unix_socket_ok sys then (False, False)
      else if \<not> unix_bind_ok sys then (False, False)
      else (True, True))"

text \<open>The prologue of \<open>ServeLoop\<close>: whether the loop is entered, and the descriptors open afterwards.
  The Unix socket is not set up when the UDP socket could not be; on a failure both are closed.\<close>

definition serve_prologue :: "socket_calls \<Rightarrow> SomeIpSdDaemon \<Rightarrow> bool \<times> bool \<times> bool" where
  "serve_prologue sys d =
     (case SetupUdpSocket sys of (udp_ok, udp_open) \<Rightarrow>
        if \<not> udp_ok then (False, False, False)
        else case SetupUnixSocket sys d of (unix_ok, unix_open) \<Rightarrow>
          if \<not> unix_ok then (False, False, False) else (True, udp_open, unix_open))"

section \<open>Steps\<close>

datatype server_thread =
    NoThread
  | Starting
  | AtHead
  | Polling
  | Handling bool bool
  | Ended

datatype client_state =
    Idle_Client | Waking | Waking_Destructor | Joining | Joining_Destructor | Destroyed | Terminated

text \<open>The queues are the datagrams waiting at the two sockets of the server thread.\<close>

record lifecycle =
  lc_daemon :: SomeIpSdDaemon
  lc_thread :: server_thread
  lc_client :: client_state
  lc_udp :: "bytes list"
  lc_unix :: "bytes list"

abbreviation joinable :: "lifecycle \<Rightarrow> bool" where
  "joinable s \<equiv> lc_thread s \<noteq> NoThread"

text \<open>\<open>Start\<close>: \<open>exchange(true)\<close>, then the assignment to \<open>server_thread_\<close>.\<close>

definition Start :: "lifecycle \<Rightarrow> lifecycle" where
  "Start s =
     (if dm_running (lc_daemon s) then s
      else let s = s\<lparr> lc_daemon := (lc_daemon s)\<lparr> dm_running := True \<rparr> \<rparr>
           in if joinable s then s\<lparr> lc_client := Terminated \<rparr> else s\<lparr> lc_thread := Starting \<rparr>)"

text \<open>\<open>Stop\<close> up to its wake-up: \<open>exchange(false)\<close>.\<close>

definition stop_begin :: "client_state \<Rightarrow> client_state \<Rightarrow> lifecycle \<Rightarrow> lifecycle" where
  "stop_begin waking done s =
     (if \<not> dm_running (lc_daemon s) then s\<lparr> lc_client := done \<rparr>
      else s\<lparr> lc_daemon := (lc_daemon s)\<lparr> dm_running := False \<rparr>, lc_client := waking \<rparr>)"

text \<open>The two wake-up datagrams. \<open>wk_udp\<close> and \<open>wk_unix\<close>: the socket could be made and the datagram was sent.
  It waits at the server's socket if that is open then, and is lost otherwise. A thread that is not joinable is
  not joined.\<close>

record wake_calls =
  wk_udp :: bool
  wk_unix :: bool

definition stop_marker :: bytes where
  "stop_marker = map char_byte ''STOP''"

definition sockets_open :: "lifecycle \<Rightarrow> bool" where
  "sockets_open s = (case lc_thread s of AtHead \<Rightarrow> True | Polling \<Rightarrow> True | Handling u x \<Rightarrow> True | _ \<Rightarrow> False)"

definition stop_wake :: "client_state \<Rightarrow> client_state \<Rightarrow> wake_calls \<Rightarrow> lifecycle \<Rightarrow> lifecycle" where
  "stop_wake waiting done wk s =
     (let s = (if wk_udp wk \<and> sockets_open s then s\<lparr> lc_udp := lc_udp s @ [stop_marker] \<rparr> else s);
          s = (if dm_unix_enabled (lc_daemon s) \<and> dm_unix_path (lc_daemon s) \<noteq> '''' \<and> wk_unix wk \<and> sockets_open s
               then s\<lparr> lc_unix := lc_unix s @ [stop_marker] \<rparr> else s)
      in s\<lparr> lc_client := (if joinable s then waiting else done) \<rparr>)"

text \<open>The destructor of the members: a joinable thread terminates the process.\<close>

definition destroy_members :: "lifecycle \<Rightarrow> lifecycle" where
  "destroy_members s = s\<lparr> lc_client := (if joinable s then Terminated else Destroyed) \<rparr>"

datatype life_event =
    CallStart | CallStop | CallDestructor | WakeUp wake_calls | JoinReturns
  | SetupDone socket_calls
  | Swept | PollTimeout | PollReady | Handled | LoopLeft
  | Arrives channel bytes

definition alive :: "lifecycle \<Rightarrow> bool" where
  "alive s \<longleftrightarrow> lc_client s \<notin> {Destroyed, Terminated}"

text \<open>The loop tests \<open>running_\<close> and sweeps, then polls: \<open>poll\<close> returns at once when a datagram waits, and after
  200 milliseconds when none does. Of each socket that was ready one datagram is taken. Datagrams of others
  arrive at any time.\<close>

inductive life_step :: "lifecycle \<Rightarrow> life_event \<Rightarrow> lifecycle \<Rightarrow> bool" where
  start: "lc_client s = Idle_Client \<Longrightarrow> life_step s CallStart (Start s)"
| stop: "lc_client s = Idle_Client \<Longrightarrow> life_step s CallStop (stop_begin Waking Idle_Client s)"
| woken: "lc_client s = Waking \<Longrightarrow> life_step s (WakeUp wk) (stop_wake Joining Idle_Client wk s)"
| destructor: "lc_client s = Idle_Client \<Longrightarrow> t = stop_begin Waking_Destructor Idle_Client s \<Longrightarrow>
     life_step s CallDestructor (if lc_client t = Waking_Destructor then t else destroy_members t)"
| woken_destructor: "lc_client s = Waking_Destructor \<Longrightarrow> t = stop_wake Joining_Destructor Idle_Client wk s \<Longrightarrow>
     life_step s (WakeUp wk) (if lc_client t = Joining_Destructor then t else destroy_members t)"
| joined: "lc_client s = Joining \<Longrightarrow> lc_thread s = Ended \<Longrightarrow>
     life_step s JoinReturns (s\<lparr> lc_thread := NoThread, lc_client := Idle_Client \<rparr>)"
| joined_destructor: "lc_client s = Joining_Destructor \<Longrightarrow> lc_thread s = Ended \<Longrightarrow>
     life_step s JoinReturns (destroy_members (s\<lparr> lc_thread := NoThread \<rparr>))"
| setup_ok: "lc_thread s = Starting \<Longrightarrow> alive s \<Longrightarrow> fst (serve_prologue sys (lc_daemon s)) \<Longrightarrow>
     life_step s (SetupDone sys) (s\<lparr> lc_thread := AtHead, lc_udp := [], lc_unix := [] \<rparr>)"
| setup_fails: "lc_thread s = Starting \<Longrightarrow> alive s \<Longrightarrow> \<not> fst (serve_prologue sys (lc_daemon s)) \<Longrightarrow>
     life_step s (SetupDone sys) (s\<lparr> lc_daemon := (lc_daemon s)\<lparr> dm_running := False \<rparr>, lc_thread := Ended \<rparr>)"
| sweep: "lc_thread s = AtHead \<Longrightarrow> alive s \<Longrightarrow> dm_running (lc_daemon s) \<Longrightarrow>
     life_step s Swept (s\<lparr> lc_thread := Polling \<rparr>)"
| loop_left: "lc_thread s = AtHead \<Longrightarrow> alive s \<Longrightarrow> \<not> dm_running (lc_daemon s) \<Longrightarrow>
     life_step s LoopLeft (s\<lparr> lc_thread := Ended, lc_udp := [], lc_unix := [] \<rparr>)"
| poll_timeout: "lc_thread s = Polling \<Longrightarrow> alive s \<Longrightarrow> lc_udp s = [] \<Longrightarrow> lc_unix s = [] \<Longrightarrow>
     life_step s PollTimeout (s\<lparr> lc_thread := AtHead \<rparr>)"
| poll_ready: "lc_thread s = Polling \<Longrightarrow> alive s \<Longrightarrow> lc_udp s \<noteq> [] \<or> lc_unix s \<noteq> [] \<Longrightarrow>
     life_step s PollReady (s\<lparr> lc_thread := Handling (lc_udp s \<noteq> []) (lc_unix s \<noteq> []) \<rparr>)"
| handled: "lc_thread s = Handling u x \<Longrightarrow> alive s \<Longrightarrow>
     life_step s Handled (s\<lparr> lc_thread := AtHead, lc_udp := (if u then tl (lc_udp s) else lc_udp s),
       lc_unix := (if x then tl (lc_unix s) else lc_unix s) \<rparr>)"
| arrives_udp: "sockets_open s \<Longrightarrow> alive s \<Longrightarrow> life_step s (Arrives Udp d) (s\<lparr> lc_udp := lc_udp s @ [d] \<rparr>)"
| arrives_unix: "sockets_open s \<Longrightarrow> alive s \<Longrightarrow> dm_unix_enabled (lc_daemon s) \<Longrightarrow>
     life_step s (Arrives Unix d) (s\<lparr> lc_unix := lc_unix s @ [d] \<rparr>)"

inductive_cases life_stepE: "life_step s e s'"

inductive life_run :: "lifecycle \<Rightarrow> life_event list \<Rightarrow> lifecycle \<Rightarrow> bool" where
  life_done: "life_run s [] s"
| life_more: "life_step s e t \<Longrightarrow> life_run t es u \<Longrightarrow> life_run s (e # es) u"

inductive_simps life_run_Nil [simp]: "life_run s [] t"
inductive_simps life_run_Cons: "life_run s (e # es) t"

definition fresh :: "SomeIpSdDaemon \<Rightarrow> lifecycle" where
  "fresh d = \<lparr> lc_daemon = d\<lparr> dm_running := False \<rparr>, lc_thread = NoThread, lc_client = Idle_Client,
     lc_udp = [], lc_unix = [] \<rparr>"

section \<open>What a life keeps when every setup succeeds\<close>

definition setup_succeeds :: "SomeIpSdDaemon \<Rightarrow> life_event \<Rightarrow> bool" where
  "setup_succeeds d e = (case e of SetupDone sys \<Rightarrow> fst (serve_prologue sys d) | _ \<Rightarrow> True)"

definition life_inv :: "SomeIpSdDaemon \<Rightarrow> lifecycle \<Rightarrow> bool" where
  "life_inv d s \<longleftrightarrow> (lc_daemon s)\<lparr> dm_running := False \<rparr> = d\<lparr> dm_running := False \<rparr>
     \<and> (case lc_client s of
          Idle_Client \<Rightarrow> (if dm_running (lc_daemon s) then joinable s \<and> lc_thread s \<noteq> Ended else lc_thread s = NoThread)
        | Waking \<Rightarrow> \<not> dm_running (lc_daemon s) \<and> joinable s
        | Waking_Destructor \<Rightarrow> \<not> dm_running (lc_daemon s) \<and> joinable s
        | Joining \<Rightarrow> \<not> dm_running (lc_daemon s) \<and> joinable s
        | Joining_Destructor \<Rightarrow> \<not> dm_running (lc_daemon s) \<and> joinable s
        | Destroyed \<Rightarrow> \<not> dm_running (lc_daemon s) \<and> lc_thread s = NoThread
        | Terminated \<Rightarrow> False)"

lemma prologue_running [simp]: "serve_prologue sys (d\<lparr> dm_running := b \<rparr>) = serve_prologue sys d"
proof -
  have "SetupUnixSocket sys (d\<lparr> dm_running := b \<rparr>) = SetupUnixSocket sys d"
    by (simp add: SetupUnixSocket_def)
  then show ?thesis by (simp only: serve_prologue_def)
qed

lemma prologue_cong:
  "x\<lparr> dm_running := False \<rparr> = d\<lparr> dm_running := False \<rparr> \<Longrightarrow> serve_prologue sys x = serve_prologue sys d"
  by (metis prologue_running)

lemma life_step_inv:
  "life_step s e s' \<Longrightarrow> setup_succeeds d e \<Longrightarrow> life_inv d s \<Longrightarrow> life_inv d s'"
proof (induction rule: life_step.induct)
  case (setup_fails s sys)
  then show ?case using prologue_cong [of "lc_daemon s" d sys]
    by (simp add: setup_succeeds_def life_inv_def)
qed (auto simp: life_inv_def Start_def stop_begin_def stop_wake_def destroy_members_def alive_def Let_def
    split: client_state.splits if_splits)

lemma life_run_inv:
  "life_run s es s' \<Longrightarrow> list_all (setup_succeeds d) es \<Longrightarrow> life_inv d s \<Longrightarrow> life_inv d s'"
  by (induction rule: life_run.induct) (auto intro: life_step_inv)

lemma fresh_inv: "life_inv d (fresh d)"
  by (simp add: life_inv_def fresh_def)

section \<open>Properties\<close>

text \<open>C18. When the sockets can be set up, no use of a daemon terminates the process: however \<open>Start\<close>,
  \<open>Stop\<close> and the destructor are called and interleaved with the server thread, every \<open>Stop\<close> that has
  returned has joined the thread, and the destructor finds no thread to join.\<close>

theorem lifecycle_safe:
  assumes "life_run (fresh d) es s" and "list_all (setup_succeeds d) es"
  shows "lc_client s \<noteq> Terminated
    \<and> (lc_client s = Idle_Client \<and> \<not> dm_running (lc_daemon s) \<longrightarrow> lc_thread s = NoThread)
    \<and> (lc_client s = Destroyed \<longrightarrow> lc_thread s = NoThread)"
  using life_run_inv [OF assms fresh_inv] by (auto simp: life_inv_def)

definition good_calls :: socket_calls where
  "good_calls = \<lparr> udp_socket_ok = True, udp_bind_ok = True, unix_socket_ok = True, unix_bind_ok = True \<rparr>"

definition sample_daemon :: SomeIpSdDaemon where
  "sample_daemon = dm_EnableUnixDomainControl ''/tmp/sd.sock'' (new_SomeIpSdDaemon ''127.0.0.1'' 30490)"

lemma good_prologue: "serve_prologue good_calls sample_daemon = (True, True, True)"
  by (simp add: serve_prologue_def SetupUdpSocket_def SetupUnixSocket_def good_calls_def sample_daemon_def
      dm_EnableUnixDomainControl_def)

definition sent_wake :: wake_calls where
  "sent_wake = \<lparr> wk_udp = True, wk_unix = True \<rparr>"

text \<open>A daemon that is destroyed while its thread polls.\<close>

lemma sample_life:
  "life_run (fresh sample_daemon)
     [CallStart, SetupDone good_calls, Swept, CallDestructor, WakeUp sent_wake, PollReady, Handled, LoopLeft, JoinReturns]
     \<lparr> lc_daemon = sample_daemon\<lparr> dm_running := False \<rparr>, lc_thread = NoThread, lc_client = Destroyed,
       lc_udp = [], lc_unix = [] \<rparr>"
proof -
  let ?s1 = "\<lparr> lc_daemon = sample_daemon\<lparr> dm_running := True \<rparr>, lc_thread = Starting, lc_client = Idle_Client,
    lc_udp = [], lc_unix = [] \<rparr>"
  let ?s3 = "?s1\<lparr> lc_thread := Polling \<rparr>"
  let ?s4 = "?s3\<lparr> lc_daemon := sample_daemon\<lparr> dm_running := False \<rparr>, lc_client := Waking_Destructor \<rparr>"
  let ?s5 = "?s4\<lparr> lc_client := Joining_Destructor, lc_udp := [stop_marker], lc_unix := [stop_marker] \<rparr>"
  let ?s6 = "?s5\<lparr> lc_thread := Handling True True \<rparr>"
  let ?s7 = "?s5\<lparr> lc_thread := AtHead, lc_udp := [], lc_unix := [] \<rparr>"
  have "life_step (fresh sample_daemon) CallStart ?s1"
    using life_step.start [of "fresh sample_daemon"] by (simp add: fresh_def Start_def Let_def)
  moreover have "life_step ?s1 (SetupDone good_calls) (?s1\<lparr> lc_thread := AtHead \<rparr>)"
    using life_step.setup_ok [of ?s1 good_calls] by (simp add: good_prologue alive_def)
  moreover have "life_step (?s1\<lparr> lc_thread := AtHead \<rparr>) Swept ?s3"
    using life_step.sweep [of "?s1\<lparr> lc_thread := AtHead \<rparr>"] by (simp add: alive_def)
  moreover have "life_step ?s3 CallDestructor ?s4"
    using life_step.destructor [of ?s3, OF _ refl] by (simp add: stop_begin_def)
  moreover have "life_step ?s4 (WakeUp sent_wake) ?s5"
    using life_step.woken_destructor [of ?s4, OF _ refl, of sent_wake]
    by (simp add: stop_wake_def sent_wake_def sockets_open_def sample_daemon_def dm_EnableUnixDomainControl_def Let_def)
  moreover have "life_step ?s5 PollReady ?s6"
    using life_step.poll_ready [of ?s5] by (simp add: alive_def)
  moreover have "life_step ?s6 Handled ?s7"
    using life_step.handled [of ?s6 True True] by (simp add: alive_def)
  moreover have "life_step ?s7 LoopLeft (?s7\<lparr> lc_thread := Ended \<rparr>)"
    using life_step.loop_left [of ?s7] by (simp add: alive_def)
  moreover have "life_step (?s7\<lparr> lc_thread := Ended \<rparr>) JoinReturns
      (?s7\<lparr> lc_thread := NoThread, lc_client := Destroyed \<rparr>)"
    using life_step.joined_destructor [of "?s7\<lparr> lc_thread := Ended \<rparr>"] by (simp add: destroy_members_def)
  ultimately have "life_run (fresh sample_daemon)
     [CallStart, SetupDone good_calls, Swept, CallDestructor, WakeUp sent_wake, PollReady, Handled, LoopLeft, JoinReturns]
     (?s7\<lparr> lc_thread := NoThread, lc_client := Destroyed \<rparr>)"
    unfolding life_run_Cons life_run_Nil by blast
  then show ?thesis by simp
qed

theorem lifecycle_safe_witness:
  "lc_client \<lparr> lc_daemon = sample_daemon\<lparr> dm_running := False \<rparr>, lc_thread = NoThread,
               lc_client = Destroyed, lc_udp = [], lc_unix = [] \<rparr> \<noteq> Terminated"
  by (rule conjunct1 [OF lifecycle_safe [OF sample_life]]) (simp add: setup_succeeds_def good_prologue)

text \<open>C19. A failed socket setup clears \<open>running_\<close> and leaves the thread joinable, so \<open>Stop\<close> returns
  without joining it: the destructor, or another \<open>Start\<close>, then terminates the process.\<close>

theorem failed_setup_terminates:
  assumes "\<not> fst (serve_prologue sys d)"
  shows "(\<exists>s. life_run (fresh d) [CallStart, SetupDone sys, CallStop, CallDestructor] s)
    \<and> (\<forall>s. life_run (fresh d) [CallStart, SetupDone sys, CallStop, CallDestructor] s \<longrightarrow> lc_client s = Terminated)
    \<and> (\<forall>s. life_run (fresh d) [CallStart, SetupDone sys, CallStart] s \<longrightarrow> lc_client s = Terminated)"
proof (intro conjI allI impI)
  let ?s1 = "\<lparr> lc_daemon = d\<lparr> dm_running := True \<rparr>, lc_thread = Starting, lc_client = Idle_Client,
    lc_udp = [], lc_unix = [] \<rparr>"
  let ?s2 = "?s1\<lparr> lc_daemon := d\<lparr> dm_running := False \<rparr>, lc_thread := Ended \<rparr>"
  have 1: "life_step (fresh d) CallStart ?s1"
    using life_step.start [of "fresh d"] by (simp add: fresh_def Start_def Let_def)
  have 2: "life_step ?s1 (SetupDone sys) ?s2"
    using life_step.setup_fails [of ?s1 sys] assms by (simp add: alive_def)
  have 3: "life_step ?s2 CallStop ?s2"
    using life_step.stop [of ?s2] by (simp add: stop_begin_def)
  have 4: "life_step ?s2 CallDestructor (destroy_members ?s2)"
    using life_step.destructor [of ?s2, OF _ refl] by (simp add: stop_begin_def)
  from 1 2 3 4 show "\<exists>s. life_run (fresh d) [CallStart, SetupDone sys, CallStop, CallDestructor] s"
    unfolding life_run_Cons life_run_Nil by blast
next
  fix s
  assume "life_run (fresh d) [CallStart, SetupDone sys, CallStop, CallDestructor] s"
  then show "lc_client s = Terminated"
    using assms by (auto simp: life_run_Cons fresh_def Start_def stop_begin_def destroy_members_def Let_def
        elim!: life_stepE)
next
  fix s
  assume "life_run (fresh d) [CallStart, SetupDone sys, CallStart] s"
  then show "lc_client s = Terminated"
    using assms by (auto simp: life_run_Cons fresh_def Start_def Let_def elim!: life_stepE)
qed

theorem failed_setup_terminates_witness:
  "\<exists>s. life_run (fresh (dm_EnableUnixDomainControl '''' sample_daemon))
         [CallStart, SetupDone good_calls, CallStop, CallDestructor] s"
  by (rule conjunct1 [OF failed_setup_terminates])
    (simp add: serve_prologue_def SetupUdpSocket_def SetupUnixSocket_def good_calls_def
      dm_EnableUnixDomainControl_def)

section \<open>Stop returns\<close>

text \<open>The steps of the two threads, as opposed to what others send, and the most of them that are left while the
  client is in \<open>Stop\<close>.\<close>

definition own_step :: "life_event \<Rightarrow> bool" where
  "own_step e = (case e of Arrives c d \<Rightarrow> False | _ \<Rightarrow> True)"

definition in_stop :: "lifecycle \<Rightarrow> bool" where
  "in_stop s \<longleftrightarrow> lc_client s \<in> {Waking, Joining} \<and> \<not> dm_running (lc_daemon s) \<and> joinable s"

definition steps_left :: "lifecycle \<Rightarrow> nat" where
  "steps_left s = (if lc_client s = Waking then 1 else 0)
     + (case lc_thread s of Starting \<Rightarrow> 2 | AtHead \<Rightarrow> 1 | Polling \<Rightarrow> 3 | Handling u x \<Rightarrow> 2 | _ \<Rightarrow> 0)"

lemma in_stop_step:
  assumes "life_step s e t" and "in_stop s"
  shows "e = JoinReturns \<and> lc_client t = Idle_Client \<and> lc_thread t = NoThread
    \<or> in_stop t \<and> steps_left t + of_bool (own_step e) \<le> steps_left s"
  using assms
  by (cases rule: life_step.cases)
    (auto simp: in_stop_def steps_left_def own_step_def stop_wake_def sockets_open_def Let_def
      split: server_thread.splits)

text \<open>While it polls for a \<open>Stop\<close> that has sent its datagram, the thread has it to read.\<close>

definition wake_sent :: "life_event \<Rightarrow> bool" where
  "wake_sent e = (case e of WakeUp wk \<Rightarrow> wk_udp wk | _ \<Rightarrow> True)"

definition wake_waits :: "lifecycle \<Rightarrow> bool" where
  "wake_waits s \<longleftrightarrow> (lc_client s \<in> {Joining, Joining_Destructor} \<and> lc_thread s = Polling \<longrightarrow> lc_udp s \<noteq> [])"

lemma wake_waits_step:
  "life_step s e t \<Longrightarrow> wake_sent e \<Longrightarrow> life_inv d s \<Longrightarrow> wake_waits s \<Longrightarrow> wake_waits t"
  by (induction rule: life_step.induct)
    (auto simp: wake_waits_def wake_sent_def life_inv_def Start_def stop_begin_def stop_wake_def destroy_members_def
      sockets_open_def Let_def split: client_state.splits)

lemma wake_waits_run:
  "life_run s es t \<Longrightarrow> list_all wake_sent es \<Longrightarrow> list_all (setup_succeeds d) es \<Longrightarrow> life_inv d s \<Longrightarrow> wake_waits s \<Longrightarrow>
     wake_waits t"
  by (induction rule: life_run.induct) (auto intro: wake_waits_step life_step_inv)

lemma stop_progress: "in_stop s \<Longrightarrow> \<exists>e t. own_step e \<and> life_step s e t"
proof -
  assume s: "in_stop s"
  have own: "own_step (WakeUp wk)" "own_step (SetupDone sys)" "own_step LoopLeft" "own_step PollTimeout"
    "own_step PollReady" "own_step Handled" "own_step JoinReturns" for wk sys
    by (simp_all add: own_step_def)
  from s have a: "alive s" "\<not> dm_running (lc_daemon s)" by (auto simp: in_stop_def alive_def)
  show ?thesis
  proof (cases "lc_client s = Waking")
    case True
    then show ?thesis using life_step.woken own by blast
  next
    case False
    with s have j: "lc_client s = Joining" by (simp add: in_stop_def)
    show ?thesis
    proof (cases "lc_thread s")
      case NoThread
      with s show ?thesis by (simp add: in_stop_def)
    next
      case Starting
      then show ?thesis using life_step.setup_ok life_step.setup_fails a own by blast
    next
      case AtHead
      then show ?thesis using life_step.loop_left a own by blast
    next
      case Polling
      then show ?thesis using life_step.poll_timeout life_step.poll_ready a own by blast
    next
      case (Handling u x)
      then show ?thesis using life_step.handled a own by blast
    next
      case Ended
      then show ?thesis using life_step.joined j own by blast
    qed
  qed
qed

lemma stop_ends:
  assumes "life_run s es t" and "in_stop s" and "length (filter own_step es) > steps_left s"
  shows "\<exists>pre post u. es = pre @ JoinReturns # post \<and> life_run s (pre @ [JoinReturns]) u
    \<and> lc_client u = Idle_Client \<and> lc_thread u = NoThread"
  using assms
proof (induction rule: life_run.induct)
  case (life_more s e t es v)
  from in_stop_step [OF life_more.hyps(1) life_more.prems(1)] show ?case
  proof (elim disjE conjE)
    assume "e = JoinReturns" and "lc_client t = Idle_Client" and "lc_thread t = NoThread"
    moreover have "life_run s [e] t" using life_more.hyps(1) by (simp add: life_run_Cons)
    ultimately show ?thesis by (intro exI [of _ "[]"] exI [of _ es] exI [of _ t]) simp
  next
    assume "in_stop t" and "steps_left t + of_bool (own_step e) \<le> steps_left s"
    with life_more.IH life_more.prems(2) obtain pre post u where
      "es = pre @ JoinReturns # post" "life_run t (pre @ [JoinReturns]) u" "lc_client u = Idle_Client" "lc_thread u = NoThread"
      by (auto split: if_splits)
    with life_more.hyps(1) show ?thesis
      by (intro exI [of _ "e # pre"] exI [of _ post] exI [of _ u]) (auto simp: life_run_Cons)
  qed
qed simp

text \<open>The wake-up datagram is no request: the handler gives it no answer and leaves the registry alone.\<close>

lemma marker_ignored: "process_fd lib ks now stop_marker reg = (None, reg)"
  by (simp add: process_fd_def DecodePacket_def stop_marker_def)

text \<open>C20. \<open>Stop\<close> does not hang, whatever the schedule and whatever others send: while a client is in it, one of
  the two threads can take a step, and in every continuation with five steps of the two threads the call
  has returned, the thread joined. When its datagram was sent, the thread does not wait out its \<open>poll\<close>.\<close>

theorem stop_returns:
  assumes "life_run (fresh d) es s" and "list_all (setup_succeeds d) es" and "lc_client s \<in> {Waking, Joining}"
  shows "(\<exists>e t. own_step e \<and> life_step s e t)
    \<and> (\<forall>es' t. life_run s es' t \<and> length (filter own_step es') \<ge> 5 \<longrightarrow>
         (\<exists>pre post u. es' = pre @ JoinReturns # post \<and> life_run s (pre @ [JoinReturns]) u
            \<and> lc_client u = Idle_Client \<and> lc_thread u = NoThread))
    \<and> (lc_client s = Joining \<and> list_all wake_sent es \<longrightarrow> (\<forall>t. \<not> life_step s PollTimeout t))"
proof (intro conjI allI impI)
  have inv: "life_inv d s" by (rule life_run_inv [OF assms(1,2) fresh_inv])
  then have s: "in_stop s" using assms(3) by (auto simp: life_inv_def in_stop_def)
  then show "\<exists>e t. own_step e \<and> life_step s e t" by (rule stop_progress)
  have left: "steps_left s \<le> 4" by (auto simp: steps_left_def split: server_thread.split)
  fix es' t
  assume "life_run s es' t \<and> length (filter own_step es') \<ge> 5"
  with stop_ends [OF _ s] left show "\<exists>pre post u. es' = pre @ JoinReturns # post \<and> life_run s (pre @ [JoinReturns]) u
      \<and> lc_client u = Idle_Client \<and> lc_thread u = NoThread" by fastforce
next
  fix t
  assume "lc_client s = Joining \<and> list_all wake_sent es"
  moreover from this have "wake_waits s"
    using wake_waits_run [OF assms(1) _ assms(2) fresh_inv] by (simp add: wake_waits_def fresh_def)
  ultimately show "\<not> life_step s PollTimeout t" by (auto simp: wake_waits_def elim!: life_stepE)
qed

text \<open>A \<open>Stop\<close> that has just cleared the flag while the thread polls.\<close>

definition stopping :: lifecycle where
  "stopping = \<lparr> lc_daemon = sample_daemon\<lparr> dm_running := False \<rparr>, lc_thread = Polling, lc_client = Waking,
     lc_udp = [], lc_unix = [] \<rparr>"

lemma sample_stopping: "life_run (fresh sample_daemon) [CallStart, SetupDone good_calls, Swept, CallStop] stopping"
proof -
  let ?s1 = "\<lparr> lc_daemon = sample_daemon\<lparr> dm_running := True \<rparr>, lc_thread = Starting, lc_client = Idle_Client,
    lc_udp = [], lc_unix = [] \<rparr>"
  have "life_step (fresh sample_daemon) CallStart ?s1"
    using life_step.start [of "fresh sample_daemon"] by (simp add: fresh_def Start_def Let_def)
  moreover have "life_step ?s1 (SetupDone good_calls) (?s1\<lparr> lc_thread := AtHead \<rparr>)"
    using life_step.setup_ok [of ?s1 good_calls] by (simp add: good_prologue alive_def)
  moreover have "life_step (?s1\<lparr> lc_thread := AtHead \<rparr>) Swept (?s1\<lparr> lc_thread := Polling \<rparr>)"
    using life_step.sweep [of "?s1\<lparr> lc_thread := AtHead \<rparr>"] by (simp add: alive_def)
  moreover have "life_step (?s1\<lparr> lc_thread := Polling \<rparr>) CallStop stopping"
    using life_step.stop [of "?s1\<lparr> lc_thread := Polling \<rparr>"] by (simp add: stop_begin_def stopping_def)
  ultimately show ?thesis by (auto simp: life_run_Cons)
qed

theorem stop_returns_witness: "\<exists>e t. own_step e \<and> life_step stopping e t"
  by (rule conjunct1 [OF stop_returns [OF sample_stopping]]) (simp_all add: setup_succeeds_def good_prologue stopping_def)

end
