(* ===== verification/Daemon_Main.thy ===== *)
theory Daemon_Main
  imports Sd_Lifecycle
begin

text \<open>
  The daemon program (\<open>run_sd_daemon.cpp\<close>): \<open>main\<close> configures one daemon, starts it, sleeps until a
  signal, stops it, and destroys it on return. In the terms of \<open>Sd_Lifecycle\<close> the client thread makes
  three calls in this order, and the server thread moves in between as it likes.
\<close>

section \<open>main\<close>

definition main_daemon :: SomeIpSdDaemon where
  "main_daemon = dm_EnableUnixDomainControl ''/tmp/openveh_someip_sd.sock''
     (dm_SetDiscoveryMulticast ''239.255.0.1'' 30490 ''127.0.0.1'' (new_SomeIpSdDaemon ''127.0.0.1'' 30490))"

definition main_calls :: "life_event list" where
  "main_calls = [CallStart, CallStop, CallDestructor]"

text \<open>The client's calls among the events, and whether a setup of the sockets failed before \<open>Stop\<close> was
  called.\<close>

definition is_call :: "life_event \<Rightarrow> bool" where
  "is_call e \<longleftrightarrow> e \<in> {CallStart, CallStop, CallDestructor}"

lemma is_call_simps [simp]: "is_call CallStart" "is_call CallStop" "is_call CallDestructor"
  by (simp_all add: is_call_def)

definition failed_setup :: "SomeIpSdDaemon \<Rightarrow> life_event \<Rightarrow> bool" where
  "failed_setup d e = (case e of SetupDone sys \<Rightarrow> \<not> fst (serve_prologue sys d) | _ \<Rightarrow> False)"

fun fails_before_stop :: "SomeIpSdDaemon \<Rightarrow> life_event list \<Rightarrow> bool" where
  "fails_before_stop d [] = False"
| "fails_before_stop d (e # es) = (e \<noteq> CallStop \<and> (failed_setup d e \<or> fails_before_stop d es))"

section \<open>Where the run of main is\<close>

text \<open>The state, by the calls still to come and whether the setup has failed (as far as it will before
  \<open>Stop\<close>).\<close>

definition before_stop :: "SomeIpSdDaemon \<Rightarrow> bool \<Rightarrow> lifecycle \<Rightarrow> bool" where
  "before_stop d failed s \<longleftrightarrow> (lc_daemon s)\<lparr> dm_running := False \<rparr> = d\<lparr> dm_running := False \<rparr>
     \<and> lc_client s = Idle_Client
     \<and> (if failed then lc_thread s = Ended \<and> \<not> dm_running (lc_daemon s)
        else joinable s \<and> lc_thread s \<noteq> Ended \<and> dm_running (lc_daemon s))"

definition after_stop :: "bool \<Rightarrow> lifecycle \<Rightarrow> bool" where
  "after_stop failed s \<longleftrightarrow> \<not> dm_running (lc_daemon s)
     \<and> (lc_client s \<in> {Waking, Joining} \<and> \<not> failed \<and> joinable s
        \<or> lc_client s = Idle_Client \<and> lc_thread s = (if failed then Ended else NoThread))"

lemma destroyed_stuck: "lc_client s \<in> {Destroyed, Terminated} \<Longrightarrow> \<not> life_step s e s'"
  by (auto simp: alive_def elim: life_stepE)

lemma after_stop_step:
  assumes "life_step s e s'" and "after_stop failed s"
  shows "e = CallDestructor \<and> lc_client s' = (if failed then Terminated else Destroyed)
    \<or> \<not> is_call e \<and> after_stop failed s' \<or> e \<in> {CallStart, CallStop}"
  using assms
  by (cases rule: life_step.cases)
    (auto simp: after_stop_def is_call_def stop_begin_def stop_wake_def destroy_members_def Let_def split: if_splits)

lemma after_stop_run:
  assumes "life_run s es s'" and "after_stop failed s" and "filter is_call es = [CallDestructor]"
  shows "lc_client s' = (if failed then Terminated else Destroyed)"
  using assms
proof (induction rule: life_run.induct)
  case (life_more s e t es s')
  from after_stop_step [OF life_more.hyps(1) life_more.prems(1)] show ?case
  proof (elim disjE conjE)
    assume "e = CallDestructor" and t: "lc_client t = (if failed then Terminated else Destroyed)"
    have "es = []"
    proof (rule ccontr)
      assume "es \<noteq> []"
      with life_more.hyps(2) obtain e' t' where "life_step t e' t'" by (cases es) (auto simp: life_run_Cons)
      with t destroyed_stuck [of t] show False by (auto split: if_splits)
    qed
    with t life_more.hyps(2) show ?thesis by simp
  next
    assume "\<not> is_call e" and "after_stop failed t"
    with life_more show ?thesis by simp
  next
    assume "e \<in> {CallStart, CallStop}"
    with life_more.prems(2) show ?thesis by (auto simp: is_call_def)
  qed
qed simp

lemma before_stop_step:
  assumes "life_step s e s'" and "before_stop d failed s"
  shows "e = CallStop \<and> after_stop failed s' \<or> \<not> is_call e \<and> before_stop d (failed \<or> failed_setup d e) s'
    \<or> e \<in> {CallStart, CallDestructor}"
  using assms
proof (cases rule: life_step.cases)
  case (setup_ok sys)
  then show ?thesis using assms(2) prologue_cong [of "lc_daemon s" d sys]
    by (auto simp: before_stop_def is_call_def failed_setup_def split: if_splits)
next
  case (setup_fails sys)
  then show ?thesis using assms(2) prologue_cong [of "lc_daemon s" d sys]
    by (auto simp: before_stop_def is_call_def failed_setup_def split: if_splits)
qed (auto simp: before_stop_def after_stop_def is_call_def stop_begin_def failed_setup_def Let_def split: if_splits)

lemma before_stop_run:
  assumes "life_run s es s'" and "before_stop d failed s" and "filter is_call es = [CallStop, CallDestructor]"
  shows "lc_client s' = (if failed \<or> fails_before_stop d es then Terminated else Destroyed)"
  using assms
proof (induction arbitrary: failed rule: life_run.induct)
  case (life_more s e t es s')
  from before_stop_step [OF life_more.hyps(1) life_more.prems(1)] show ?case
  proof (elim disjE conjE)
    assume e: "e = CallStop" and t: "after_stop failed t"
    from life_more.prems(2) e have "filter is_call es = [CallDestructor]" by simp
    from after_stop_run [OF life_more.hyps(2) t this] e show ?thesis by simp
  next
    assume e: "\<not> is_call e" and t: "before_stop d (failed \<or> failed_setup d e) t"
    from e have "e \<noteq> CallStop" by (auto simp: is_call_def)
    with life_more.IH [OF t] life_more.prems(2) e show ?thesis by (simp add: disj_assoc)
  next
    assume "e \<in> {CallStart, CallDestructor}"
    with life_more.prems(2) show ?thesis by (auto simp: is_call_def)
  qed
qed simp

section \<open>How main ends\<close>

text \<open>The daemon program ends in one of two ways, whatever the server thread does in between: the daemon
  is destroyed and \<open>main\<close> returns, or, when the sockets could not be set up while it was sleeping, the
  destructor terminates the process.\<close>

theorem daemon_main_ends:
  assumes "life_run (fresh d) es s" and "filter is_call es = main_calls"
  shows "lc_client s = (if fails_before_stop d es then Terminated else Destroyed)"
proof -
  obtain e es' t where es: "es = e # es'" and step: "life_step (fresh d) e t" and run: "life_run t es' s"
    using assms by (cases es) (auto simp: main_calls_def life_run_Cons)
  from step have "is_call e" by (cases rule: life_step.cases) (auto simp: fresh_def is_call_def sockets_open_def)
  with assms(2) es have e: "e = CallStart" "filter is_call es' = [CallStop, CallDestructor]"
    by (auto simp: main_calls_def)
  with step have "before_stop d False t"
    by (auto simp: before_stop_def fresh_def Start_def Let_def elim!: life_stepE)
  from before_stop_run [OF run this e(2)] e es show ?thesis by (simp add: failed_setup_def)
qed

text \<open>With a port that is taken the run of \<open>main\<close> ends in the second way.\<close>

lemma main_daemon_port_taken:
  assumes "life_run (fresh main_daemon) es s" and "filter is_call es = main_calls"
    and "es = pre @ SetupDone sys # post" and "CallStop \<notin> set pre" and "\<not> udp_bind_ok sys"
  shows "lc_client s = Terminated"
proof -
  have "failed_setup main_daemon (SetupDone sys)"
    using assms(5) by (simp add: failed_setup_def serve_prologue_def SetupUdpSocket_def)
  then have "fails_before_stop main_daemon (pre @ SetupDone sys # post)"
    using assms(4) by (induction pre) auto
  with daemon_main_ends [OF assms(1,2)] assms(3) show ?thesis by simp
qed

end
