(* ===== verification/Sd_System.thy ===== *)
theory Sd_System
  imports Sd_Serve Sd_Api
begin

text \<open>
  Client and daemon together: the network between them carries the client's datagram to the
  daemon's handler and its reply back. The lemmas follow one request through encoding, decoding,
  the registry and the reply.
\<close>

section \<open>The daemon as a network\<close>

text \<open>The state of the world is the registry; \<open>order\<close> is how the hash map enumerates it.\<close>

definition daemon_answer ::
    "inet_lib \<Rightarrow> (registry \<Rightarrow> u32 list) \<Rightarrow> u64 \<Rightarrow> bytes \<Rightarrow> registry \<Rightarrow> control_io \<times> registry" where
  "daemon_answer lib order now d reg =
     (case process_fd lib (order reg) now d reg of (reply, reg') \<Rightarrow>
        (case reply of None \<Rightarrow> NothingReceived | Some r \<Rightarrow> Reply r, reg'))"

definition daemon_net :: "inet_lib \<Rightarrow> (registry \<Rightarrow> u32 list) \<Rightarrow> u64 \<Rightarrow> registry network" where
  "daemon_net lib order now =
     \<lparr> net_udp = (\<lambda>host port. daemon_answer lib order now),
       net_unix = (\<lambda>path d reg. apfst UnixIo (daemon_answer lib order now d reg)) \<rparr>"

definition control_ready :: "SomeIpSdApi \<Rightarrow> bool" where
  "control_ready api \<longleftrightarrow> (api_control_transport api = kUnixDomainSocket \<longrightarrow> api_unix_socket_path api \<noteq> '''')"

text \<open>What a registration with a TTL (as the wire carries it) does to the registry.\<close>

definition wire_ttl :: "u32 \<Rightarrow> u32" where
  "wire_ttl ttl = min ttl 0x00FFFFFF"

definition register_effect :: "inet_lib \<Rightarrow> u64 \<Rightarrow> ServiceDescriptor \<Rightarrow> u32 \<Rightarrow> registry \<Rightarrow> registry" where
  "register_effect lib now d ttl reg =
     (if ttl = 0 then reg(entry_key d := None)
      else reg(entry_key d \<mapsto> \<lparr> descriptor = wire_descriptor lib d,
                                expires_at_ms = now + ucast (wire_ttl ttl) * 1000 \<rparr>))"

lemma entry_key_wire [simp]: "entry_key (wire_descriptor lib d) = entry_key d"
  by (simp add: entry_key_def wire_descriptor_def)

lemma wire_ttl_0 [simp]: "wire_ttl ttl = 0 \<longleftrightarrow> ttl = 0"
  by (auto simp: wire_ttl_def min_def)

lemma small_packet_fits: "length (pkt_payload p) \<le> 4080 \<Longrightarrow> fits_frame p"
  by (simp add: fits_frame_def)

lemma process_encoded:
  assumes "length (pkt_payload p) \<le> 4080"
    and "HandlePacket lib ks now (on_wire p) reg = (True, resp, reg')"
  shows "process_fd lib ks now (EncodePacket p) reg = (Some (EncodePacket resp), reg')"
proof -
  have "EncodePacket p \<noteq> []" using length_EncodePacket [of p] by force
  with assms show ?thesis
    by (simp add: process_fd_def Let_def DecodePacket_EncodePacket small_packet_fits)
qed

lemma decode_small:
  "length (pkt_payload p) \<le> 4080 \<Longrightarrow> DecodePacket (take 4096 (EncodePacket p)) = Inr (on_wire p)"
  by (simp add: DecodePacket_EncodePacket small_packet_fits)

lemma EncodePacket_not_Nil [simp]: "EncodePacket p \<noteq> []"
  using length_EncodePacket [of p] by force

lemma control_reply:
  assumes "control_ready api"
    and "process_fd lib (order reg) now (EncodePacket req) reg = (Some (EncodePacket resp), reg')"
    and "length (pkt_payload resp) \<le> 4080"
  shows "DoControlRequest (daemon_net lib order now) api req reg = (Inr (on_wire resp), reg')"
  using assms
  by (simp add: DoControlRequest_def daemon_net_def daemon_answer_def control_ready_def decode_reply_def
      DecodePacket_EncodePacket small_packet_fits)

definition offer_request :: "inet_lib \<Rightarrow> u32 \<Rightarrow> ServiceDescriptor \<Rightarrow> u32 \<Rightarrow> bool \<Rightarrow> SdPacket" where
  "offer_request lib rid d ttl stop =
     \<lparr> pkt_message_type = kRequest, pkt_request_id = rid, pkt_payload = BuildSdOfferPayload lib d ttl stop \<rparr>"

definition offer_response :: "inet_lib \<Rightarrow> u32 \<Rightarrow> ServiceDescriptor \<Rightarrow> u32 \<Rightarrow> SdPacket" where
  "offer_response lib rid d ttl =
     \<lparr> pkt_message_type = kResponse, pkt_request_id = wire_id rid,
       pkt_payload = BuildSdOfferPayload lib (wire_descriptor lib d) (wire_ttl ttl) (ttl = 0) \<rparr>"

definition find_response :: "inet_lib \<Rightarrow> u32 list \<Rightarrow> registry \<Rightarrow> u32 \<Rightarrow> u16 \<Rightarrow> u16 option \<Rightarrow> SdPacket" where
  "find_response lib ks reg rid s i =
     \<lparr> pkt_message_type = kResponse, pkt_request_id = wire_id rid,
       pkt_payload = BuildSdOfferPayloadList lib
         (find_reply lib ks reg s (if i = Some 0xFFFF then None else i)) 3 \<rparr>"

context inet_conv
begin

lemma process_register:
  "process_fd lib ks now (EncodePacket (offer_request lib rid d ttl False)) reg
     = (Some (EncodePacket (offer_response lib rid d ttl)), register_effect lib now d ttl reg)"
proof (rule process_encoded)
  let ?p = "offer_request lib rid d ttl False"
  have o: "ParseSdOfferFirst lib (pkt_payload (on_wire ?p)) = Some (wire_descriptor lib d, wire_ttl ttl)"
    using parse_offer_built [of d ttl False] by (simp add: offer_request_def on_wire_def wire_ttl_def)
  have f: "ParseSdFindPayload (pkt_payload (on_wire ?p)) = None"
    by (simp add: offer_request_def on_wire_def parse_find_offer)
  have r: "pkt_message_type (on_wire ?p) = kRequest" by (simp add: offer_request_def on_wire_def)
  have id: "pkt_request_id (on_wire ?p) = wire_id rid" by (simp add: offer_request_def on_wire_def)
  show "HandlePacket lib ks now (on_wire ?p) reg
      = (True, offer_response lib rid d ttl, register_effect lib now d ttl reg)"
  proof (cases "ttl = 0")
    case True
    with o have o': "ParseSdOfferFirst lib (pkt_payload (on_wire ?p)) = Some (wire_descriptor lib d, 0)"
      by (simp add: wire_ttl_def)
    show ?thesis
      unfolding handle_unregister [OF r f o'] id
      by (simp add: True offer_response_def register_effect_def wire_ttl_def)
  next
    case False
    then show ?thesis
      by (subst handle_register [OF r f o]) (simp_all add: id offer_response_def register_effect_def)
  qed
qed (simp add: offer_request_def)

lemma process_unregister:
  "process_fd lib ks now (EncodePacket (offer_request lib rid d ttl True)) reg
     = (Some (EncodePacket (offer_response lib rid d 0)), reg(entry_key d := None))"
proof -
  have "offer_request lib rid d ttl True = offer_request lib rid d 0 False"
    by (simp add: offer_request_def BuildSdOfferPayload_def)
  then show ?thesis using process_register [of ks now rid d 0 reg] by (simp add: register_effect_def)
qed

lemma process_find:
  "process_fd lib ks now (EncodePacket (find_packet rid s i)) reg
     = (Some (EncodePacket (find_response lib ks reg rid s i)), reg)"
proof (rule process_encoded)
  show "HandlePacket lib ks now (on_wire (find_packet rid s i)) reg
      = (True, find_response lib ks reg rid s i, reg)"
    by (subst handle_find [of _ s "if i = Some 0xFFFF then None else i"])
      (auto simp: find_packet_def on_wire_def find_response_def parse_find_built)
qed (simp add: find_packet_def)

lemma parse_offer_response:
  "ParseSdOfferFirst lib (pkt_payload (on_wire (offer_response lib rid d ttl)))
     = Some (wire_descriptor lib d, wire_ttl ttl)"
  using parse_offer_built [of "wire_descriptor lib d"]
  by (simp add: offer_response_def on_wire_def wire_descriptor_idem wire_ttl_def min_def)

text \<open>The client's register call against the daemon.\<close>

lemma register_round_trip:
  assumes "control_ready api" and "unat (api_next_request_id api) < 65536"
  shows "RegisterService lib (daemon_net lib order now) d ttl api reg
           = (Inr (), api\<lparr> api_next_request_id := api_next_request_id api + 1 \<rparr>,
              register_effect lib now d (word_of_int ttl) reg)"
proof -
  let ?rid = "api_next_request_id api" and ?ttl = "word_of_int ttl :: u32"
  let ?api = "api\<lparr> api_next_request_id := ?rid + 1 \<rparr>"
  have ready: "control_ready ?api" using assms(1) by (simp add: control_ready_def)
  have "DoControlRequest (daemon_net lib order now) ?api (offer_request lib ?rid d ?ttl False) reg
      = (Inr (on_wire (offer_response lib ?rid d ?ttl)), register_effect lib now d ?ttl reg)"
    by (rule control_reply [OF ready process_register]) (simp add: offer_response_def)
  moreover have "pkt_request_id (on_wire (offer_response lib ?rid d ?ttl)) = ?rid"
    using assms(2) by (simp add: offer_response_def on_wire_def wire_id_eq_iff)
  moreover have "pkt_message_type (on_wire (offer_response lib ?rid d ?ttl)) = kResponse"
    by (simp add: offer_response_def on_wire_def)
  ultimately show ?thesis
    by (simp add: RegisterService_def AllocateRequestId_def Let_def parse_offer_response
        flip: offer_request_def kRequest_def)
qed

lemma unregister_round_trip:
  assumes "control_ready api" and "unat (api_next_request_id api) < 65536"
  shows "UnregisterService lib (daemon_net lib order now) s i api reg
           = (Inr (), api\<lparr> api_next_request_id := api_next_request_id api + 1 \<rparr>,
              reg(MakeRegistryKey s i := None))"
proof -
  let ?rid = "api_next_request_id api" and ?d = "default_descriptor\<lparr> service_id := s, instance_id := i \<rparr>"
  let ?api = "api\<lparr> api_next_request_id := ?rid + 1 \<rparr>"
  have ready: "control_ready ?api" using assms(1) by (simp add: control_ready_def)
  have "DoControlRequest (daemon_net lib order now) ?api (offer_request lib ?rid ?d 0 True) reg
      = (Inr (on_wire (offer_response lib ?rid ?d 0)), reg(entry_key ?d := None))"
    by (rule control_reply [OF ready process_unregister]) (simp add: offer_response_def)
  moreover have "pkt_request_id (on_wire (offer_response lib ?rid ?d 0)) = ?rid"
    using assms(2) by (simp add: offer_response_def on_wire_def wire_id_eq_iff)
  moreover have "pkt_message_type (on_wire (offer_response lib ?rid ?d 0)) = kResponse"
    by (simp add: offer_response_def on_wire_def)
  ultimately show ?thesis
    by (simp add: UnregisterService_def AllocateRequestId_def Let_def parse_offer_response entry_key_def
        flip: offer_request_def kRequest_def)
qed

end

section \<open>Answers to a Find\<close>

lemma serve_inv_keys: "serve_inv s \<Longrightarrow> keys_ok (sv_reg s)"
  by (auto simp: serve_inv_def entry_inv_def keys_ok_def)

lemma filter_eq_distinct: "distinct ks \<Longrightarrow> filter (\<lambda>k. k = x) ks = (if x \<in> set ks then [x] else [])"
  by (induction ks) (auto simp: filter_empty_conv)

lemma find_reply_set:
  "enumerates ks reg \<Longrightarrow>
     set (find_reply lib ks reg s i) = {d \<in> descriptor ` ran reg. matches_query s i d}"
  by (auto simp: find_reply_def set_matches_loop)

lemma find_reply_one:
  assumes "enumerates ks reg" and "keys_ok reg"
  shows "find_reply lib ks reg s (Some i) =
     (case reg (MakeRegistryKey s i) of None \<Rightarrow> [] | Some e \<Rightarrow> [descriptor e])"
proof -
  let ?k = "MakeRegistryKey s i" and ?d = "\<lambda>k. descriptor (the (reg k))"
  have key: "matches_query s (Some i) (?d k) \<longleftrightarrow> k = ?k" if "k \<in> set ks" for k
  proof -
    have "entry_key (?d k) = k" using that assms by (auto simp: keys_ok_def enumerates_def)
    moreover have "matches_query s (Some i) (?d k) \<longleftrightarrow> entry_key (?d k) = ?k"
      by (simp add: matches_query_def entry_key_def)
    ultimately show ?thesis by simp
  qed
  have "find_reply lib ks reg s (Some i) = map ?d (filter (\<lambda>k. matches_query s (Some i) (?d k)) ks)"
    unfolding find_reply_filter [OF assms(1)] by (simp add: filter_map comp_def)
  also have "filter (\<lambda>k. matches_query s (Some i) (?d k)) ks = filter (\<lambda>k. k = ?k) ks"
    by (rule filter_cong) (simp_all add: key)
  also have "map ?d \<dots> = (case reg ?k of None \<Rightarrow> [] | Some e \<Rightarrow> [descriptor e])"
    using assms(1) by (auto simp: filter_eq_distinct enumerates_def split: option.split)
  finally show ?thesis .
qed

lemma dedup_key_wire_eq:
  "dedup_key (wire_descriptor lib a) = dedup_key (wire_descriptor lib b) \<Longrightarrow> entry_key a = entry_key b"
  by (simp add: dedup_key_eq wire_descriptor_def entry_key_def)

lemma distinct_dedup_wire:
  "distinct (map entry_key ds) \<Longrightarrow> distinct (map dedup_key (map (wire_descriptor lib) ds))"
  by (induction ds) (auto dest: dedup_key_wire_eq)

text \<open>The reply fits the client's buffer up to 140 services: 16 bytes of header, 12 of block
  lengths and flags, and 29 for each.\<close>

definition max_offers :: nat where
  "max_offers = 140"

context inet_conv
begin

lemma on_find_response:
  assumes len: "length (find_reply lib ks reg s (if i = Some 0xFFFF then None else i)) \<le> max_offers"
    and keys: "enumerates ks reg" "keys_ok reg" and id: "unat rid < 65536"
    and st: "found st = []" "dedup st = {}"
  shows "found (on_datagram lib rid (EncodePacket (find_response lib ks reg rid s i)) st)
           = map (wire_descriptor lib) (find_reply lib ks reg s (if i = Some 0xFFFF then None else i))"
    and "last_error (on_datagram lib rid (EncodePacket (find_response lib ks reg rid s i)) st) = last_error st"
proof -
  let ?L = "find_reply lib ks reg s (if i = Some 0xFFFF then None else i)"
  let ?r = "find_response lib ks reg rid s i"
  have "length (pkt_payload ?r) \<le> 4080" using len by (simp add: find_response_def max_offers_def)
  then have d: "DecodePacket (take kApiBufferSize (EncodePacket ?r)) = Inr (on_wire ?r)"
    by (simp only: decode_small kApiBufferSize_def)
  have p: "ParseSdOffers lib (pkt_payload (on_wire ?r)) = Some (map (wire_descriptor lib) ?L)"
    using parse_offer_list_256 [of ?L 3] len by (simp add: find_response_def on_wire_def max_offers_def)
  have rid: "pkt_request_id (on_wire ?r) = rid" "pkt_message_type (on_wire ?r) = kResponse"
    using id by (simp_all add: find_response_def on_wire_def wire_id_eq_iff)
  have on: "on_datagram lib rid (EncodePacket ?r) st = collect (map (wire_descriptor lib) ?L) st"
    by (simp only: on_datagram_def d sum.case rid p option.case if_False simp_thms)
  have "distinct (map dedup_key (map (wire_descriptor lib) ?L))"
    by (rule distinct_dedup_wire [OF find_reply_keys [OF keys]])
  then have "found (collect (map (wire_descriptor lib) ?L) st) = found st @ map (wire_descriptor lib) ?L"
    using st by (intro collect_fresh) auto
  with on st show "found (on_datagram lib rid (EncodePacket ?r) st) = map (wire_descriptor lib) ?L"
    by simp
  show "last_error (on_datagram lib rid (EncodePacket ?r) st) = last_error st"
    unfolding on by simp
qed

end

lemma on_find_response_overflow:
  assumes len: "max_offers < length (find_reply lib ks reg s (if i = Some 0xFFFF then None else i))"
    and fits: "length (find_reply lib ks reg s (if i = Some 0xFFFF then None else i)) < 2 ^ 27"
  shows "on_datagram lib rid (EncodePacket (find_response lib ks reg rid s i)) st
           = st\<lparr> last_error := Some (DecodeFailed SomeIpLengthMismatch) \<rparr>"
proof -
  let ?r = "find_response lib ks reg rid s i"
  have "fits_frame ?r" and "4096 < length (EncodePacket ?r)"
    using len fits by (simp_all add: fits_frame_def find_response_def max_offers_def)
  from DecodePacket_truncated [OF this] show ?thesis by (simp add: on_datagram_def)
qed

section \<open>The client's calls against the daemon\<close>

text \<open>The rounds of a discovery that one daemon answers once, before the deadline.\<close>

definition one_answer ::
    "inet_lib \<Rightarrow> (registry \<Rightarrow> u32 list) \<Rightarrow> u64 \<Rightarrow> int \<Rightarrow> int \<Rightarrow> string \<Rightarrow> u16 \<Rightarrow> bytes \<Rightarrow> registry \<Rightarrow>
     (int \<times> round) list \<times> registry" where
  "one_answer lib order now t0 t1 grp port d reg =
     (case process_fd lib (order reg) now d reg of
        (None, reg) \<Rightarrow> ([(t0, PollEnds)], reg)
      | (Some r, reg) \<Rightarrow> ([(t0, Data r), (t1, PollEnds)], reg))"

definition no_discovery :: discovery where
  "no_discovery = \<lparr> found = [], dedup = {}, last_error = None \<rparr>"

context inet_conv
begin

lemma discover_answered:
  assumes "t0 < start + timeout * 1000000"
  shows "DiscoverServices lib DiscoverSent (one_answer lib order now t0 t1) start s i timeout api reg =
     (let st = on_datagram lib (api_next_request_id api)
                 (EncodePacket (find_response lib (order reg) reg (api_next_request_id api) s i)) no_discovery
      in (found st, last_error st), api\<lparr> api_next_request_id := api_next_request_id api + 1 \<rparr>, reg)"
  using assms
  by (simp add: DiscoverServices_def AllocateRequestId_def one_answer_def process_find no_discovery_def
      Let_def)

end

section \<open>Client requests in a history\<close>

lemma history_append [simp]: "history_ops lib (xs @ ys) = history_ops lib xs @ history_ops lib ys"
  by (simp add: history_ops_def)

lemma history_Cons: "history_ops lib (e # es) = event_ops lib e @ history_ops lib es"
  by (simp add: history_ops_def)

definition expiry_of :: "u64 \<Rightarrow> u32 \<Rightarrow> nat" where
  "expiry_of now ttl = unat now + unat (wire_ttl ttl) * 1000"

lemma wire_ttl_bound: "unat (wire_ttl ttl) < 2 ^ 24"
  by (simp add: wire_ttl_def min_def word_le_nat_alt)

lemma expiry_of_word:
  "unat now < 2 ^ 63 \<Longrightarrow> unat (now + ucast (wire_ttl ttl) * 1000 :: u64) = expiry_of now ttl"
  unfolding expiry_of_def by (rule expiry_no_wrap [OF _ wire_ttl_bound])

lemma received_clock:
  "serve_run lib u s (pre @ Received c data now reply # es) s' \<Longrightarrow> unat now < 2 ^ 63"
  by (auto simp: run_append_split serve_run_Cons tick_ok_def elim: step_ReceivedE)

lemma find_none: "enumerates ks reg \<Longrightarrow> keys_ok reg \<Longrightarrow> reg (entry_key d) = None \<Longrightarrow>
    find_reply lib ks reg (service_id d) (Some (instance_id d)) = []"
  by (simp add: find_reply_one entry_key_def)

context inet_conv
begin

lemma datagram_op_offer:
  assumes "unat now < 2 ^ 63"
  shows "datagram_op lib now (EncodePacket (offer_request lib rid d ttl stop)) =
     Some (if stop \<or> ttl = 0 then Del (entry_key d)
           else Put (entry_key d) (wire_descriptor lib d) (expiry_of now ttl))"
proof -
  have "DecodePacket (take kBufferSize (EncodePacket (offer_request lib rid d ttl stop)))
      = Inr (on_wire (offer_request lib rid d ttl stop))"
    unfolding kBufferSize_def by (rule decode_small) (simp add: offer_request_def)
  then show ?thesis
    using parse_offer_built [of d ttl stop] expiry_of_word [OF assms, of ttl]
    by (cases "ttl = 0") (auto simp: datagram_op_def packet_op_def offer_request_def on_wire_def
        parse_find_offer wire_ttl_def min_def)
qed

end

lemma run_look:
  assumes "serve_run lib u s es s'" and "reg_look (reg_run (history_ops lib es) (sv_reg s)) k = Some (d, t)"
  shows "map_option descriptor (sv_reg s' k) = Some d"
  using assms by (auto simp: run_refines [OF assms(1), symmetric] reg_look_def)

lemma run_look_None:
  assumes "serve_run lib u s es s'" and "reg_look (reg_run (history_ops lib es) (sv_reg s)) k = None"
  shows "sv_reg s' k = None"
  using assms by (simp add: run_refines [OF assms(1), symmetric] reg_look_def)

section \<open>A sample history\<close>

text \<open>A service is registered at time 20 for two seconds; then either its time runs out or it is
  unregistered.\<close>

lemma sample_offer_request: "sample_offer = EncodePacket (offer_request dotted 8 sample_service 2 False)"
  by (simp add: sample_offer_def offer_request_def)

lemma sample_end_reg: "sv_reg sample_end = [entry_key sample_service \<mapsto>
     \<lparr> descriptor = wire_descriptor dotted sample_service, expires_at_ms = 2020 \<rparr>]"
  by (simp add: sample_end_def sample_offer_request dotted.process_register register_effect_def wire_ttl_def)

lemma sample_end_keys: "enumerates [entry_key sample_service] (sv_reg sample_end)"
  by (simp add: enumerates_def sample_end_reg)

lemma sample_register_run:
  "serve_run dotted False (serve_start 5)
     ([Cleaned 10] @ Received Udp (EncodePacket (offer_request dotted 8 sample_service 2 False)) 20
        (Some (EncodePacket (offer_response dotted 8 sample_service 2))) # [Idle]) sample_end"
  using sample_run by (simp add: sample_history_def sample_offer_request dotted.process_register)

lemma sample_swept_run:
  "serve_run dotted False (serve_start 5)
     ([Cleaned 10] @ Received Udp (EncodePacket (offer_request dotted 8 sample_service 2 False)) 20
        (Some (EncodePacket (offer_response dotted 8 sample_service 2))) # [Idle] @ Cleaned 2020 # [])
     \<lparr> sv_reg = Map.empty, sv_clock = 2020, sv_swept = 2020, sv_pc = AtUdp \<rparr>"
proof -
  have "serve_step dotted False sample_end (Cleaned 2020)
      (sample_end\<lparr> sv_reg := CleanupExpired [entry_key sample_service] 2020 (sv_reg sample_end),
         sv_clock := 2020, sv_swept := 2020, sv_pc := AtUdp \<rparr>)"
    by (rule serve_step.cleanup [OF _ _ sample_end_keys]) (simp_all add: sample_end_def tick_ok_def)
  moreover have "CleanupExpired [entry_key sample_service] 2020 (sv_reg sample_end) = Map.empty"
    by (simp add: sample_end_reg CleanupExpired_def)
  ultimately have "serve_run dotted False sample_end [Cleaned 2020]
      \<lparr> sv_reg = Map.empty, sv_clock = 2020, sv_swept = 2020, sv_pc = AtUdp \<rparr>"
    by (simp add: serve_run_Cons sample_end_def)
  with sample_register_run show ?thesis
    using run_append_split [of dotted False "serve_start 5" "[Cleaned 10, Received Udp
        (EncodePacket (offer_request dotted 8 sample_service 2 False)) 20
        (Some (EncodePacket (offer_response dotted 8 sample_service 2))), Idle]" "[Cleaned 2020]"]
    by auto
qed

lemma sample_unregister_run:
  "serve_run dotted False (serve_start 5)
     (([Cleaned 10, Received Udp (EncodePacket (offer_request dotted 8 sample_service 2 False)) 20
        (Some (EncodePacket (offer_response dotted 8 sample_service 2))), Idle] @ [Cleaned 30])
        @ Received Udp (EncodePacket (offer_request dotted 9 sample_service 0 True)) 40
            (Some (EncodePacket (offer_response dotted 9 sample_service 0))) # [])
     \<lparr> sv_reg = Map.empty, sv_clock = 40, sv_swept = 30, sv_pc = AtUnix \<rparr>"
proof -
  let ?s = "sample_end\<lparr> sv_clock := 30, sv_swept := 30, sv_pc := AtUdp \<rparr>"
  have "serve_step dotted False sample_end (Cleaned 30)
      (sample_end\<lparr> sv_reg := CleanupExpired [entry_key sample_service] 30 (sv_reg sample_end),
         sv_clock := 30, sv_swept := 30, sv_pc := AtUdp \<rparr>)"
    by (rule serve_step.cleanup [OF _ _ sample_end_keys]) (simp_all add: sample_end_def tick_ok_def)
  moreover have "CleanupExpired [entry_key sample_service] 30 (sv_reg sample_end) = sv_reg sample_end"
    by (simp add: sample_end_reg CleanupExpired_def)
  ultimately have c: "serve_step dotted False sample_end (Cleaned 30) ?s" by simp
  have "serve_step dotted False ?s
      (Received Udp (EncodePacket (offer_request dotted 9 sample_service 0 True)) 40
         (Some (EncodePacket (offer_response dotted 9 sample_service 0))))
      (?s\<lparr> sv_reg := Map.empty, sv_clock := 40, sv_pc := AtUnix \<rparr>)"
    by (rule serve_step.udp [of _ _ "[entry_key sample_service]"])
      (use sample_end_keys in \<open>simp_all add: tick_ok_def dotted.process_unregister sample_end_reg\<close>)
  with c have "serve_run dotted False sample_end
      [Cleaned 30, Received Udp (EncodePacket (offer_request dotted 9 sample_service 0 True)) 40
         (Some (EncodePacket (offer_response dotted 9 sample_service 0)))]
      \<lparr> sv_reg = Map.empty, sv_clock = 40, sv_swept = 30, sv_pc = AtUnix \<rparr>"
    by (auto simp: serve_run_Cons sample_end_def)
  with sample_register_run show ?thesis
    unfolding append_assoc by (subst run_append_split) auto
qed

section \<open>Properties\<close>

text \<open>C2. A registration is found for as long as its TTL lasts: from the datagram of the client on,
  as long as nothing else is put or removed under its key and no sweep is at or after its expiry, a
  Find for the instance is answered with exactly that service, its endpoint as resolved.\<close>

theorem registration_found_until_expiry:
  assumes "inet_conv lib" and "unat t0 < 2 ^ 63" and "ttl \<noteq> 0"
    and "serve_run lib u (serve_start t0)
           (pre @ Received c (EncodePacket (offer_request lib rid d ttl False)) now reply # es) s"
    and "list_all (spares (entry_key d) (expiry_of now ttl)) (history_ops lib es)"
    and "enumerates ks (sv_reg s)"
  shows "find_reply lib ks (sv_reg s) (service_id d) (Some (instance_id d)) = [wire_descriptor lib d]"
proof -
  let ?put = "Put (entry_key d) (wire_descriptor lib d) (expiry_of now ttl)"
  note run = assms(4) and now = received_clock [OF assms(4)]
  have ev: "history_ops lib (pre @ Received c (EncodePacket (offer_request lib rid d ttl False)) now reply # es)
      = history_ops lib pre @ ?put # history_ops lib es"
    using assms(3) by (simp add: history_Cons event_ops_def opt_list_def
        inet_conv.datagram_op_offer [OF assms(1) now])
  have ok: "list_all (op_ok ms_ok) (history_ops lib pre @ ?put # history_ops lib es)"
    using run_op_ok [OF run] by (simp only: ev)
  have "reg_look (reg_run (?put # history_ops lib es) r) (entry_key d)
      = Some (wire_descriptor lib d, expiry_of now ttl)" for r
    using ok by (intro registry.put_lasts assms(5)) simp_all
  then have "map_option descriptor (sv_reg s (entry_key d)) = Some (wire_descriptor lib d)"
    by (intro run_look [OF run]) (simp only: ev registry.run_append)
  moreover have "keys_ok (sv_reg s)"
    by (rule serve_inv_keys [OF run_inv [OF run start_inv [OF assms(2)]]])
  ultimately show ?thesis
    using assms(6) by (auto simp: find_reply_one entry_key_def)
qed

theorem registration_found_until_expiry_witness:
  "find_reply dotted [entry_key sample_service] (sv_reg sample_end) 0x1234 (Some 1)
     = [wire_descriptor dotted sample_service]"
proof -
  have "list_all (spares (entry_key sample_service) (expiry_of 20 2)) (history_ops dotted [Idle])"
    by (simp add: history_ops_def event_ops_def)
  from registration_found_until_expiry
    [OF dotted.inet_conv_axioms _ _ sample_register_run this sample_end_keys]
  show ?thesis by (simp add: sample_service_def)
qed

text \<open>C3. It is not found for much longer: after the first sweep at or past the expiry (one starts
  every iteration of the loop) the service is no longer found until it is offered again.\<close>

theorem registration_gone_after_sweep:
  assumes "inet_conv lib" and "unat t0 < 2 ^ 63" and "ttl \<noteq> 0"
    and "serve_run lib u (serve_start t0)
           (pre @ Received c (EncodePacket (offer_request lib rid d ttl False)) now reply
              # mid @ Cleaned later # es) s"
    and "list_all (\<lambda>op. \<not> puts (entry_key d) op) (history_ops lib mid @ history_ops lib es)"
    and "expiry_of now ttl \<le> unat later"
    and "enumerates ks (sv_reg s)"
  shows "find_reply lib ks (sv_reg s) (service_id d) (Some (instance_id d)) = []"
proof -
  let ?k = "entry_key d"
  let ?put = "Put ?k (wire_descriptor lib d) (expiry_of now ttl)"
  let ?mid = "history_ops lib mid" and ?es = "history_ops lib es"
  note run = assms(4) and now = received_clock [OF assms(4)]
  have ev: "history_ops lib (pre @ Received c (EncodePacket (offer_request lib rid d ttl False)) now reply
              # mid @ Cleaned later # es)
      = history_ops lib pre @ ?put # ?mid @ Sweep (unat later) # ?es"
    using assms(3) by (simp add: history_Cons event_ops_def opt_list_def
        inet_conv.datagram_op_offer [OF assms(1) now])
  have ok: "list_all (op_ok ms_ok) (history_ops lib pre @ ?put # ?mid @ Sweep (unat later) # ?es)"
    using run_op_ok [OF run] by (simp only: ev)
  have "reg_look (reg_run (history_ops lib pre @ ?put # ?mid @ Sweep (unat later) # ?es) r) ?k = None" for r
    using registry.gone_after_sweep [where t = "expiry_of now ttl" and now = "unat later"
        and mid = ?mid and ops = ?es] ok assms(5,6) by simp
  then have "sv_reg s ?k = None" by (intro run_look_None [OF run]) (simp only: ev)
  then show ?thesis
    by (rule find_none [OF assms(7) serve_inv_keys [OF run_inv [OF run start_inv [OF assms(2)]]]])
qed

theorem registration_gone_after_sweep_witness:
  "expiry_of 20 2 = 2020 \<and> find_reply dotted [] Map.empty 0x1234 (Some 1) = []"
proof -
  have e: "expiry_of 20 2 = 2020" by (simp add: expiry_of_def wire_ttl_def)
  have "find_reply dotted [] (sv_reg \<lparr> sv_reg = Map.empty, sv_clock = 2020, sv_swept = 2020, sv_pc = AtUdp \<rparr>)
      (service_id sample_service) (Some (instance_id sample_service)) = []"
    by (rule registration_gone_after_sweep [OF dotted.inet_conv_axioms _ _ sample_swept_run])
      (simp_all add: history_ops_def event_ops_def e enumerates_def)
  with e show ?thesis by (simp add: sample_service_def)
qed

text \<open>An unregistered service is not found until it is offered again, and so is one registered
  with a TTL of 0, which the wire cannot tell from an unregistration.\<close>

theorem unregistration_sticks:
  assumes "inet_conv lib" and "unat t0 < 2 ^ 63" and "stop \<or> ttl = 0"
    and "serve_run lib u (serve_start t0)
           (pre @ Received c (EncodePacket (offer_request lib rid d ttl stop)) now reply # es) s"
    and "list_all (\<lambda>op. \<not> puts (entry_key d) op) (history_ops lib es)"
    and "enumerates ks (sv_reg s)"
  shows "find_reply lib ks (sv_reg s) (service_id d) (Some (instance_id d)) = []"
proof -
  note run = assms(4) and now = received_clock [OF assms(4)]
  have ev: "history_ops lib (pre @ Received c (EncodePacket (offer_request lib rid d ttl stop)) now reply # es)
      = history_ops lib pre @ Del (entry_key d) # history_ops lib es"
    using assms(3) by (simp add: history_Cons event_ops_def opt_list_def
        inet_conv.datagram_op_offer [OF assms(1) now])
  have "list_all (op_ok ms_ok) (history_ops lib es)"
    using run_op_ok [OF run] by (simp add: history_Cons)
  from registry.del_removes [OF assms(5) this]
  have "sv_reg s (entry_key d) = None"
    by (intro run_look_None [OF run]) (simp only: ev registry.run_append)
  then show ?thesis
    by (rule find_none [OF assms(6) serve_inv_keys [OF run_inv [OF run start_inv [OF assms(2)]]]])
qed

theorem unregistration_sticks_witness:
  "find_reply dotted [] (sv_reg \<lparr> sv_reg = Map.empty, sv_clock = 40, sv_swept = 30, sv_pc = AtUnix \<rparr>)
      (service_id sample_service) (Some (instance_id sample_service)) = []"
  by (rule unregistration_sticks [OF dotted.inet_conv_axioms _ _ sample_unregister_run])
    (simp_all add: history_ops_def enumerates_def)

text \<open>Register, discover, unregister and discover again against one daemon: the registered
  service is found as resolved, the unregistered one is not, and the registry ends without it. The
  calls need a control path, request ids the wire can carry, and an answer before the deadline.\<close>

theorem register_discover_unregister:
  assumes "inet_conv lib" and "control_ready api" and "unat (api_next_request_id api) < 65533"
    and "keys_ok reg" and "\<forall>m. enumerates (order m) m"
    and "(word_of_int ttl :: u32) \<noteq> 0" and "instance_id d \<noteq> 0xFFFF" and "t0 < start + timeout * 1000000"
  shows "let (r1, api, reg1) = RegisterService lib (daemon_net lib order now1) d ttl api reg;
             (r2, api, reg2) = DiscoverServices lib DiscoverSent (one_answer lib order now2 t0 t1) start
               (service_id d) (Some (instance_id d)) timeout api reg1;
             (r3, api, reg3) = UnregisterService lib (daemon_net lib order now3)
               (service_id d) (instance_id d) api reg2;
             (r4, api, reg4) = DiscoverServices lib DiscoverSent (one_answer lib order now4 t0 t1) start
               (service_id d) (Some (instance_id d)) timeout api reg3
         in r1 = Inr () \<and> r2 = ([wire_descriptor lib d], None) \<and> r3 = Inr () \<and> r4 = ([], None)
            \<and> reg4 = reg(entry_key d := None)"
proof -
  let ?rid = "api_next_request_id api"
  let ?reg1 = "register_effect lib now1 d (word_of_int ttl) reg"
  have small: "unat (?rid + 1) = unat ?rid + 1" "unat (?rid + 1 + 1) = unat ?rid + 2"
    "unat (?rid + 1 + 1 + 1) = unat ?rid + 3"
    using assms(3) by (simp_all add: unat_word_ariths)
  have ready: "control_ready (api\<lparr> api_next_request_id := x \<rparr>)" for x
    using assms(2) by (simp add: control_ready_def)
  have keys: "keys_ok ?reg1" "keys_ok (?reg1(MakeRegistryKey (service_id d) (instance_id d) := None))"
    using assms(4,6) by (auto simp: keys_ok_def register_effect_def)
  have look: "?reg1 (MakeRegistryKey (service_id d) (instance_id d))
      = Some \<lparr> descriptor = wire_descriptor lib d,
               expires_at_ms = now1 + ucast (wire_ttl (word_of_int ttl)) * 1000 \<rparr>"
    using assms(6) by (simp add: register_effect_def entry_key_def)
  have f1: "find_reply lib (order ?reg1) ?reg1 (service_id d) (Some (instance_id d))
      = [wire_descriptor lib d]"
    using keys(1) assms(5) look by (simp add: find_reply_one)
  let ?reg3 = "?reg1(MakeRegistryKey (service_id d) (instance_id d) := None)"
  have f2: "find_reply lib (order ?reg3) ?reg3 (service_id d) (Some (instance_id d)) = []"
    using keys(2) assms(5) by (simp add: find_reply_one)
  have final: "?reg3 = reg(entry_key d := None)"
    using assms(6) by (auto simp: register_effect_def entry_key_def)
  note d1 = inet_conv.on_find_response [OF assms(1), of "order ?reg1" ?reg1 "service_id d"
      "Some (instance_id d)" "?rid + 1" no_discovery]
  note d2 = inet_conv.on_find_response [OF assms(1), of "order ?reg3" ?reg3 "service_id d"
      "Some (instance_id d)" "?rid + 1 + 1 + 1" no_discovery]
  show ?thesis
    using inet_conv.register_round_trip [OF assms(1) assms(2), of order now1 d ttl reg] assms(3) small ready
      d1 d2 f1 f2 keys assms(5,7) inet_conv.wire_descriptor_idem [OF assms(1)] final
    by (simp add: inet_conv.discover_answered [OF assms(1,8)] inet_conv.unregister_round_trip [OF assms(1)]
        max_offers_def no_discovery_def Let_def)
qed

text \<open>One order a hash map could have.\<close>

definition key_order :: "registry \<Rightarrow> u32 list" where
  "key_order m = sorted_list_of_set (dom m)"

lemma key_order_enumerates: "enumerates (key_order m) m"
  by (simp add: enumerates_def key_order_def)

definition sample_api :: SomeIpSdApi where
  "sample_api = new_SomeIpSdApi ''127.0.0.1'' 30490 1000"

lemma sample_instance: "instance_id sample_service = 1"
  by (simp add: sample_service_def)

theorem register_discover_unregister_witness:
  "fst (RegisterService dotted (daemon_net dotted key_order 5) sample_service 3 sample_api Map.empty) = Inr ()"
proof -
  have "control_ready sample_api" and "unat (api_next_request_id sample_api) < 65533" and "keys_ok Map.empty"
    by (simp_all add: sample_api_def control_ready_def new_SomeIpSdApi_def keys_ok_def)
  from register_discover_unregister [OF dotted.inet_conv_axioms this, where order = key_order
      and ttl = 3 and d = sample_service and ?t0.0 = 0 and start = 0 and timeout = 10 and ?now1.0 = 5
      and ?now2.0 = 6 and ?now3.0 = 7 and ?now4.0 = 8 and ?t1.0 = 1]
  show ?thesis by (auto simp: key_order_enumerates sample_instance Let_def split: prod.splits)
qed

text \<open>A discovery one daemon answers in time returns the services the daemon finds.\<close>

lemma discover_result:
  assumes "inet_conv lib" and "unat (api_next_request_id api) < 65536"
    and "keys_ok reg" and "enumerates (order reg) reg" and "t0 < start + timeout * 1000000"
  shows "DiscoverServices lib DiscoverSent (one_answer lib order now t0 t1) start s i timeout api reg
    = (let ds = find_reply lib (order reg) reg s (if i = Some 0xFFFF then None else i)
       in if length ds \<le> 140 then (map (wire_descriptor lib) ds, None)
          else ([], Some (DecodeFailed SomeIpLengthMismatch)),
       api\<lparr> api_next_request_id := api_next_request_id api + 1 \<rparr>, reg)"
proof -
  let ?L = "find_reply lib (order reg) reg s (if i = Some 0xFFFF then None else i)"
  show ?thesis
  proof (cases "length ?L \<le> max_offers")
    case True
    from inet_conv.on_find_response [OF assms(1) True assms(4,3,2), of no_discovery] True
    show ?thesis
      by (simp add: inet_conv.discover_answered [OF assms(1,5)] no_discovery_def Let_def max_offers_def)
  next
    case False
    then have more: "max_offers < length ?L" by simp
    have "length ?L < 2 ^ 27"
      using find_reply_length [OF assms(4,3), of lib s "if i = Some 0xFFFF then None else i"] by simp
    from on_find_response_overflow [OF more this] more
    show ?thesis
      by (simp add: inet_conv.discover_answered [OF assms(1,5)] no_discovery_def Let_def max_offers_def)
  qed
qed

lemma find_reply_card:
  assumes "enumerates ks reg"
  shows "length (find_reply lib ks reg s i)
    = card {k. \<exists>e. reg k = Some e \<and> matches_query s i (descriptor e)}"
proof -
  have ks: "distinct ks" "set ks = dom reg" using assms by (simp_all add: enumerates_def)
  then have M: "{k. \<exists>e. reg k = Some e \<and> matches_query s i (descriptor e)}
      = {k. matches_query s i (descriptor (the (reg k)))} \<inter> set ks" by auto
  show ?thesis
    unfolding find_reply_filter [OF assms] M
    by (simp add: filter_map comp_def distinct_length_filter [OF ks(1)])
qed

lemma find_reply_entries:
  "enumerates ks reg \<Longrightarrow> set (find_reply lib ks reg s i)
     = {descriptor e | e k. reg k = Some e \<and> matches_query s i (descriptor e)}"
  by (auto simp: find_reply_set ran_def)

text \<open>C4. A discovery one daemon answers in time returns, each once and as resolved, exactly the
  registered services that match, when they are at most 140. When they are more the reply is longer
  than the client's buffer, and the client finds nothing and reports a length mismatch. (The answer is
  assumed to arrive; one too long for a UDP datagram, of some 2250 services, does not.)\<close>

theorem discovery_complete_up_to_140:
  assumes "inet_conv lib" and "unat (api_next_request_id api) < 65536"
    and "keys_ok reg" and "enumerates (order reg) reg" and "t0 < start + timeout * 1000000"
  shows "let query = (if i = Some 0xFFFF then None else i);
             matching = {k. \<exists>e. reg k = Some e \<and> matches_query s query (descriptor e)};
             result = fst (DiscoverServices lib DiscoverSent (one_answer lib order now t0 t1) start s i timeout api reg)
         in if card matching \<le> 140
            then \<exists>ds. result = (map (wire_descriptor lib) ds, None) \<and> distinct (map entry_key ds)
                   \<and> set ds = {descriptor e | e k. reg k = Some e \<and> matches_query s query (descriptor e)}
            else result = ([], Some (DecodeFailed SomeIpLengthMismatch))"
proof -
  let ?q = "if i = Some 0xFFFF then None else i"
  let ?L = "find_reply lib (order reg) reg s ?q"
  let ?M = "{k. \<exists>e. reg k = Some e \<and> matches_query s ?q (descriptor e)}"
  note res = discover_result [where order = order and api = api, OF assms]
  show ?thesis
  proof (cases "card ?M \<le> 140")
    case True
    then have "fst (DiscoverServices lib DiscoverSent (one_answer lib order now t0 t1) start s i timeout api reg)
        = (map (wire_descriptor lib) ?L, None)"
      unfolding res by (simp only: find_reply_card [OF assms(4)] Let_def fst_conv if_True)
    with True show ?thesis
      using find_reply_keys [OF assms(4,3), of lib s ?q] find_reply_entries [OF assms(4), of lib s ?q]
      by (simp only: Let_def if_True) blast
  next
    case False
    then show ?thesis
      unfolding res by (simp only: find_reply_card [OF assms(4)] Let_def fst_conv if_False)
  qed
qed

theorem discovery_complete_up_to_140_witness:
  "\<exists>ds. fst (DiscoverServices dotted DiscoverSent (one_answer dotted key_order 5 0 1) 0 0x1234 None 10 sample_api
        (sv_reg sample_end)) = (map (wire_descriptor dotted) ds, None)
     \<and> set ds = {wire_descriptor dotted sample_service}"
proof -
  let ?e = "\<lparr> descriptor = wire_descriptor dotted sample_service, expires_at_ms = 2020 \<rparr>"
  have "unat (api_next_request_id sample_api) < 65536" and "keys_ok (sv_reg sample_end)"
    by (simp_all add: sample_api_def new_SomeIpSdApi_def keys_ok_def sample_end_reg)
  note * = discovery_complete_up_to_140 [OF dotted.inet_conv_axioms this,
      where ?t0.0 = 0 and start = 0 and timeout = 10 and i = None and s = "0x1234" and now = 5 and ?t1.0 = 1
        and order = key_order]
  have "matches_query 0x1234 None (wire_descriptor dotted sample_service)"
    unfolding wire_sample by (simp add: matches_query_def sample_service_def)
  then have "{k. \<exists>e. sv_reg sample_end k = Some e \<and> matches_query 0x1234 None (descriptor e)}
      = {entry_key sample_service}"
    and "{descriptor e | e k. sv_reg sample_end k = Some e \<and> matches_query 0x1234 None (descriptor e)}
      = {wire_descriptor dotted sample_service}"
    by (auto simp: sample_end_reg)
  with * show ?thesis by (auto simp: Let_def key_order_enumerates)
qed

end
