(* ===== verification/Decimal.thy ===== *)
theory Decimal
  imports Inet
begin

text \<open>
  \<open>std::to_string\<close> of an unsigned number, which the demos use for the keys of their peers and the client
  for the name of a socket file: its digits, its length, and that texts built from such numbers and
  separators determine the numbers.
\<close>

fun decimal :: "nat \<Rightarrow> string" where
  "decimal n = (if n < 10 then [digit_char n] else decimal (n div 10) @ [digit_char (n mod 10)])"

declare decimal.simps [simp del]

lemma digits_value_snoc:
  "digits_value acc s = Some v \<Longrightarrow> d < 10 \<Longrightarrow> digits_value acc (s @ [digit_char d]) = Some (10 * v + d)"
  by (induction s arbitrary: acc) (auto simp: digit_value_char split: option.splits)

lemma digits_value_decimal: "digits_value 0 (decimal n) = Some n"
proof (induction n rule: decimal.induct)
  case (1 n)
  show ?case
  proof (cases "n < 10")
    case True
    then show ?thesis by (simp add: decimal.simps [of n] digit_value_char)
  next
    case False
    then have "digits_value 0 (decimal (n div 10) @ [digit_char (n mod 10)]) = Some (10 * (n div 10) + n mod 10)"
      using 1 by (intro digits_value_snoc) simp_all
    with False show ?thesis by (simp add: decimal.simps [of n])
  qed
qed

lemma decimal_inject [simp]: "decimal n = decimal m \<longleftrightarrow> n = m"
  using digits_value_decimal [of n] digits_value_decimal [of m] by (metis option.inject)

lemma length_decimal: "n < 10 ^ k \<Longrightarrow> 0 < k \<Longrightarrow> length (decimal n) \<le> k"
proof (induction k arbitrary: n)
  case (Suc k)
  show ?case
  proof (cases "n < 10")
    case False
    then have "n div 10 < 10 ^ k" "0 < k" using Suc.prems by (auto intro: gr0I)
    with Suc.IH [of "n div 10"] False show ?thesis by (subst decimal.simps) simp
  qed (simp add: decimal.simps)
qed simp

lemma decimal_digits: "c \<in> set (decimal n) \<Longrightarrow> \<exists>d < 10. c = digit_char d"
proof (induction n rule: decimal.induct)
  case (1 n)
  show ?case
  proof (cases "n < 10")
    case True
    with 1(2) show ?thesis by (auto simp: decimal.simps [of n])
  next
    case False
    then have "c \<in> set (decimal (n div 10)) \<or> c = digit_char (n mod 10)"
      using 1(2) by (auto simp: decimal.simps [of n])
    moreover have "n mod 10 < 10" by simp
    ultimately show ?thesis using 1(1) [OF False] by blast
  qed
qed

lemma decimal_no: "(of_char c :: nat) \<notin> {48..57} \<Longrightarrow> c \<notin> set (decimal n)"
  using decimal_digits [of c n] by auto

lemma append_sep:
  "c \<notin> set xs \<Longrightarrow> c \<notin> set ys \<Longrightarrow> xs @ c # us = ys @ c # vs \<longleftrightarrow> xs = ys \<and> us = vs"
proof (induction xs arbitrary: ys)
  case Nil
  then show ?case by (cases ys) auto
next
  case (Cons x xs)
  then show ?case by (cases ys) auto
qed

end
