(* ===== verification/App_Protocol.thy ===== *)
theory App_Protocol
  imports Prelude
begin

text \<open>
  The SOME/IP messages of the demo applications (\<open>someip_app_protocol.hpp\<close>). The message type
  is an enumeration filled from any byte, so it is the byte. Each exception of the code is a
  constructor of \<open>app_error\<close>.
\<close>

type_synonym SomeIpMessageType = u8

definition kMsgRequest :: SomeIpMessageType where [simp]: "kMsgRequest = 0x00"
definition kMsgRequestNoReturn :: SomeIpMessageType where [simp]: "kMsgRequestNoReturn = 0x01"
definition kMsgNotification :: SomeIpMessageType where [simp]: "kMsgNotification = 0x02"
definition kMsgResponse :: SomeIpMessageType where [simp]: "kMsgResponse = 0x80"
definition kMsgError :: SomeIpMessageType where [simp]: "kMsgError = 0x81"

record SomeIpMessage =
  msg_service_id :: u16
  msg_method_id :: u16
  msg_client_id :: u16
  msg_session_id :: u16
  msg_interface_version :: u8
  msg_message_type :: SomeIpMessageType
  msg_return_code :: u8
  msg_payload :: bytes

definition default_message :: SomeIpMessage where
  "default_message = \<lparr> msg_service_id = 0, msg_method_id = 0, msg_client_id = 0, msg_session_id = 0,
     msg_interface_version = 1, msg_message_type = kMsgRequest, msg_return_code = 0, msg_payload = [] \<rparr>"

datatype app_error = PayloadTooLarge | FrameTooShort | InvalidLength | PayloadLengthMismatch | UnsupportedVersion

section \<open>Encoding and decoding\<close>

definition pack_ids :: "u16 \<Rightarrow> u16 \<Rightarrow> u32" where
  "pack_ids hi lo = push_bit 16 (ucast hi) OR ucast lo"

definition EncodeSomeIp :: "SomeIpMessage \<Rightarrow> app_error + bytes" where
  "EncodeSomeIp msg =
     (if length (msg_payload msg) > 0xFFFFFFFF - 8 then Inl PayloadTooLarge
      else let message_id = pack_ids (msg_service_id msg) (msg_method_id msg);
               request_id = pack_ids (msg_client_id msg) (msg_session_id msg);
               len = of_nat (length (msg_payload msg) + 8) :: u32
           in Inr (be_bytes 4 message_id @ be_bytes 4 len @ be_bytes 4 request_id
                @ [0x01, msg_interface_version msg, msg_message_type msg, msg_return_code msg]
                @ msg_payload msg))"

definition DecodeSomeIp :: "bytes \<Rightarrow> app_error + SomeIpMessage" where
  "DecodeSomeIp data =
     (if length data < 16 then Inl FrameTooShort
      else let message_id = be_value (subrange data 0 4) :: u32;
               len = be_value (subrange data 4 8) :: u32;
               request_id = be_value (subrange data 8 12) :: u32
           in if len < 8 then Inl InvalidLength
              else let payload_len = unat (len - 8)
                   in if length data \<noteq> 16 + payload_len then Inl PayloadLengthMismatch
                      else if data ! 12 \<noteq> 0x01 then Inl UnsupportedVersion
                      else Inr \<lparr> msg_service_id = ucast (drop_bit 16 message_id AND 0xFFFF),
                                 msg_method_id = ucast (message_id AND 0xFFFF),
                                 msg_client_id = ucast (drop_bit 16 request_id AND 0xFFFF),
                                 msg_session_id = ucast (request_id AND 0xFFFF),
                                 msg_interface_version = data ! 13, msg_message_type = data ! 14,
                                 msg_return_code = data ! 15,
                                 msg_payload = subrange data 16 (16 + payload_len) \<rparr>)"

section \<open>Identifiers\<close>

lemma pack_parts [simp]:
  "(ucast (drop_bit 16 (pack_ids hi lo)) :: u16) = hi" "(ucast (pack_ids hi lo) :: u16) = lo"
  by (rule bit_word_eqI; auto simp: pack_ids_def bit_simps)+

lemma pack_again: "pack_ids (ucast (drop_bit 16 v)) (ucast v) = v"
  by (rule bit_word_eqI) (auto simp: pack_ids_def bit_simps dest: bit_imp_le_length)

lemma length_fits:
  assumes "n \<le> 0xFFFFFFFF - 8"
  shows "unat (of_nat (n + 8) :: u32) = n + 8"
  using assms by (simp add: unat_of_nat del: of_nat_add)

section \<open>Frames by their parts\<close>

lemma decode_parts:
  assumes "length a = 4" "length b = 4" "length c = 4"
  shows "DecodeSomeIp (a @ b @ c @ [v, i, t, r] @ pl) =
     (if (be_value b :: u32) < 8 then Inl InvalidLength
      else if length pl \<noteq> unat (be_value b - 8 :: u32) then Inl PayloadLengthMismatch
      else if v \<noteq> 0x01 then Inl UnsupportedVersion
      else Inr \<lparr> msg_service_id = ucast (drop_bit 16 (be_value a :: u32)), msg_method_id = ucast (be_value a :: u32),
                 msg_client_id = ucast (drop_bit 16 (be_value c :: u32)), msg_session_id = ucast (be_value c :: u32),
                 msg_interface_version = i, msg_message_type = t, msg_return_code = r, msg_payload = pl \<rparr>)"
proof -
  let ?d = "a @ b @ c @ [v, i, t, r] @ pl"
  have sub: "subrange ?d 0 4 = a" "subrange ?d 4 8 = b" "subrange ?d 8 12 = c"
    "subrange ?d 16 (16 + n) = take n pl" for n
    using assms by (simp_all add: subrange_def)
  have at: "?d ! 12 = v" "?d ! 13 = i" "?d ! 14 = t" "?d ! 15 = r"
    using assms by (simp_all add: nth_append)
  have len: "length ?d = 16 + length pl" using assms by simp
  show ?thesis
    unfolding DecodeSomeIp_def sub at len Let_def low_half by simp
qed

lemma frame_parts:
  assumes "16 \<le> length d"
  obtains a b c v i t r pl where "d = a @ b @ c @ [v, i, t, r] @ pl"
    and "length a = 4" "length b = 4" "length c = (4 :: nat)"
proof
  have four: "take 4 (drop 12 d) = [d ! 12, d ! 13, d ! 14, d ! 15]"
    using assms by (intro nth_equalityI) (auto simp: less_Suc_eq numeral_eq_Suc)
  have "d = take 4 d @ take 4 (drop 4 d) @ take 4 (drop 8 d) @ take 4 (drop 12 d) @ drop 16 d"
    using append_take_drop_id [of 4 d] append_take_drop_id [of 4 "drop 4 d"]
      append_take_drop_id [of 4 "drop 8 d"] append_take_drop_id [of 4 "drop 12 d"]
    by (simp add: drop_drop)
  then show "d = take 4 d @ take 4 (drop 4 d) @ take 4 (drop 8 d) @ [d ! 12, d ! 13, d ! 14, d ! 15] @ drop 16 d"
    by (simp only: four)
qed (use assms in simp_all)

lemma encoded_length_word:
  assumes "n \<le> 0xFFFFFFFF - 8"
  shows "\<not> (of_nat (n + 8) :: u32) < 8" and "unat (of_nat (n + 8) - 8 :: u32) = n"
  using length_fits [OF assms] by (simp_all add: word_less_nat_alt unat_sub word_le_nat_alt del: of_nat_add)

lemma decode_encoded:
  assumes "EncodeSomeIp m = Inr d"
  shows "DecodeSomeIp d = Inr m"
proof -
  have fits: "length (msg_payload m) \<le> 0xFFFFFFFF - 8"
    using assms by (auto simp: EncodeSomeIp_def Let_def split: if_splits)
  have d: "d = be_bytes 4 (pack_ids (msg_service_id m) (msg_method_id m))
      @ be_bytes 4 (of_nat (length (msg_payload m) + 8) :: u32)
      @ be_bytes 4 (pack_ids (msg_client_id m) (msg_session_id m))
      @ [0x01, msg_interface_version m, msg_message_type m, msg_return_code m] @ msg_payload m"
    using assms by (auto simp: EncodeSomeIp_def Let_def split: if_splits)
  show ?thesis
    unfolding d
    by (subst decode_parts)
      (simp_all add: be_value_bytes encoded_length_word [OF fits] del: of_nat_add)
qed

lemma encode_decoded:
  assumes "DecodeSomeIp d = Inr m"
  shows "EncodeSomeIp m = Inr d"
proof -
  have "16 \<le> length d" using assms by (auto simp: DecodeSomeIp_def split: if_splits)
  then obtain a b c v i t r pl where d: "d = a @ b @ c @ [v, i, t, r] @ pl"
    and len: "length a = 4" "length b = 4" "length c = 4" by (rule frame_parts)
  let ?len = "be_value b :: u32"
  from assms have *: "\<not> ?len < 8" "length pl = unat (?len - 8)" "v = 0x01"
    and m: "m = \<lparr> msg_service_id = ucast (drop_bit 16 (be_value a :: u32)), msg_method_id = ucast (be_value a :: u32),
                 msg_client_id = ucast (drop_bit 16 (be_value c :: u32)), msg_session_id = ucast (be_value c :: u32),
                 msg_interface_version = i, msg_message_type = t, msg_return_code = r, msg_payload = pl \<rparr>"
    unfolding d decode_parts [OF len] by (auto split: if_splits)
  have pl: "length pl + 8 = unat ?len"
    using *(1,2) by (simp add: unat_sub word_le_nat_alt word_less_nat_alt)
  have bound: "unat ?len < 2 ^ 32" using unsigned_less [of ?len] by simp
  have "(of_nat (length pl + 8) :: u32) = ?len" unfolding pl by simp
  moreover have "be_bytes 4 ?len = b" "be_bytes 4 (be_value a :: u32) = a" "be_bytes 4 (be_value c :: u32) = c"
    using len by (simp_all add: be_bytes_value)
  ultimately show ?thesis
    using bound pl *(3) unfolding d m by (simp add: EncodeSomeIp_def pack_again Let_def del: of_nat_add)
qed

section \<open>Properties\<close>

text \<open>C27. The message codec of the demos is a bijection between the messages it can encode and the
  frames it accepts: a byte string decodes to a message if and only if the message encodes to it.\<close>

theorem message_codec_bijective: "DecodeSomeIp d = Inr m \<longleftrightarrow> EncodeSomeIp m = Inr d"
  using decode_encoded encode_decoded by blast

end
