(* ===== verification/Idl_Codec.thy ===== *)
theory Idl_Codec
  imports Prelude
begin

text \<open>
  The support code of the generated parameter types (\<open>someip_codec_support.hpp\<close>):
  \<open>ByteWriter\<close>, \<open>ByteReader\<close> and \<open>SerializableObject\<close>. A generated \<open>deserializeFromReader\<close>
  is a sequence of \<open>if (!reader.read...(field)) return false;\<close> that updates the object as it
  goes, so a step takes the object and the reader and gives a verdict with both, as they are
  then, on failure too. Sequences of steps are lists. A \<open>float\<close> is its bit pattern: the code
  only copies its bytes. The contract of a generated type is the locale \<open>serializable\<close>.
\<close>

section \<open>ByteWriter\<close>

fun write_be_loop :: "nat \<Rightarrow> 'a::len word \<Rightarrow> bytes \<Rightarrow> bytes" where
  "write_be_loop 0 u out = out"
| "write_be_loop (Suc i) u out = write_be_loop i u (out @ [ucast (drop_bit (i * 8) u AND 0xFF)])"

definition writeIntegralBE :: "bytes \<Rightarrow> 'a::len word \<Rightarrow> bytes" where
  "writeIntegralBE out v = write_be_loop (LENGTH('a) div 8) v out"

definition writeFloat32BE :: "bytes \<Rightarrow> u32 \<Rightarrow> bytes" where
  "writeFloat32BE out u = writeIntegralBE out u"

definition writeFloat64BE :: "bytes \<Rightarrow> u64 \<Rightarrow> bytes" where
  "writeFloat64BE out u = writeIntegralBE out u"

section \<open>ByteReader\<close>

record ByteReader =
  br_in :: bytes
  br_pos :: nat

definition remaining :: "ByteReader \<Rightarrow> nat" where
  "remaining r = length (br_in r) - br_pos r"

definition fullyConsumed :: "ByteReader \<Rightarrow> bool" where
  "fullyConsumed r \<longleftrightarrow> br_pos r = length (br_in r)"

fun read_be_loop :: "nat \<Rightarrow> bytes \<Rightarrow> nat \<Rightarrow> 'a::len word \<Rightarrow> 'a word \<times> nat" where
  "read_be_loop 0 inp pos u = (u, pos)"
| "read_be_loop (Suc i) inp pos u = read_be_loop i inp (pos + 1) (push_bit 8 u OR ucast (inp ! pos))"

definition readIntegralBE :: "ByteReader \<Rightarrow> ('a::len word \<times> ByteReader) option" where
  "readIntegralBE r =
     (if remaining r < LENGTH('a) div 8 then None
      else case read_be_loop (LENGTH('a) div 8) (br_in r) (br_pos r) 0 of
        (u, pos) \<Rightarrow> Some (u, r\<lparr> br_pos := pos \<rparr>))"

definition readFloat32BE :: "ByteReader \<Rightarrow> (u32 \<times> ByteReader) option" where
  "readFloat32BE r = readIntegralBE r"

definition readFloat64BE :: "ByteReader \<Rightarrow> (u64 \<times> ByteReader) option" where
  "readFloat64BE r = readIntegralBE r"

definition readBytes :: "nat \<Rightarrow> ByteReader \<Rightarrow> (string \<times> ByteReader) option" where
  "readBytes n r =
     (if remaining r < n then None
      else Some (map byte_char (subrange (br_in r) (br_pos r) (br_pos r + n)), r\<lparr> br_pos := br_pos r + n \<rparr>))"

section \<open>They are big-endian codecs\<close>

lemma write_be_loop_image: "write_be_loop n u out = out @ be_bytes n u"
  by (induction n arbitrary: out) (simp_all add: mult.commute)

lemma read_be_loop_image:
  "pos + n \<le> length inp \<Longrightarrow>
     read_be_loop n inp pos u = (foldl be_push u (subrange inp pos (pos + n)), pos + n)"
proof (induction n arbitrary: pos u)
  case (Suc n)
  then have "subrange inp pos (pos + Suc n) = inp ! pos # subrange inp (pos + 1) (pos + 1 + n)"
    by (simp add: subrange_def Cons_nth_drop_Suc [symmetric])
  with Suc show ?case by (simp add: be_push_def)
qed (simp add: subrange_def)

lemma write_image [simp]: "writeIntegralBE out v = out @ be_bytes (LENGTH('a) div 8) (v :: 'a::len word)"
  by (simp add: writeIntegralBE_def write_be_loop_image)

definition read_be :: "bytes \<Rightarrow> nat \<Rightarrow> ('a::len word \<times> nat) option" where
  "read_be inp pos = map_option (\<lambda>(v, r). (v, br_pos r)) (readIntegralBE \<lparr> br_in = inp, br_pos = pos \<rparr>)"

lemma read_be_image:
  "0 < LENGTH('a) div 8 \<Longrightarrow> (read_be inp pos :: ('a::len word \<times> nat) option) =
      (if pos + LENGTH('a) div 8 \<le> length inp
       then Some (be_value (subrange inp pos (pos + LENGTH('a) div 8)), pos + LENGTH('a) div 8) else None)"
  by (auto simp: read_be_def readIntegralBE_def remaining_def read_be_loop_image be_value_def)

interpretation I8: be_codec 1 writeIntegralBE "read_be :: bytes \<Rightarrow> nat \<Rightarrow> (u8 \<times> nat) option"
  by unfold_locales (simp_all add: read_be_image)

interpretation I16: be_codec 2 writeIntegralBE "read_be :: bytes \<Rightarrow> nat \<Rightarrow> (u16 \<times> nat) option"
  by unfold_locales (simp_all add: read_be_image)

interpretation I32: be_codec 4 writeIntegralBE "read_be :: bytes \<Rightarrow> nat \<Rightarrow> (u32 \<times> nat) option"
  by unfold_locales (simp_all add: read_be_image)

interpretation I64: be_codec 8 writeIntegralBE "read_be :: bytes \<Rightarrow> nat \<Rightarrow> (u64 \<times> nat) option"
  by unfold_locales (simp_all add: read_be_image)

lemma readIntegralBE_read_be:
  "readIntegralBE r = map_option (\<lambda>(v, p). (v, r\<lparr> br_pos := p \<rparr>)) (read_be (br_in r) (br_pos r))"
  by (cases r) (auto simp: read_be_def readIntegralBE_def split: prod.splits)

section \<open>Steps of a generated reader\<close>

type_synonym 's reader_step = "'s \<Rightarrow> ByteReader \<Rightarrow> bool \<times> 's \<times> ByteReader"

primrec read_all :: "'s reader_step list \<Rightarrow> 's reader_step" where
  "read_all [] x r = (True, x, r)"
| "read_all (s # ss) x r =
     (case s x r of (ok, x', r') \<Rightarrow> if \<not> ok then (False, x', r') else read_all ss x' r')"

definition int_step :: "('a::len word \<Rightarrow> 's \<Rightarrow> 's) \<Rightarrow> 's reader_step" where
  "int_step upd x r =
     (case readIntegralBE r of None \<Rightarrow> (False, x, r) | Some (v, r') \<Rightarrow> (True, upd v x, r'))"

definition bool_step :: "(bool \<Rightarrow> 's \<Rightarrow> 's) \<Rightarrow> 's reader_step" where
  "bool_step upd = int_step (\<lambda>b :: u8. upd (b \<noteq> 0))"

definition float_step :: "(u32 \<Rightarrow> 's \<Rightarrow> 's) \<Rightarrow> 's reader_step" where
  "float_step upd x r =
     (case readFloat32BE r of None \<Rightarrow> (False, x, r) | Some (v, r') \<Rightarrow> (True, upd v x, r'))"

definition string_step :: "(string \<Rightarrow> 's \<Rightarrow> 's) \<Rightarrow> 's reader_step" where
  "string_step upd x r =
     (case readIntegralBE r of
        None \<Rightarrow> (False, x, r)
      | Some (n :: u16, r') \<Rightarrow>
          (case readBytes (unat n) r' of None \<Rightarrow> (False, x, r') | Some (s, r'') \<Rightarrow> (True, upd s x, r'')))"

text \<open>The element loop reads into a fresh \<open>temp\<close> and pushes it back.\<close>

fun read_elems :: "nat \<Rightarrow> 'e reader_step \<Rightarrow> 'e \<Rightarrow> 'e list \<Rightarrow> ByteReader \<Rightarrow> bool \<times> 'e list \<times> ByteReader" where
  "read_elems 0 rd temp es r = (True, es, r)"
| "read_elems (Suc n) rd temp es r =
     (case rd temp r of (ok, e, r') \<Rightarrow>
        if \<not> ok then (False, es, r') else read_elems n rd temp (es @ [e]) r')"

definition vec_step ::
    "'c::len itself \<Rightarrow> 'e reader_step \<Rightarrow> 'e \<Rightarrow> ('e list \<Rightarrow> 's \<Rightarrow> 's) \<Rightarrow> 's reader_step" where
  "vec_step _ rd temp upd x r =
     (case readIntegralBE r of
        None \<Rightarrow> (False, x, r)
      | Some (n :: 'c word, r') \<Rightarrow>
          (case read_elems (unat n) rd temp [] r' of (ok, es, r'') \<Rightarrow> (ok, upd es x, r'')))"

definition nested_step :: "'e reader_step \<Rightarrow> ('s \<Rightarrow> 'e) \<Rightarrow> ('e \<Rightarrow> 's \<Rightarrow> 's) \<Rightarrow> 's reader_step" where
  "nested_step rd get upd x r = (case rd (get x) r of (ok, e, r') \<Rightarrow> (ok, upd e x, r'))"

section \<open>Steps of a generated writer\<close>

type_synonym writer_step = "bytes \<Rightarrow> bool \<times> bytes"

primrec write_all :: "writer_step list \<Rightarrow> writer_step" where
  "write_all [] out = (True, out)"
| "write_all (w # ws) out = (case w out of (ok, out') \<Rightarrow> if \<not> ok then (False, out') else write_all ws out')"

definition int_write :: "'a::len word \<Rightarrow> writer_step" where
  "int_write v out = (True, writeIntegralBE out v)"

definition bool_write :: "bool \<Rightarrow> writer_step" where
  "bool_write b = int_write (if b then 1 else 0 :: u8)"

definition float_write :: "u32 \<Rightarrow> writer_step" where
  "float_write u out = (True, writeFloat32BE out u)"

definition string_write :: "string \<Rightarrow> writer_step" where
  "string_write s out =
     (if length s > unat (- 1 :: u16) then (False, out)
      else (True, writeIntegralBE out (of_nat (length s) :: u16) @ map char_byte s))"

definition vec_write :: "'c::len itself \<Rightarrow> ('e \<Rightarrow> writer_step) \<Rightarrow> 'e list \<Rightarrow> writer_step" where
  "vec_write _ wr es out =
     (if length es > unat (- 1 :: 'c word) then (False, out)
      else write_all (map wr es) (writeIntegralBE out (of_nat (length es) :: 'c word)))"

section \<open>SerializableObject\<close>

definition serialize :: "('s \<Rightarrow> writer_step) \<Rightarrow> 's \<Rightarrow> bytes" where
  "serialize serializeTo x = (case serializeTo x [] of (ok, out) \<Rightarrow> if \<not> ok then [] else out)"

definition deserialize :: "'s reader_step \<Rightarrow> 's \<Rightarrow> bytes \<Rightarrow> bool \<times> 's" where
  "deserialize deserializeFromReader x data =
     (case deserializeFromReader x \<lparr> br_in = data, br_pos = 0 \<rparr> of
        (ok, x', r) \<Rightarrow> if \<not> ok then (False, x') else (fullyConsumed r, x'))"

section \<open>What a step reads\<close>

text \<open>On the image \<open>img\<close>, wherever it stands, the step takes \<open>y\<close> to \<open>x\<close> and the cursor past it.\<close>

definition reads :: "'s reader_step \<Rightarrow> 's \<Rightarrow> bytes \<Rightarrow> 's \<Rightarrow> bool" where
  "reads s y img x \<longleftrightarrow> (\<forall>pre post. s y \<lparr> br_in = pre @ img @ post, br_pos = length pre \<rparr>
     = (True, x, \<lparr> br_in = pre @ img @ post, br_pos = length pre + length img \<rparr>))"

lemma readsD: "reads s y img x \<Longrightarrow>
    s y \<lparr> br_in = pre @ img @ post, br_pos = length pre \<rparr>
      = (True, x, \<lparr> br_in = pre @ img @ post, br_pos = length pre + length img \<rparr>)"
  by (simp add: reads_def)

lemma reads_Nil: "reads (read_all []) x [] x"
  by (simp add: reads_def)

lemma reads_Cons:
  assumes "reads s y a x" and "reads (read_all ss) x b z"
  shows "reads (read_all (s # ss)) y (a @ b) z"
  unfolding reads_def
proof (intro allI)
  fix pre post
  show "read_all (s # ss) y \<lparr> br_in = pre @ (a @ b) @ post, br_pos = length pre \<rparr>
      = (True, z, \<lparr> br_in = pre @ (a @ b) @ post, br_pos = length pre + length (a @ b) \<rparr>)"
    using readsD [OF assms(1), of pre "b @ post"] readsD [OF assms(2), of "pre @ a" post] by simp
qed

lemma read_int_image:
  assumes "LENGTH('a) mod 8 = 0"
  shows "readIntegralBE \<lparr> br_in = pre @ be_bytes (LENGTH('a) div 8) v @ post, br_pos = length pre \<rparr>
     = Some (v :: 'a::len word, \<lparr> br_in = pre @ be_bytes (LENGTH('a) div 8) v @ post,
                                 br_pos = length pre + LENGTH('a) div 8 \<rparr>)"
proof -
  have len: "8 * (LENGTH('a) div 8) = LENGTH('a)" using assms by auto
  then have pos: "0 < LENGTH('a) div 8" using len_gt_0 [where 'a = 'a] by (metis mult_0_right neq0_conv)
  show ?thesis
    unfolding readIntegralBE_read_be read_be_image [OF pos]
    by (simp add: subrange_append be_value_bytes len)
qed

lemma reads_int: "LENGTH('a) mod 8 = 0 \<Longrightarrow>
    reads (int_step upd) y (be_bytes (LENGTH('a) div 8) v) (upd (v :: 'a::len word) y)"
  by (simp add: reads_def int_step_def read_int_image)

lemma reads_bool: "reads (bool_step upd) y (be_bytes 1 (if b then 1 else 0 :: u8)) (upd b y)"
  using reads_int [where 'a = 8 and upd = "\<lambda>b. upd (b \<noteq> 0)" and v = 1]
    reads_int [where 'a = 8 and upd = "\<lambda>b. upd (b \<noteq> 0)" and v = 0]
  by (cases b) (simp_all add: bool_step_def)

lemma reads_float: "reads (float_step upd) y (be_bytes 4 v) (upd v y)"
  using read_int_image [where 'a = 32] by (simp add: reads_def float_step_def readFloat32BE_def)

lemma reads_string:
  assumes "length s < 2 ^ 16"
  shows "reads (string_step upd) y (be_bytes 2 (of_nat (length s) :: u16) @ map char_byte s) (upd s y)"
proof -
  have n: "unat (of_nat (length s) :: u16) = length s" using assms by (simp add: unat_of_nat)
  have "readBytes (length s) \<lparr> br_in = (pre @ i) @ map char_byte s @ post, br_pos = length (pre @ i) \<rparr>
      = Some (s, \<lparr> br_in = (pre @ i) @ map char_byte s @ post, br_pos = length (pre @ i) + length s \<rparr>)"
    for pre i post
    unfolding readBytes_def ByteReader.simps
    by (subst subrange_append) (simp_all add: remaining_def comp_def)
  from this [of _ "be_bytes 2 (of_nat (length s) :: u16)"] show ?thesis
    using read_int_image [where 'a = 16 and v = "of_nat (length s)"]
    by (simp add: reads_def string_step_def n add.assoc)
qed

lemma reads_elems:
  assumes "\<forall>e \<in> set es. reads rd temp (img e) e"
  shows "read_elems (length es) rd temp acc
      \<lparr> br_in = pre @ concat (map img es) @ post, br_pos = length pre \<rparr>
    = (True, acc @ es, \<lparr> br_in = pre @ concat (map img es) @ post,
                       br_pos = length pre + length (concat (map img es)) \<rparr>)"
  using assms
proof (induction es arbitrary: acc pre)
  case (Cons e es)
  have "rd temp \<lparr> br_in = pre @ img e @ (concat (map img es) @ post), br_pos = length pre \<rparr>
      = (True, e, \<lparr> br_in = pre @ img e @ (concat (map img es) @ post), br_pos = length pre + length (img e) \<rparr>)"
    using Cons.prems by (intro readsD) simp
  moreover have "read_elems (length es) rd temp (acc @ [e])
      \<lparr> br_in = (pre @ img e) @ concat (map img es) @ post, br_pos = length (pre @ img e) \<rparr>
    = (True, (acc @ [e]) @ es, \<lparr> br_in = (pre @ img e) @ concat (map img es) @ post,
                             br_pos = length (pre @ img e) + length (concat (map img es)) \<rparr>)"
    using Cons.prems by (intro Cons.IH) simp
  ultimately show ?case by (simp add: add.assoc)
qed simp

lemma reads_vec:
  assumes "\<forall>e \<in> set es. reads rd temp (img e) e" and "length es < 2 ^ LENGTH('c)"
    and "LENGTH('c) mod 8 = 0"
  shows "reads (vec_step TYPE('c::len) rd temp upd) y
     (be_bytes (LENGTH('c) div 8) (of_nat (length es) :: 'c word) @ concat (map img es)) (upd es y)"
  unfolding reads_def
proof (intro allI)
  fix pre post
  let ?n = "of_nat (length es) :: 'c word"
  let ?pre = "pre @ be_bytes (LENGTH('c) div 8) ?n"
  have n: "unat ?n = length es" using assms(2) by (simp add: unat_of_nat)
  have "readIntegralBE \<lparr> br_in = ?pre @ concat (map img es) @ post, br_pos = length pre \<rparr>
      = Some (?n, \<lparr> br_in = ?pre @ concat (map img es) @ post, br_pos = length ?pre \<rparr>)"
    using read_int_image [OF assms(3), of pre ?n "concat (map img es) @ post"] by simp
  then show "vec_step TYPE('c) rd temp upd y
        \<lparr> br_in = pre @ (be_bytes (LENGTH('c) div 8) ?n @ concat (map img es)) @ post, br_pos = length pre \<rparr>
      = (True, upd es y, \<lparr> br_in = pre @ (be_bytes (LENGTH('c) div 8) ?n @ concat (map img es)) @ post,
           br_pos = length pre + length (be_bytes (LENGTH('c) div 8) ?n @ concat (map img es)) \<rparr>)"
    using reads_elems [OF assms(1), of "[]" ?pre post] by (simp add: vec_step_def n)
qed

lemma reads_nested: "reads rd (get y) img e \<Longrightarrow> reads (nested_step rd get upd) y img (upd e y)"
  by (simp add: reads_def nested_step_def)

section \<open>Steps stay inside the buffer and look only at what they consume\<close>

definition local_step :: "'s reader_step \<Rightarrow> bool" where
  "local_step s \<longleftrightarrow> (\<forall>y inp pos ok x r. pos \<le> length inp \<longrightarrow> s y \<lparr> br_in = inp, br_pos = pos \<rparr> = (ok, x, r) \<longrightarrow>
     br_in r = inp \<and> pos \<le> br_pos r \<and> br_pos r \<le> length inp
     \<and> (ok \<longrightarrow> (\<forall>extra. s y \<lparr> br_in = inp @ extra, br_pos = pos \<rparr>
                     = (True, x, \<lparr> br_in = inp @ extra, br_pos = br_pos r \<rparr>))))"

lemma localD:
  assumes "local_step s" and "pos \<le> length inp" and "s y \<lparr> br_in = inp, br_pos = pos \<rparr> = (ok, x, r)"
  shows "r = \<lparr> br_in = inp, br_pos = br_pos r \<rparr>" and "pos \<le> br_pos r" and "br_pos r \<le> length inp"
    and "ok \<Longrightarrow> s y \<lparr> br_in = inp @ extra, br_pos = pos \<rparr>
                 = (True, x, \<lparr> br_in = inp @ extra, br_pos = br_pos r \<rparr>)"
proof -
  from assms have *: "br_in r = inp \<and> pos \<le> br_pos r \<and> br_pos r \<le> length inp
     \<and> (ok \<longrightarrow> (\<forall>extra. s y \<lparr> br_in = inp @ extra, br_pos = pos \<rparr>
                     = (True, x, \<lparr> br_in = inp @ extra, br_pos = br_pos r \<rparr>)))"
    unfolding local_step_def by blast
  then show "pos \<le> br_pos r" and "br_pos r \<le> length inp"
    and "ok \<Longrightarrow> s y \<lparr> br_in = inp @ extra, br_pos = pos \<rparr>
               = (True, x, \<lparr> br_in = inp @ extra, br_pos = br_pos r \<rparr>)" by auto
  from * show "r = \<lparr> br_in = inp, br_pos = br_pos r \<rparr>" by (cases r) simp
qed

lemma localI:
  assumes "\<And>y inp pos ok x r. pos \<le> length inp \<Longrightarrow> s y \<lparr> br_in = inp, br_pos = pos \<rparr> = (ok, x, r) \<Longrightarrow>
     (\<exists>n. r = \<lparr> br_in = inp, br_pos = n \<rparr> \<and> pos \<le> n \<and> n \<le> length inp
        \<and> (ok \<longrightarrow> (\<forall>extra. s y \<lparr> br_in = inp @ extra, br_pos = pos \<rparr>
                        = (True, x, \<lparr> br_in = inp @ extra, br_pos = n \<rparr>))))"
  shows "local_step s"
  unfolding local_step_def using assms by fastforce

lemma local_read_all: "list_all local_step ss \<Longrightarrow> local_step (read_all ss)"
proof (induction ss)
  case Nil
  show ?case by (rule localI) simp
next
  case (Cons s ss)
  then have s: "local_step s" and ss: "local_step (read_all ss)" by simp_all
  show ?case
  proof (rule localI)
    fix y inp pos ok x r
    assume pos: "pos \<le> length inp" and run: "read_all (s # ss) y \<lparr> br_in = inp, br_pos = pos \<rparr> = (ok, x, r)"
    obtain ok1 x1 r1 where s1: "s y \<lparr> br_in = inp, br_pos = pos \<rparr> = (ok1, x1, r1)"
      by (metis prod_cases3)
    note l1 = localD [OF s pos s1]
    show "\<exists>n. r = \<lparr> br_in = inp, br_pos = n \<rparr> \<and> pos \<le> n \<and> n \<le> length inp
        \<and> (ok \<longrightarrow> (\<forall>extra. read_all (s # ss) y \<lparr> br_in = inp @ extra, br_pos = pos \<rparr>
                        = (True, x, \<lparr> br_in = inp @ extra, br_pos = n \<rparr>)))"
    proof (cases ok1)
      case False
      with run s1 l1 show ?thesis by auto
    next
      case True
      with run s1 l1(1) have s2: "read_all ss x1 \<lparr> br_in = inp, br_pos = br_pos r1 \<rparr> = (ok, x, r)" by simp
      note l2 = localD [OF ss l1(3) s2]
      show ?thesis using l1(2,4) l2 True by (intro exI [of _ "br_pos r"]) auto
    qed
  qed
qed

lemma read_int_local:
  assumes "pos \<le> length inp"
    and "readIntegralBE \<lparr> br_in = inp, br_pos = pos \<rparr> = Some (v :: 'a::len word, r)"
  shows "r = \<lparr> br_in = inp, br_pos = pos + LENGTH('a) div 8 \<rparr>" and "pos + LENGTH('a) div 8 \<le> length inp"
    and "readIntegralBE \<lparr> br_in = inp @ extra, br_pos = pos \<rparr>
           = Some (v, \<lparr> br_in = inp @ extra, br_pos = pos + LENGTH('a) div 8 \<rparr>)"
proof -
  let ?w = "LENGTH('a) div 8"
  have le: "pos + ?w \<le> length inp" using assms by (auto simp: readIntegralBE_def remaining_def split: if_splits)
  then have enough: "\<not> length inp - pos < ?w" "\<not> length (inp @ extra) - pos < ?w" by simp_all
  from le show "pos + ?w \<le> length inp" .
  show "r = \<lparr> br_in = inp, br_pos = pos + ?w \<rparr>"
    using assms le enough by (simp add: readIntegralBE_def remaining_def read_be_loop_image)
  have "subrange (inp @ extra) pos (pos + ?w) = subrange inp pos (pos + ?w)"
    using le by (simp add: subrange_def)
  then show "readIntegralBE \<lparr> br_in = inp @ extra, br_pos = pos \<rparr>
      = Some (v, \<lparr> br_in = inp @ extra, br_pos = pos + ?w \<rparr>)"
    using assms le enough by (simp add: readIntegralBE_def remaining_def read_be_loop_image)
qed

lemma local_int [simp]: "local_step (int_step upd :: 's reader_step)"
  for upd :: "'a::len word \<Rightarrow> 's \<Rightarrow> 's"
proof (rule localI)
  fix y :: 's and inp pos ok x r
  assume pos: "pos \<le> length inp" and run: "int_step upd y \<lparr> br_in = inp, br_pos = pos \<rparr> = (ok, x, r)"
  show "\<exists>n. r = \<lparr> br_in = inp, br_pos = n \<rparr> \<and> pos \<le> n \<and> n \<le> length inp
      \<and> (ok \<longrightarrow> (\<forall>extra. int_step upd y \<lparr> br_in = inp @ extra, br_pos = pos \<rparr>
                      = (True, x, \<lparr> br_in = inp @ extra, br_pos = n \<rparr>)))"
  proof (cases "readIntegralBE \<lparr> br_in = inp, br_pos = pos \<rparr> :: ('a word \<times> ByteReader) option")
    case None
    with run pos show ?thesis by (auto simp: int_step_def)
  next
    case (Some vr)
    obtain v r' where vr: "vr = (v, r')" by fastforce
    note l = read_int_local [OF pos Some [unfolded vr]]
    show ?thesis using run Some vr l by (auto simp: int_step_def)
  qed
qed

lemma local_bool [simp]: "local_step (bool_step upd)"
  by (simp add: bool_step_def)

lemma local_float [simp]: "local_step (float_step upd)"
proof -
  have "float_step upd = int_step upd"
    by (intro ext) (simp add: float_step_def int_step_def readFloat32BE_def)
  then show ?thesis by simp
qed

lemma readBytes_local:
  assumes "pos \<le> length inp" and "readBytes n \<lparr> br_in = inp, br_pos = pos \<rparr> = Some (s, r)"
  shows "r = \<lparr> br_in = inp, br_pos = pos + n \<rparr>" and "pos + n \<le> length inp"
    and "readBytes n \<lparr> br_in = inp @ extra, br_pos = pos \<rparr> = Some (s, \<lparr> br_in = inp @ extra, br_pos = pos + n \<rparr>)"
    and "length s = n"
  using assms by (auto simp: readBytes_def remaining_def subrange_def split: if_splits)

lemma local_string [simp]: "local_step (string_step upd)"
proof (rule localI)
  fix y inp pos ok x r
  assume pos: "pos \<le> length inp" and run: "string_step upd y \<lparr> br_in = inp, br_pos = pos \<rparr> = (ok, x, r)"
  show "\<exists>n. r = \<lparr> br_in = inp, br_pos = n \<rparr> \<and> pos \<le> n \<and> n \<le> length inp
      \<and> (ok \<longrightarrow> (\<forall>extra. string_step upd y \<lparr> br_in = inp @ extra, br_pos = pos \<rparr>
                      = (True, x, \<lparr> br_in = inp @ extra, br_pos = n \<rparr>)))"
  proof (cases "readIntegralBE \<lparr> br_in = inp, br_pos = pos \<rparr> :: (u16 \<times> ByteReader) option")
    case None
    with run pos show ?thesis by (auto simp: string_step_def)
  next
    case (Some vr)
    obtain n r' where vr: "vr = (n, r')" by fastforce
    note l = read_int_local [OF pos Some [unfolded vr]]
    show ?thesis
    proof (cases "readBytes (unat n) r'")
      case None
      with run Some vr l pos show ?thesis by (auto simp: string_step_def)
    next
      case some2: (Some sr)
      obtain s r'' where sr: "sr = (s, r'')" by fastforce
      note l2 = readBytes_local [OF l(2) some2 [unfolded sr l(1)]]
      show ?thesis using run Some vr l some2 sr l2 pos by (auto simp: string_step_def)
    qed
  qed
qed

lemma local_elems:
  assumes "local_step rd" and "pos \<le> length inp"
    and "read_elems n rd temp es \<lparr> br_in = inp, br_pos = pos \<rparr> = (ok, es', r)"
  shows "\<exists>m. r = \<lparr> br_in = inp, br_pos = m \<rparr> \<and> pos \<le> m \<and> m \<le> length inp
      \<and> (ok \<longrightarrow> length es' = length es + n
           \<and> (\<forall>extra. read_elems n rd temp es \<lparr> br_in = inp @ extra, br_pos = pos \<rparr>
                   = (True, es', \<lparr> br_in = inp @ extra, br_pos = m \<rparr>)))"
  using assms(2,3)
proof (induction n arbitrary: es pos)
  case (Suc n)
  obtain ok1 e r1 where s1: "rd temp \<lparr> br_in = inp, br_pos = pos \<rparr> = (ok1, e, r1)"
    by (metis prod_cases3)
  note l1 = localD [OF assms(1) Suc.prems(1) s1]
  show ?case
  proof (cases ok1)
    case False
    with Suc.prems s1 l1 show ?thesis by auto
  next
    case True
    with Suc.prems s1 have "read_elems n rd temp (es @ [e]) \<lparr> br_in = inp, br_pos = br_pos r1 \<rparr> = (ok, es', r)"
      using l1(1) by simp
    from Suc.IH [OF l1(3) this] obtain m where "r = \<lparr> br_in = inp, br_pos = m \<rparr>" "br_pos r1 \<le> m"
      "m \<le> length inp" "ok \<longrightarrow> length es' = length (es @ [e]) + n
           \<and> (\<forall>extra. read_elems n rd temp (es @ [e]) \<lparr> br_in = inp @ extra, br_pos = br_pos r1 \<rparr>
                   = (True, es', \<lparr> br_in = inp @ extra, br_pos = m \<rparr>))" by blast
    with True l1 show ?thesis by (intro exI [of _ m]) auto
  qed
qed simp

lemma local_vec [simp]: "local_step rd \<Longrightarrow> local_step (vec_step TYPE('c::len) rd temp upd)"
proof (rule localI)
  fix y inp pos ok x r
  assume rd: "local_step rd" and pos: "pos \<le> length inp"
    and run: "vec_step TYPE('c) rd temp upd y \<lparr> br_in = inp, br_pos = pos \<rparr> = (ok, x, r)"
  show "\<exists>n. r = \<lparr> br_in = inp, br_pos = n \<rparr> \<and> pos \<le> n \<and> n \<le> length inp
      \<and> (ok \<longrightarrow> (\<forall>extra. vec_step TYPE('c) rd temp upd y \<lparr> br_in = inp @ extra, br_pos = pos \<rparr>
                      = (True, x, \<lparr> br_in = inp @ extra, br_pos = n \<rparr>)))"
  proof (cases "readIntegralBE \<lparr> br_in = inp, br_pos = pos \<rparr> :: ('c word \<times> ByteReader) option")
    case None
    with run pos show ?thesis by (auto simp: vec_step_def)
  next
    case (Some vr)
    obtain n r' where vr: "vr = (n, r')" by fastforce
    note l = read_int_local [OF pos Some [unfolded vr]]
    obtain ok2 es r2 where e: "read_elems (unat n) rd temp [] r' = (ok2, es, r2)" by (metis prod_cases3)
    from local_elems [OF rd l(2) e [unfolded l(1)]] run Some vr l e show ?thesis
      by (auto simp: vec_step_def)
  qed
qed

lemma local_nested [simp]: "local_step rd \<Longrightarrow> local_step (nested_step rd get upd)"
proof (rule localI)
  fix y inp pos ok x r
  assume rd: "local_step rd" and pos: "pos \<le> length inp"
    and run: "nested_step rd get upd y \<lparr> br_in = inp, br_pos = pos \<rparr> = (ok, x, r)"
  obtain e where e: "rd (get y) \<lparr> br_in = inp, br_pos = pos \<rparr> = (ok, e, r)" "x = upd e y"
    using run by (auto simp: nested_step_def split: prod.splits)
  note l = localD [OF rd pos e(1)]
  show "\<exists>n. r = \<lparr> br_in = inp, br_pos = n \<rparr> \<and> pos \<le> n \<and> n \<le> length inp
      \<and> (ok \<longrightarrow> (\<forall>extra. nested_step rd get upd y \<lparr> br_in = inp @ extra, br_pos = pos \<rparr>
                      = (True, x, \<lparr> br_in = inp @ extra, br_pos = n \<rparr>)))"
    using l e by (intro exI [of _ "br_pos r"]) (auto simp: nested_step_def)
qed

section \<open>Lengths that were read\<close>

lemma readBytes_length: "readBytes n r = Some (s, r') \<Longrightarrow> length s = n"
  by (auto simp: readBytes_def remaining_def subrange_def split: if_splits)

lemma read_all_ConsE:
  assumes "read_all (s # ss) x r = (True, z, r')"
  obtains y r1 where "s x r = (True, y, r1)" and "read_all ss y r1 = (True, z, r')"
  using assms by (auto split: prod.splits if_splits)

lemma int_step_upd: "int_step upd x r = (True, y, r') \<Longrightarrow> \<exists>v. y = upd v x"
  by (auto simp: int_step_def split: option.splits)

lemma bool_step_upd: "bool_step upd x r = (True, y, r') \<Longrightarrow> \<exists>v. y = upd v x"
  unfolding bool_step_def by (drule int_step_upd) blast

lemma u16_bound: "unat (n :: u16) \<le> 65535"
proof -
  have "unat n < 2 ^ LENGTH(16)" by (rule unsigned_less)
  then show ?thesis by simp
qed

lemma string_step_upd: "string_step upd x r = (True, y, r') \<Longrightarrow> \<exists>s. y = upd s x \<and> length s \<le> 65535"
  using u16_bound
  by (fastforce simp: string_step_def dest!: readBytes_length split: option.splits prod.splits)

lemma read_elems_length: "read_elems n rd temp es r = (True, es', r') \<Longrightarrow> length es' = length es + n"
  by (induction n rd temp es r rule: read_elems.induct) (auto split: prod.splits if_splits)

lemma vec_step_upd:
  "vec_step TYPE('c::len) rd temp upd x r = (True, y, r') \<Longrightarrow> \<exists>es. y = upd es x \<and> length es < 2 ^ LENGTH('c)"
  by (auto simp: vec_step_def dest!: read_elems_length split: option.splits prod.splits)

section \<open>The contract of a generated type\<close>

text \<open>
  \<open>ok\<close> says which objects can be written, \<open>image\<close> what is written for them. A reader takes the image back
  from any prior contents of the object, stays inside its buffer, looks only at what it consumes,
  and leaves only objects that can be written again.
\<close>

locale serializable =
  fixes serializeTo :: "'s \<Rightarrow> writer_step"
    and deserializeFromReader :: "'s reader_step"
    and ok :: "'s \<Rightarrow> bool"
    and image :: "'s \<Rightarrow> bytes"
  assumes writes: "ok x \<Longrightarrow> serializeTo x out = (True, out @ image x)"
    and refuses: "\<not> ok x \<Longrightarrow> \<not> fst (serializeTo x out)"
    and read_back: "ok x \<Longrightarrow> reads deserializeFromReader y (image x) x"
    and local: "local_step deserializeFromReader"
    and read_ok: "deserializeFromReader y r = (True, x, r') \<Longrightarrow> ok x"
begin

lemma serialize_ok: "ok x \<Longrightarrow> serialize serializeTo x = image x"
  by (simp add: serialize_def writes)

lemma serialize_not_ok: "\<not> ok x \<Longrightarrow> serialize serializeTo x = []"
  using refuses [of x "[]"] by (cases "serializeTo x []") (simp add: serialize_def)

lemma deserialize_image: "ok x \<Longrightarrow> deserialize deserializeFromReader y (image x) = (True, x)"
  using readsD [OF read_back, of x y "[]" "[]"] by (simp add: deserialize_def fullyConsumed_def)

lemma round_trip: "ok x \<Longrightarrow> deserialize deserializeFromReader y (serialize serializeTo x) = (True, x)"
  by (simp add: serialize_ok deserialize_image)

text \<open>The frame is exact: with bytes after it, or cut short, it is refused.\<close>

lemma refuses_longer:
  assumes "ok x" and "extra \<noteq> []"
  shows "\<not> fst (deserialize deserializeFromReader y (image x @ extra))"
  using readsD [OF read_back [OF assms(1)], of y "[]" extra] assms(2)
  by (simp add: deserialize_def fullyConsumed_def)

lemma refuses_shorter:
  assumes "ok x" and "image x = short @ rest" and "rest \<noteq> []"
  shows "\<not> fst (deserialize deserializeFromReader y short)"
proof
  assume "fst (deserialize deserializeFromReader y short)"
  then obtain x' r where run: "deserializeFromReader y \<lparr> br_in = short, br_pos = 0 \<rparr> = (True, x', r)"
    and full: "fullyConsumed r"
    by (auto simp: deserialize_def split: prod.splits if_splits)
  note l = localD [OF local _ run]
  from l(1) full have pos: "br_pos r = length short" by (cases r) (auto simp: fullyConsumed_def)
  have "deserializeFromReader y \<lparr> br_in = short @ rest, br_pos = 0 \<rparr>
      = (True, x', \<lparr> br_in = short @ rest, br_pos = length short \<rparr>)"
    using l(4) pos by simp
  moreover have "deserializeFromReader y \<lparr> br_in = short @ rest, br_pos = 0 \<rparr>
      = (True, x, \<lparr> br_in = short @ rest, br_pos = length (image x) \<rparr>)"
    using readsD [OF read_back [OF assms(1)], of y "[]" "[]"] assms(2) by simp
  ultimately show False using assms(2,3) by simp
qed

text \<open>What was decoded can be written and decoded again to the same object.\<close>

lemma decoded_again:
  assumes "deserialize deserializeFromReader y data = (True, x)"
  shows "ok x" and "deserialize deserializeFromReader z (serialize serializeTo x) = (True, x)"
proof -
  show "ok x" using assms read_ok by (auto simp: deserialize_def split: prod.splits if_splits)
  then show "deserialize deserializeFromReader z (serialize serializeTo x) = (True, x)"
    by (rule round_trip)
qed

text \<open>No cursor ever leaves its buffer, on success or on failure.\<close>

lemma cursor_in_buffer:
  "deserializeFromReader y \<lparr> br_in = data, br_pos = 0 \<rparr> = (b, x, r) \<Longrightarrow> br_in r = data \<and> br_pos r \<le> length data"
  using localD [OF local, of 0 data y b x r] by (cases r) auto

end

section \<open>What the writers write\<close>

lemma write_all_images:
  "\<forall>e \<in> set es. \<forall>out. wr e out = (True, out @ img e) \<Longrightarrow>
     write_all (map wr es) out = (True, out @ concat (map img es))"
  by (induction es arbitrary: out) simp_all

lemma max_u16: "unat (- 1 :: u16) = 65535"
  by (simp add: unsigned_minus_1_eq_mask mask_eq_exp_minus_1)

lemma max_u8: "unat (- 1 :: u8) = 255"
  by (simp add: unsigned_minus_1_eq_mask mask_eq_exp_minus_1)

end
