(* ===== verification/Vehicle_Params.thy ===== *)
theory Vehicle_Params
  imports Idl_Codec
begin

text \<open>
  The generated parameter types (\<open>tools/someip_idl/generated\<close>), each with its
  \<open>serializeTo\<close> and \<open>deserializeFromReader\<close> as the list of its statements, and its contract as
  an interpretation of \<open>serializable\<close>. Signed integers are words (two's complement), floats bit
  patterns. The types of the namespace \<open>params\<close>, generated by an earlier version and used by the
  demos, have the layout of their namesakes in \<open>vehicle\<close>.
\<close>

section \<open>WheelInfo\<close>

record WheelInfo =
  wheelId :: u8
  pressureKpa :: u16
  temperatureC :: u16

definition serialize_WheelInfo :: "WheelInfo \<Rightarrow> writer_step" where
  "serialize_WheelInfo x = write_all
     [int_write (wheelId x), int_write (pressureKpa x), int_write (temperatureC x)]"

definition read_WheelInfo :: "WheelInfo reader_step" where
  "read_WheelInfo = read_all
     [int_step (\<lambda>v. wheelId_update (\<lambda>_. v)),
      int_step (\<lambda>v. pressureKpa_update (\<lambda>_. v)),
      int_step (\<lambda>v. temperatureC_update (\<lambda>_. v))]"

definition image_WheelInfo :: "WheelInfo \<Rightarrow> bytes" where
  "image_WheelInfo x = be_bytes 1 (wheelId x) @ be_bytes 2 (pressureKpa x) @ be_bytes 2 (temperatureC x)"

text \<open>The \<open>temp\<close> of the element loop has indeterminate fields; all are overwritten before it is
  used, so their initial values do not matter.\<close>

definition temp_WheelInfo :: WheelInfo where
  "temp_WheelInfo = \<lparr> wheelId = 0, pressureKpa = 0, temperatureC = 0 \<rparr>"

lemma read_WheelInfo_any:
  "read_WheelInfo y r = (True, x, r') \<Longrightarrow> read_WheelInfo z r = (True, x, r')"
  by (cases y; cases z) (auto simp: read_WheelInfo_def int_step_def split: option.splits)

lemma length_image_WheelInfo [simp]: "length (image_WheelInfo x) = 5"
  by (simp add: image_WheelInfo_def)

lemma serialize_WheelInfo_image: "serialize_WheelInfo x out = (True, out @ image_WheelInfo x)"
  by (simp add: serialize_WheelInfo_def image_WheelInfo_def int_write_def)

lemma reads_int_1: "reads (int_step upd) y (be_bytes 1 (v :: u8)) (upd v y)"
  using reads_int [where 'a = 8] by simp

lemma reads_int_2: "reads (int_step upd) y (be_bytes 2 (v :: u16)) (upd v y)"
  using reads_int [where 'a = 16] by simp

lemma reads_int_4: "reads (int_step upd) y (be_bytes 4 (v :: u32)) (upd v y)"
  using reads_int [where 'a = 32] by simp

lemmas reads_intros = reads_Cons reads_Nil reads_int_1 reads_int_2 reads_int_4 reads_bool reads_float

lemma reads_WheelInfo: "reads read_WheelInfo y (image_WheelInfo x) x"
proof -
  have "reads read_WheelInfo y
      (be_bytes 1 (wheelId x) @ be_bytes 2 (pressureKpa x) @ be_bytes 2 (temperatureC x) @ [])
      (temperatureC_update (\<lambda>_. temperatureC x) (pressureKpa_update (\<lambda>_. pressureKpa x)
        (wheelId_update (\<lambda>_. wheelId x) y)))"
    unfolding read_WheelInfo_def by (rule reads_intros)+
  then show ?thesis by (cases x; cases y) (simp add: image_WheelInfo_def)
qed

lemma local_WheelInfo [simp]: "local_step read_WheelInfo"
  by (simp add: read_WheelInfo_def local_read_all)

interpretation WheelInfo: serializable serialize_WheelInfo read_WheelInfo "\<lambda>_. True" image_WheelInfo
  by unfold_locales (simp_all add: serialize_WheelInfo_image reads_WheelInfo)

section \<open>VehicleStatus\<close>

record VehicleStatus =
  vin :: string
  speedKph :: u16
  engineRpm :: u32
  doorOpen :: bool
  wheels :: "WheelInfo list"
  accelHistory :: "u32 list"

definition serialize_VehicleStatus :: "VehicleStatus \<Rightarrow> writer_step" where
  "serialize_VehicleStatus x = write_all
     [string_write (vin x), int_write (speedKph x), int_write (engineRpm x), bool_write (doorOpen x),
      vec_write TYPE(8) serialize_WheelInfo (wheels x),
      vec_write TYPE(16) float_write (accelHistory x)]"

definition read_VehicleStatus :: "VehicleStatus reader_step" where
  "read_VehicleStatus = read_all
     [string_step (\<lambda>v. vin_update (\<lambda>_. v)),
      int_step (\<lambda>v. speedKph_update (\<lambda>_. v)),
      int_step (\<lambda>v. engineRpm_update (\<lambda>_. v)),
      bool_step (\<lambda>v. doorOpen_update (\<lambda>_. v)),
      vec_step TYPE(8) read_WheelInfo temp_WheelInfo (\<lambda>v. wheels_update (\<lambda>_. v)),
      vec_step TYPE(16) (float_step (\<lambda>v _. v)) 0 (\<lambda>v. accelHistory_update (\<lambda>_. v))]"

definition VehicleStatus_ok :: "VehicleStatus \<Rightarrow> bool" where
  "VehicleStatus_ok x \<longleftrightarrow> length (vin x) \<le> 65535 \<and> length (wheels x) \<le> 255 \<and> length (accelHistory x) \<le> 65535"

definition image_string :: "string \<Rightarrow> bytes" where
  "image_string s = be_bytes 2 (of_nat (length s) :: u16) @ map char_byte s"

definition image_VehicleStatus :: "VehicleStatus \<Rightarrow> bytes" where
  "image_VehicleStatus x =
     image_string (vin x) @ be_bytes 2 (speedKph x) @ be_bytes 4 (engineRpm x)
     @ be_bytes 1 (if doorOpen x then 1 else 0 :: u8)
     @ (be_bytes 1 (of_nat (length (wheels x)) :: u8) @ concat (map image_WheelInfo (wheels x)))
     @ (be_bytes 2 (of_nat (length (accelHistory x)) :: u16) @ concat (map (be_bytes 4) (accelHistory x)))"

lemma string_write_image: "length s \<le> 65535 \<Longrightarrow> string_write s out = (True, out @ image_string s)"
  by (simp add: string_write_def image_string_def max_u16)

lemma reads_image_string: "length s \<le> 65535 \<Longrightarrow> reads (string_step upd) y (image_string s) (upd s y)"
  using reads_string [of s] by (simp add: image_string_def)

lemma wheels_write_image:
  "length es \<le> 255 \<Longrightarrow> vec_write TYPE(8) serialize_WheelInfo es out =
     (True, out @ be_bytes 1 (of_nat (length es) :: u8) @ concat (map image_WheelInfo es))"
  by (simp add: vec_write_def max_u8 write_all_images [where img = image_WheelInfo] serialize_WheelInfo_image)

lemma floats_write_image:
  "length es \<le> 65535 \<Longrightarrow> vec_write TYPE(16) float_write es out =
     (True, out @ be_bytes 2 (of_nat (length es) :: u16) @ concat (map (be_bytes 4) es))"
  by (simp add: vec_write_def max_u16 write_all_images [where img = "be_bytes 4"] float_write_def
      writeFloat32BE_def)

lemma serialize_VehicleStatus_image:
  "VehicleStatus_ok x \<Longrightarrow> serialize_VehicleStatus x out = (True, out @ image_VehicleStatus x)"
  by (simp add: serialize_VehicleStatus_def image_VehicleStatus_def VehicleStatus_ok_def string_write_image
      wheels_write_image floats_write_image int_write_def bool_write_def)

lemma serialize_VehicleStatus_refused:
  "\<not> VehicleStatus_ok x \<Longrightarrow> \<not> fst (serialize_VehicleStatus x out)"
proof -
  assume "\<not> VehicleStatus_ok x"
  then consider "length (vin x) > 65535" | "length (vin x) \<le> 65535" "length (wheels x) > 255"
    | "length (vin x) \<le> 65535" "length (wheels x) \<le> 255" "length (accelHistory x) > 65535"
    by (fastforce simp: VehicleStatus_ok_def not_le)
  then show ?thesis
    by cases (simp_all add: serialize_VehicleStatus_def string_write_image wheels_write_image
        int_write_def bool_write_def, simp_all add: string_write_def vec_write_def max_u16 max_u8)
qed

lemma reads_VehicleStatus: "VehicleStatus_ok x \<Longrightarrow> reads read_VehicleStatus y (image_VehicleStatus x) x"
proof -
  assume ok: "VehicleStatus_ok x"
  have vin: "reads (string_step upd) z (image_string (vin x)) (upd (vin x) z)" for upd :: "_ \<Rightarrow> VehicleStatus \<Rightarrow> _" and z
    using ok by (intro reads_image_string) (simp add: VehicleStatus_ok_def)
  have wheels: "reads (vec_step TYPE(8) read_WheelInfo temp_WheelInfo upd) z
      (be_bytes 1 (of_nat (length (wheels x)) :: u8) @ concat (map image_WheelInfo (wheels x))) (upd (wheels x) z)"
    for upd :: "_ \<Rightarrow> VehicleStatus \<Rightarrow> _" and z
    using reads_vec [where 'c = 8 and es = "wheels x" and img = image_WheelInfo and rd = read_WheelInfo] ok
    by (simp add: reads_WheelInfo VehicleStatus_ok_def)
  have floats: "reads (vec_step TYPE(16) (float_step (\<lambda>v _. v)) 0 upd) z
      (be_bytes 2 (of_nat (length (accelHistory x)) :: u16) @ concat (map (be_bytes 4) (accelHistory x)))
      (upd (accelHistory x) z)"
    for upd :: "_ \<Rightarrow> VehicleStatus \<Rightarrow> _" and z
    using reads_vec [where 'c = 16 and es = "accelHistory x" and img = "be_bytes 4"
        and rd = "float_step (\<lambda>v _. v)" and temp = 0] ok reads_float [where upd = "\<lambda>v _. v" and y = 0]
    by (simp add: VehicleStatus_ok_def)
  have "reads read_VehicleStatus y (image_string (vin x) @ be_bytes 2 (speedKph x) @ be_bytes 4 (engineRpm x)
     @ be_bytes 1 (if doorOpen x then 1 else 0 :: u8)
     @ (be_bytes 1 (of_nat (length (wheels x)) :: u8) @ concat (map image_WheelInfo (wheels x)))
     @ (be_bytes 2 (of_nat (length (accelHistory x)) :: u16) @ concat (map (be_bytes 4) (accelHistory x))) @ [])
     (accelHistory_update (\<lambda>_. accelHistory x) (wheels_update (\<lambda>_. wheels x) (doorOpen_update (\<lambda>_. doorOpen x)
       (engineRpm_update (\<lambda>_. engineRpm x) (speedKph_update (\<lambda>_. speedKph x) (vin_update (\<lambda>_. vin x) y))))))"
    unfolding read_VehicleStatus_def by (rule reads_intros vin wheels floats)+
  then show ?thesis by (cases x; cases y) (simp add: image_VehicleStatus_def)
qed

lemma local_VehicleStatus [simp]: "local_step read_VehicleStatus"
  by (simp add: read_VehicleStatus_def local_read_all)

lemma read_VehicleStatus_ok: "read_VehicleStatus y r = (True, x, r') \<Longrightarrow> VehicleStatus_ok x"
  unfolding read_VehicleStatus_def
  by (elim read_all_ConsE)
    (auto simp: VehicleStatus_ok_def dest!: string_step_upd int_step_upd bool_step_upd vec_step_upd)

interpretation VehicleStatus: serializable serialize_VehicleStatus read_VehicleStatus VehicleStatus_ok
    image_VehicleStatus
  by unfold_locales
    (simp_all add: serialize_VehicleStatus_image serialize_VehicleStatus_refused reads_VehicleStatus
      read_VehicleStatus_ok)

section \<open>Requests\<close>

text \<open>Both requests are an id and a string, all responses and events an id and a status.\<close>

lemma tagged_string_write:
  "length s \<le> 65535 \<Longrightarrow> write_all [int_write (n :: u32), string_write s] out
     = (True, out @ be_bytes 4 n @ image_string s)"
  by (simp add: int_write_def string_write_image)

lemma tagged_string_refused:
  "\<not> length s \<le> 65535 \<Longrightarrow> \<not> fst (write_all [int_write (n :: u32), string_write s] out)"
  by (simp add: int_write_def string_write_def max_u16)

lemma reads_tagged_string:
  assumes "length s \<le> 65535" and "us s (ui (n :: u32) y) = x"
  shows "reads (read_all [int_step ui, string_step us]) y (be_bytes 4 n @ image_string s) x"
proof -
  have "reads (read_all [int_step ui, string_step us]) y (be_bytes 4 n @ image_string s @ []) (us s (ui n y))"
    by (rule reads_intros reads_image_string [OF assms(1)])+
  with assms(2) show ?thesis by simp
qed

text \<open>The request of \<open>GetVehicleInfo\<close>.\<close>

record GetVehicleInfoRequest =
  gi_requestId :: u32
  gi_targetVin :: string

definition serialize_GetVehicleInfoRequest :: "GetVehicleInfoRequest \<Rightarrow> writer_step" where
  "serialize_GetVehicleInfoRequest x = write_all [int_write (gi_requestId x), string_write (gi_targetVin x)]"

definition read_GetVehicleInfoRequest :: "GetVehicleInfoRequest reader_step" where
  "read_GetVehicleInfoRequest = read_all
     [int_step (\<lambda>v. gi_requestId_update (\<lambda>_. v)), string_step (\<lambda>v. gi_targetVin_update (\<lambda>_. v))]"

definition GetVehicleInfoRequest_ok :: "GetVehicleInfoRequest \<Rightarrow> bool" where
  "GetVehicleInfoRequest_ok x \<longleftrightarrow> length (gi_targetVin x) \<le> 65535"

definition image_GetVehicleInfoRequest :: "GetVehicleInfoRequest \<Rightarrow> bytes" where
  "image_GetVehicleInfoRequest x = be_bytes 4 (gi_requestId x) @ image_string (gi_targetVin x)"

interpretation GetVehicleInfoRequest: serializable serialize_GetVehicleInfoRequest read_GetVehicleInfoRequest
    GetVehicleInfoRequest_ok image_GetVehicleInfoRequest
proof
  show "serialize_GetVehicleInfoRequest x out = (True, out @ image_GetVehicleInfoRequest x)" if "GetVehicleInfoRequest_ok x" for x out
    using that unfolding serialize_GetVehicleInfoRequest_def image_GetVehicleInfoRequest_def GetVehicleInfoRequest_ok_def by (rule tagged_string_write)
  show "\<not> fst (serialize_GetVehicleInfoRequest x out)" if "\<not> GetVehicleInfoRequest_ok x" for x out
    using that unfolding serialize_GetVehicleInfoRequest_def GetVehicleInfoRequest_ok_def by (rule tagged_string_refused)
  show "reads read_GetVehicleInfoRequest y (image_GetVehicleInfoRequest x) x" if "GetVehicleInfoRequest_ok x" for x y
    unfolding read_GetVehicleInfoRequest_def image_GetVehicleInfoRequest_def
    using that by (intro reads_tagged_string) (simp_all add: GetVehicleInfoRequest_ok_def)
  show "local_step read_GetVehicleInfoRequest"
    by (simp add: read_GetVehicleInfoRequest_def local_read_all)
  show "GetVehicleInfoRequest_ok x" if "read_GetVehicleInfoRequest y r = (True, x, r')" for x y r r'
    using that unfolding read_GetVehicleInfoRequest_def
    by (elim read_all_ConsE) (auto simp: GetVehicleInfoRequest_ok_def dest!: string_step_upd int_step_upd)
qed

text \<open>The request of the demos (namespace \<open>params\<close>).\<close>

record GetVehicleStatusRequest =
  gs_requestId :: u32
  gs_targetVin :: string

definition serialize_GetVehicleStatusRequest :: "GetVehicleStatusRequest \<Rightarrow> writer_step" where
  "serialize_GetVehicleStatusRequest x = write_all [int_write (gs_requestId x), string_write (gs_targetVin x)]"

definition read_GetVehicleStatusRequest :: "GetVehicleStatusRequest reader_step" where
  "read_GetVehicleStatusRequest = read_all
     [int_step (\<lambda>v. gs_requestId_update (\<lambda>_. v)), string_step (\<lambda>v. gs_targetVin_update (\<lambda>_. v))]"

definition GetVehicleStatusRequest_ok :: "GetVehicleStatusRequest \<Rightarrow> bool" where
  "GetVehicleStatusRequest_ok x \<longleftrightarrow> length (gs_targetVin x) \<le> 65535"

definition image_GetVehicleStatusRequest :: "GetVehicleStatusRequest \<Rightarrow> bytes" where
  "image_GetVehicleStatusRequest x = be_bytes 4 (gs_requestId x) @ image_string (gs_targetVin x)"

interpretation GetVehicleStatusRequest: serializable serialize_GetVehicleStatusRequest read_GetVehicleStatusRequest
    GetVehicleStatusRequest_ok image_GetVehicleStatusRequest
proof
  show "serialize_GetVehicleStatusRequest x out = (True, out @ image_GetVehicleStatusRequest x)" if "GetVehicleStatusRequest_ok x" for x out
    using that unfolding serialize_GetVehicleStatusRequest_def image_GetVehicleStatusRequest_def GetVehicleStatusRequest_ok_def by (rule tagged_string_write)
  show "\<not> fst (serialize_GetVehicleStatusRequest x out)" if "\<not> GetVehicleStatusRequest_ok x" for x out
    using that unfolding serialize_GetVehicleStatusRequest_def GetVehicleStatusRequest_ok_def by (rule tagged_string_refused)
  show "reads read_GetVehicleStatusRequest y (image_GetVehicleStatusRequest x) x" if "GetVehicleStatusRequest_ok x" for x y
    unfolding read_GetVehicleStatusRequest_def image_GetVehicleStatusRequest_def
    using that by (intro reads_tagged_string) (simp_all add: GetVehicleStatusRequest_ok_def)
  show "local_step read_GetVehicleStatusRequest"
    by (simp add: read_GetVehicleStatusRequest_def local_read_all)
  show "GetVehicleStatusRequest_ok x" if "read_GetVehicleStatusRequest y r = (True, x, r')" for x y r r'
    using that unfolding read_GetVehicleStatusRequest_def
    by (elim read_all_ConsE) (auto simp: GetVehicleStatusRequest_ok_def dest!: string_step_upd int_step_upd)
qed

section \<open>Responses and events with a status\<close>

lemma tagged_status_write:
  "VehicleStatus_ok s \<Longrightarrow> write_all [int_write (n :: u32), serialize_VehicleStatus s] out
     = (True, out @ be_bytes 4 n @ image_VehicleStatus s)"
  by (simp add: int_write_def serialize_VehicleStatus_image)

lemma tagged_status_refused:
  "\<not> VehicleStatus_ok s \<Longrightarrow> \<not> fst (write_all [int_write (n :: u32), serialize_VehicleStatus s] out)"
  using serialize_VehicleStatus_refused [of s "out @ be_bytes 4 n"]
  by (cases "serialize_VehicleStatus s (out @ be_bytes 4 n)") (simp add: int_write_def)

lemma reads_tagged_status:
  assumes "VehicleStatus_ok s" and "us s (ui (n :: u32) y) = x"
  shows "reads (read_all [int_step ui, nested_step read_VehicleStatus get us]) y
           (be_bytes 4 n @ image_VehicleStatus s) x"
proof -
  have "reads (read_all [int_step ui, nested_step read_VehicleStatus get us]) y
      (be_bytes 4 n @ image_VehicleStatus s @ []) (us s (ui n y))"
    by (rule reads_intros reads_nested reads_VehicleStatus assms(1))+
  with assms(2) show ?thesis by simp
qed

lemma nested_status_upd:
  "nested_step read_VehicleStatus get upd x r = (True, y, r') \<Longrightarrow> \<exists>s. y = upd s x \<and> VehicleStatus_ok s"
  by (auto simp: nested_step_def dest: read_VehicleStatus_ok split: prod.splits)

text \<open>The response of \<open>GetVehicleInfo\<close>.\<close>

record GetVehicleInfoResponse =
  gir_requestId :: u32
  gir_status :: VehicleStatus

definition serialize_GetVehicleInfoResponse :: "GetVehicleInfoResponse \<Rightarrow> writer_step" where
  "serialize_GetVehicleInfoResponse x = write_all [int_write (gir_requestId x), serialize_VehicleStatus (gir_status x)]"

definition read_GetVehicleInfoResponse :: "GetVehicleInfoResponse reader_step" where
  "read_GetVehicleInfoResponse = read_all
     [int_step (\<lambda>v. gir_requestId_update (\<lambda>_. v)),
      nested_step read_VehicleStatus gir_status (\<lambda>v. gir_status_update (\<lambda>_. v))]"

definition GetVehicleInfoResponse_ok :: "GetVehicleInfoResponse \<Rightarrow> bool" where
  "GetVehicleInfoResponse_ok x \<longleftrightarrow> VehicleStatus_ok (gir_status x)"

definition image_GetVehicleInfoResponse :: "GetVehicleInfoResponse \<Rightarrow> bytes" where
  "image_GetVehicleInfoResponse x = be_bytes 4 (gir_requestId x) @ image_VehicleStatus (gir_status x)"

interpretation GetVehicleInfoResponse: serializable serialize_GetVehicleInfoResponse read_GetVehicleInfoResponse
    GetVehicleInfoResponse_ok image_GetVehicleInfoResponse
proof
  show "serialize_GetVehicleInfoResponse x out = (True, out @ image_GetVehicleInfoResponse x)" if "GetVehicleInfoResponse_ok x" for x out
    using that unfolding serialize_GetVehicleInfoResponse_def image_GetVehicleInfoResponse_def GetVehicleInfoResponse_ok_def by (rule tagged_status_write)
  show "\<not> fst (serialize_GetVehicleInfoResponse x out)" if "\<not> GetVehicleInfoResponse_ok x" for x out
    using that unfolding serialize_GetVehicleInfoResponse_def GetVehicleInfoResponse_ok_def by (rule tagged_status_refused)
  show "reads read_GetVehicleInfoResponse y (image_GetVehicleInfoResponse x) x" if "GetVehicleInfoResponse_ok x" for x y
    unfolding read_GetVehicleInfoResponse_def image_GetVehicleInfoResponse_def
    using that by (intro reads_tagged_status) (simp_all add: GetVehicleInfoResponse_ok_def)
  show "local_step read_GetVehicleInfoResponse"
    by (simp add: read_GetVehicleInfoResponse_def local_read_all)
  show "GetVehicleInfoResponse_ok x" if "read_GetVehicleInfoResponse y r = (True, x, r')" for x y r r'
    using that unfolding read_GetVehicleInfoResponse_def
    by (elim read_all_ConsE) (auto simp: GetVehicleInfoResponse_ok_def dest!: nested_status_upd int_step_upd)
qed

text \<open>The response of the demos (namespace \<open>params\<close>).\<close>

record GetVehicleStatusResponse =
  gsr_requestId :: u32
  gsr_status :: VehicleStatus

definition serialize_GetVehicleStatusResponse :: "GetVehicleStatusResponse \<Rightarrow> writer_step" where
  "serialize_GetVehicleStatusResponse x = write_all [int_write (gsr_requestId x), serialize_VehicleStatus (gsr_status x)]"

definition read_GetVehicleStatusResponse :: "GetVehicleStatusResponse reader_step" where
  "read_GetVehicleStatusResponse = read_all
     [int_step (\<lambda>v. gsr_requestId_update (\<lambda>_. v)),
      nested_step read_VehicleStatus gsr_status (\<lambda>v. gsr_status_update (\<lambda>_. v))]"

definition GetVehicleStatusResponse_ok :: "GetVehicleStatusResponse \<Rightarrow> bool" where
  "GetVehicleStatusResponse_ok x \<longleftrightarrow> VehicleStatus_ok (gsr_status x)"

definition image_GetVehicleStatusResponse :: "GetVehicleStatusResponse \<Rightarrow> bytes" where
  "image_GetVehicleStatusResponse x = be_bytes 4 (gsr_requestId x) @ image_VehicleStatus (gsr_status x)"

interpretation GetVehicleStatusResponse: serializable serialize_GetVehicleStatusResponse read_GetVehicleStatusResponse
    GetVehicleStatusResponse_ok image_GetVehicleStatusResponse
proof
  show "serialize_GetVehicleStatusResponse x out = (True, out @ image_GetVehicleStatusResponse x)" if "GetVehicleStatusResponse_ok x" for x out
    using that unfolding serialize_GetVehicleStatusResponse_def image_GetVehicleStatusResponse_def GetVehicleStatusResponse_ok_def by (rule tagged_status_write)
  show "\<not> fst (serialize_GetVehicleStatusResponse x out)" if "\<not> GetVehicleStatusResponse_ok x" for x out
    using that unfolding serialize_GetVehicleStatusResponse_def GetVehicleStatusResponse_ok_def by (rule tagged_status_refused)
  show "reads read_GetVehicleStatusResponse y (image_GetVehicleStatusResponse x) x" if "GetVehicleStatusResponse_ok x" for x y
    unfolding read_GetVehicleStatusResponse_def image_GetVehicleStatusResponse_def
    using that by (intro reads_tagged_status) (simp_all add: GetVehicleStatusResponse_ok_def)
  show "local_step read_GetVehicleStatusResponse"
    by (simp add: read_GetVehicleStatusResponse_def local_read_all)
  show "GetVehicleStatusResponse_ok x" if "read_GetVehicleStatusResponse y r = (True, x, r')" for x y r r'
    using that unfolding read_GetVehicleStatusResponse_def
    by (elim read_all_ConsE) (auto simp: GetVehicleStatusResponse_ok_def dest!: nested_status_upd int_step_upd)
qed

text \<open>The event of the vehicle information service.\<close>

record VehicleInfoChangedEvent =
  vic_eventSequence :: u32
  vic_status :: VehicleStatus

definition serialize_VehicleInfoChangedEvent :: "VehicleInfoChangedEvent \<Rightarrow> writer_step" where
  "serialize_VehicleInfoChangedEvent x = write_all [int_write (vic_eventSequence x), serialize_VehicleStatus (vic_status x)]"

definition read_VehicleInfoChangedEvent :: "VehicleInfoChangedEvent reader_step" where
  "read_VehicleInfoChangedEvent = read_all
     [int_step (\<lambda>v. vic_eventSequence_update (\<lambda>_. v)),
      nested_step read_VehicleStatus vic_status (\<lambda>v. vic_status_update (\<lambda>_. v))]"

definition VehicleInfoChangedEvent_ok :: "VehicleInfoChangedEvent \<Rightarrow> bool" where
  "VehicleInfoChangedEvent_ok x \<longleftrightarrow> VehicleStatus_ok (vic_status x)"

definition image_VehicleInfoChangedEvent :: "VehicleInfoChangedEvent \<Rightarrow> bytes" where
  "image_VehicleInfoChangedEvent x = be_bytes 4 (vic_eventSequence x) @ image_VehicleStatus (vic_status x)"

interpretation VehicleInfoChangedEvent: serializable serialize_VehicleInfoChangedEvent read_VehicleInfoChangedEvent
    VehicleInfoChangedEvent_ok image_VehicleInfoChangedEvent
proof
  show "serialize_VehicleInfoChangedEvent x out = (True, out @ image_VehicleInfoChangedEvent x)" if "VehicleInfoChangedEvent_ok x" for x out
    using that unfolding serialize_VehicleInfoChangedEvent_def image_VehicleInfoChangedEvent_def VehicleInfoChangedEvent_ok_def by (rule tagged_status_write)
  show "\<not> fst (serialize_VehicleInfoChangedEvent x out)" if "\<not> VehicleInfoChangedEvent_ok x" for x out
    using that unfolding serialize_VehicleInfoChangedEvent_def VehicleInfoChangedEvent_ok_def by (rule tagged_status_refused)
  show "reads read_VehicleInfoChangedEvent y (image_VehicleInfoChangedEvent x) x" if "VehicleInfoChangedEvent_ok x" for x y
    unfolding read_VehicleInfoChangedEvent_def image_VehicleInfoChangedEvent_def
    using that by (intro reads_tagged_status) (simp_all add: VehicleInfoChangedEvent_ok_def)
  show "local_step read_VehicleInfoChangedEvent"
    by (simp add: read_VehicleInfoChangedEvent_def local_read_all)
  show "VehicleInfoChangedEvent_ok x" if "read_VehicleInfoChangedEvent y r = (True, x, r')" for x y r r'
    using that unfolding read_VehicleInfoChangedEvent_def
    by (elim read_all_ConsE) (auto simp: VehicleInfoChangedEvent_ok_def dest!: nested_status_upd int_step_upd)
qed

text \<open>The event of the demos (namespace \<open>params\<close>).\<close>

record VehicleStatusEvent =
  vse_eventSequence :: u32
  vse_status :: VehicleStatus

definition serialize_VehicleStatusEvent :: "VehicleStatusEvent \<Rightarrow> writer_step" where
  "serialize_VehicleStatusEvent x = write_all [int_write (vse_eventSequence x), serialize_VehicleStatus (vse_status x)]"

definition read_VehicleStatusEvent :: "VehicleStatusEvent reader_step" where
  "read_VehicleStatusEvent = read_all
     [int_step (\<lambda>v. vse_eventSequence_update (\<lambda>_. v)),
      nested_step read_VehicleStatus vse_status (\<lambda>v. vse_status_update (\<lambda>_. v))]"

definition VehicleStatusEvent_ok :: "VehicleStatusEvent \<Rightarrow> bool" where
  "VehicleStatusEvent_ok x \<longleftrightarrow> VehicleStatus_ok (vse_status x)"

definition image_VehicleStatusEvent :: "VehicleStatusEvent \<Rightarrow> bytes" where
  "image_VehicleStatusEvent x = be_bytes 4 (vse_eventSequence x) @ image_VehicleStatus (vse_status x)"

interpretation VehicleStatusEvent: serializable serialize_VehicleStatusEvent read_VehicleStatusEvent
    VehicleStatusEvent_ok image_VehicleStatusEvent
proof
  show "serialize_VehicleStatusEvent x out = (True, out @ image_VehicleStatusEvent x)" if "VehicleStatusEvent_ok x" for x out
    using that unfolding serialize_VehicleStatusEvent_def image_VehicleStatusEvent_def VehicleStatusEvent_ok_def by (rule tagged_status_write)
  show "\<not> fst (serialize_VehicleStatusEvent x out)" if "\<not> VehicleStatusEvent_ok x" for x out
    using that unfolding serialize_VehicleStatusEvent_def VehicleStatusEvent_ok_def by (rule tagged_status_refused)
  show "reads read_VehicleStatusEvent y (image_VehicleStatusEvent x) x" if "VehicleStatusEvent_ok x" for x y
    unfolding read_VehicleStatusEvent_def image_VehicleStatusEvent_def
    using that by (intro reads_tagged_status) (simp_all add: VehicleStatusEvent_ok_def)
  show "local_step read_VehicleStatusEvent"
    by (simp add: read_VehicleStatusEvent_def local_read_all)
  show "VehicleStatusEvent_ok x" if "read_VehicleStatusEvent y r = (True, x, r')" for x y r r'
    using that unfolding read_VehicleStatusEvent_def
    by (elim read_all_ConsE) (auto simp: VehicleStatusEvent_ok_def dest!: nested_status_upd int_step_upd)
qed

section \<open>Cruise control\<close>

record SetCruiseSpeedRequest =
  targetSpeedKph :: u16

definition serialize_SetCruiseSpeedRequest :: "SetCruiseSpeedRequest \<Rightarrow> writer_step" where
  "serialize_SetCruiseSpeedRequest x = write_all [int_write (targetSpeedKph x)]"

definition read_SetCruiseSpeedRequest :: "SetCruiseSpeedRequest reader_step" where
  "read_SetCruiseSpeedRequest = read_all [int_step (\<lambda>v. targetSpeedKph_update (\<lambda>_. v))]"

definition image_SetCruiseSpeedRequest :: "SetCruiseSpeedRequest \<Rightarrow> bytes" where
  "image_SetCruiseSpeedRequest x = be_bytes 2 (targetSpeedKph x)"

lemma reads_SetCruiseSpeedRequest: "reads read_SetCruiseSpeedRequest y (image_SetCruiseSpeedRequest x) x"
proof -
  have "reads read_SetCruiseSpeedRequest y (be_bytes 2 (targetSpeedKph x) @ [])
      (targetSpeedKph_update (\<lambda>_. targetSpeedKph x) y)"
    unfolding read_SetCruiseSpeedRequest_def by (rule reads_intros)+
  then show ?thesis by (cases x; cases y) (simp add: image_SetCruiseSpeedRequest_def)
qed

lemma local_SetCruiseSpeedRequest: "local_step read_SetCruiseSpeedRequest"
  by (simp add: read_SetCruiseSpeedRequest_def local_read_all)

interpretation SetCruiseSpeedRequest: serializable serialize_SetCruiseSpeedRequest read_SetCruiseSpeedRequest
    "\<lambda>_. True" image_SetCruiseSpeedRequest
  by unfold_locales (simp_all add: serialize_SetCruiseSpeedRequest_def image_SetCruiseSpeedRequest_def
      int_write_def reads_SetCruiseSpeedRequest [unfolded image_SetCruiseSpeedRequest_def]
      local_SetCruiseSpeedRequest)

record SetCruiseSpeedResponse =
  accepted :: bool

definition serialize_SetCruiseSpeedResponse :: "SetCruiseSpeedResponse \<Rightarrow> writer_step" where
  "serialize_SetCruiseSpeedResponse x = write_all [bool_write (accepted x)]"

definition read_SetCruiseSpeedResponse :: "SetCruiseSpeedResponse reader_step" where
  "read_SetCruiseSpeedResponse = read_all [bool_step (\<lambda>v. accepted_update (\<lambda>_. v))]"

definition image_SetCruiseSpeedResponse :: "SetCruiseSpeedResponse \<Rightarrow> bytes" where
  "image_SetCruiseSpeedResponse x = be_bytes 1 (if accepted x then 1 else 0 :: u8)"

lemma reads_SetCruiseSpeedResponse: "reads read_SetCruiseSpeedResponse y (image_SetCruiseSpeedResponse x) x"
proof -
  have "reads read_SetCruiseSpeedResponse y (be_bytes 1 (if accepted x then 1 else 0 :: u8) @ [])
      (accepted_update (\<lambda>_. accepted x) y)"
    unfolding read_SetCruiseSpeedResponse_def by (rule reads_intros)+
  then show ?thesis by (cases x; cases y) (simp add: image_SetCruiseSpeedResponse_def)
qed

lemma local_SetCruiseSpeedResponse: "local_step read_SetCruiseSpeedResponse"
  by (simp add: read_SetCruiseSpeedResponse_def local_read_all)

lemma serialize_SetCruiseSpeedResponse_image:
  "serialize_SetCruiseSpeedResponse x out = (True, out @ image_SetCruiseSpeedResponse x)"
  by (simp add: serialize_SetCruiseSpeedResponse_def image_SetCruiseSpeedResponse_def bool_write_def int_write_def)

interpretation SetCruiseSpeedResponse: serializable serialize_SetCruiseSpeedResponse
    read_SetCruiseSpeedResponse "\<lambda>_. True" image_SetCruiseSpeedResponse
  by unfold_locales (simp_all add: serialize_SetCruiseSpeedResponse_image reads_SetCruiseSpeedResponse
      local_SetCruiseSpeedResponse)

section \<open>Properties\<close>

definition sample_status :: VehicleStatus where
  "sample_status = \<lparr> vin = ''VIN-1'', speedKph = 88, engineRpm = 2300, doorOpen = True,
     wheels = [\<lparr> wheelId = 3, pressureKpa = 235, temperatureC = - 4 \<rparr>], accelHistory = [0x3DCCCCCD] \<rparr>"

definition sample_event :: VehicleInfoChangedEvent where
  "sample_event = \<lparr> vic_eventSequence = 5, vic_status = sample_status \<rparr>"

lemma sample_event_ok: "VehicleInfoChangedEvent_ok sample_event"
  by (simp add: VehicleInfoChangedEvent_ok_def VehicleStatus_ok_def sample_event_def sample_status_def)

text \<open>C26. Every generated type survives \<open>serialize\<close> and \<open>deserialize\<close>, into an object with any prior
  contents, when its strings and vectors fit their length fields.\<close>

theorem generated_round_trip:
  "(VehicleStatus_ok a \<longrightarrow> deserialize read_VehicleStatus a' (serialize serialize_VehicleStatus a) = (True, a))
    \<and> (GetVehicleInfoRequest_ok b \<longrightarrow>
        deserialize read_GetVehicleInfoRequest b' (serialize serialize_GetVehicleInfoRequest b) = (True, b))
    \<and> (GetVehicleInfoResponse_ok c \<longrightarrow>
        deserialize read_GetVehicleInfoResponse c' (serialize serialize_GetVehicleInfoResponse c) = (True, c))
    \<and> (VehicleInfoChangedEvent_ok d \<longrightarrow>
        deserialize read_VehicleInfoChangedEvent d' (serialize serialize_VehicleInfoChangedEvent d) = (True, d))
    \<and> (GetVehicleStatusRequest_ok e \<longrightarrow>
        deserialize read_GetVehicleStatusRequest e' (serialize serialize_GetVehicleStatusRequest e) = (True, e))
    \<and> (GetVehicleStatusResponse_ok f \<longrightarrow>
        deserialize read_GetVehicleStatusResponse f' (serialize serialize_GetVehicleStatusResponse f) = (True, f))
    \<and> (VehicleStatusEvent_ok g \<longrightarrow>
        deserialize read_VehicleStatusEvent g' (serialize serialize_VehicleStatusEvent g) = (True, g))
    \<and> deserialize read_WheelInfo h' (serialize serialize_WheelInfo h) = (True, h)
    \<and> deserialize read_SetCruiseSpeedRequest i' (serialize serialize_SetCruiseSpeedRequest i) = (True, i)
    \<and> deserialize read_SetCruiseSpeedResponse j' (serialize serialize_SetCruiseSpeedResponse j) = (True, j)"
  by (simp add: VehicleStatus.round_trip GetVehicleInfoRequest.round_trip GetVehicleInfoResponse.round_trip
      VehicleInfoChangedEvent.round_trip GetVehicleStatusRequest.round_trip GetVehicleStatusResponse.round_trip
      VehicleStatusEvent.round_trip WheelInfo.round_trip SetCruiseSpeedRequest.round_trip
      SetCruiseSpeedResponse.round_trip)

theorem generated_round_trip_witness:
  "deserialize read_VehicleInfoChangedEvent \<lparr> vic_eventSequence = 0, vic_status = sample_status \<rparr>
     (serialize serialize_VehicleInfoChangedEvent sample_event) = (True, sample_event)"
  using generated_round_trip [where d = sample_event and d' = "\<lparr> vic_eventSequence = 0, vic_status = sample_status \<rparr>"]
    sample_event_ok by blast

text \<open>The event's encoding is exact: no proper prefix of it and no extension of it is accepted.\<close>

theorem event_encoding_exact:
  assumes "VehicleInfoChangedEvent_ok x"
  shows "(\<forall>short rest. serialize serialize_VehicleInfoChangedEvent x = short @ rest \<longrightarrow> rest \<noteq> [] \<longrightarrow>
            \<not> fst (deserialize read_VehicleInfoChangedEvent y short))
    \<and> (\<forall>extra. extra \<noteq> [] \<longrightarrow>
            \<not> fst (deserialize read_VehicleInfoChangedEvent y
                     (serialize serialize_VehicleInfoChangedEvent x @ extra)))"
  using VehicleInfoChangedEvent.refuses_shorter [OF assms] VehicleInfoChangedEvent.refuses_longer [OF assms]
  by (simp add: VehicleInfoChangedEvent.serialize_ok [OF assms])

theorem event_encoding_exact_witness:
  "\<not> fst (deserialize read_VehicleInfoChangedEvent sample_event
            (serialize serialize_VehicleInfoChangedEvent sample_event @ [0]))"
  using event_encoding_exact [OF sample_event_ok, of sample_event] by blast

text \<open>What a node decodes it can encode, and the encoding decodes to the same status again.\<close>

theorem decoded_status_reencodes:
  assumes "deserialize read_GetVehicleInfoResponse y data = (True, x)"
  shows "GetVehicleInfoResponse_ok x
    \<and> deserialize read_GetVehicleInfoResponse z (serialize serialize_GetVehicleInfoResponse x) = (True, x)"
  using GetVehicleInfoResponse.decoded_again [OF assms] by blast

theorem decoded_status_reencodes_witness:
  "fst (deserialize read_GetVehicleInfoResponse \<lparr> gir_requestId = 0, gir_status = sample_status \<rparr>
     (serialize serialize_GetVehicleInfoResponse \<lparr> gir_requestId = 9, gir_status = sample_status \<rparr>))"
proof -
  have "GetVehicleInfoResponse_ok \<lparr> gir_requestId = 9, gir_status = sample_status \<rparr>"
    by (simp add: GetVehicleInfoResponse_ok_def VehicleStatus_ok_def sample_status_def)
  from decoded_status_reencodes [OF GetVehicleInfoResponse.round_trip [OF this, where y = "\<lparr> gir_requestId = 1,
      gir_status = sample_status \<rparr>"], of "\<lparr> gir_requestId = 0, gir_status = sample_status \<rparr>"]
  show ?thesis by simp
qed

text \<open>A value that does not fit its length fields serializes to the empty string, which no receiver
  takes for a message: nothing is truncated silently.\<close>

theorem oversized_values_refused:
  assumes "\<not> VehicleStatus_ok (gir_status x)"
  shows "serialize serialize_GetVehicleInfoResponse x = []
    \<and> \<not> fst (deserialize read_GetVehicleInfoResponse y (serialize serialize_GetVehicleInfoResponse x))"
proof -
  have "serialize serialize_GetVehicleInfoResponse x = []"
    using assms by (intro GetVehicleInfoResponse.serialize_not_ok) (simp add: GetVehicleInfoResponse_ok_def)
  then show ?thesis
    by (simp add: deserialize_def read_GetVehicleInfoResponse_def int_step_def readIntegralBE_def remaining_def)
qed

definition crowded_status :: VehicleStatus where
  "crowded_status = sample_status\<lparr> wheels := replicate 256 temp_WheelInfo \<rparr>"

theorem oversized_values_refused_witness:
  "serialize serialize_GetVehicleInfoResponse \<lparr> gir_requestId = 9, gir_status = crowded_status \<rparr> = []"
  by (rule conjunct1 [OF oversized_values_refused]) (simp add: VehicleStatus_ok_def crowded_status_def)

text \<open>No generated reader moves its cursor out of the buffer, whatever the bytes, on success or on
  failure, so every later length computation is on a cursor inside it.\<close>

theorem readers_stay_in_buffer:
  "br_in (snd (snd (read_VehicleStatus a \<lparr> br_in = data, br_pos = 0 \<rparr>))) = data
    \<and> br_pos (snd (snd (read_VehicleStatus a \<lparr> br_in = data, br_pos = 0 \<rparr>))) \<le> length data
    \<and> br_pos (snd (snd (read_GetVehicleInfoRequest b \<lparr> br_in = data, br_pos = 0 \<rparr>))) \<le> length data
    \<and> br_pos (snd (snd (read_GetVehicleInfoResponse c \<lparr> br_in = data, br_pos = 0 \<rparr>))) \<le> length data
    \<and> br_pos (snd (snd (read_VehicleInfoChangedEvent d \<lparr> br_in = data, br_pos = 0 \<rparr>))) \<le> length data"
  by (metis VehicleStatus.cursor_in_buffer GetVehicleInfoRequest.cursor_in_buffer
      GetVehicleInfoResponse.cursor_in_buffer VehicleInfoChangedEvent.cursor_in_buffer prod.collapse)

end
