(* ===== verification/Provider_Demo.thy ===== *)
theory Provider_Demo
  imports Sd_System Decimal App_Protocol Vehicle_Params "HOL-Library.Char_ord" "HOL-Library.List_Lexorder"
begin

text \<open>
  The demo provider (\<open>provider_demo.cpp\<close>): it registers its service, then answers requests, keeps
  subscribers, refreshes its registration and sends events. One pass of its loop is the function
  \<open>provider_pass\<close>; what the socket delivered and the reading of the clock are arguments, what is sent
  is part of the result. The discovery client and its network are those of \<open>Sd_Api\<close>. The floats of the
  status are given by their IEEE bit patterns.
\<close>

section \<open>Constants and status\<close>

definition kServiceId :: u16 where "kServiceId = 0x1234"
definition kInstanceId :: u16 where "kInstanceId = 0x0001"
definition kGetVehicleInfoMethodId :: u16 where "kGetVehicleInfoMethodId = 0x0001"
definition kSubscribeVehicleInfoChangedMethodId :: u16 where "kSubscribeVehicleInfoChangedMethodId = 0x0002"
definition kVehicleInfoChangedEventId :: u16 where "kVehicleInfoChangedEventId = 0x8001"
definition kProviderPort :: u16 where "kProviderPort = 50001"

lemmas demo_ids = kServiceId_def kInstanceId_def kGetVehicleInfoMethodId_def
  kSubscribeVehicleInfoChangedMethodId_def kVehicleInfoChangedEventId_def kProviderPort_def

text \<open>\<open>0.1f + static_cast<float>(tick % 3)\<close> for each remainder.\<close>

definition first_accel :: "u32 \<Rightarrow> u32" where
  "first_accel tick = (if tick mod 3 = 0 then 0x3DCCCCCD else if tick mod 3 = 1 then 0x3F8CCCCD else 0x40066666)"

definition BuildCurrentVehicleStatus :: "u32 \<Rightarrow> VehicleStatus" where
  "BuildCurrentVehicleStatus tick = \<lparr>
     vin = ''LINUX-SOMEIP-0001'', speedKph = ucast (80 + tick mod 20), engineRpm = 2000 + tick mod 1000,
     doorOpen = (tick mod 2 = 0),
     wheels = [\<lparr> wheelId = 0, pressureKpa = 235, temperatureC = 35 \<rparr>,
               \<lparr> wheelId = 1, pressureKpa = 236, temperatureC = 34 \<rparr>,
               \<lparr> wheelId = 2, pressureKpa = 234, temperatureC = 36 \<rparr>,
               \<lparr> wheelId = 3, pressureKpa = 235, temperatureC = 35 \<rparr>],
     accelHistory = [first_accel tick, 0x3E4CCCCD, 0xBDCCCCCD] \<rparr>"

section \<open>Peers\<close>

record sockaddr =
  sin_addr :: u32
  sin_port :: u16

definition PeerKey :: "sockaddr \<Rightarrow> string" where
  "PeerKey peer = decimal (unat (sin_addr peer)) @ '':'' @ decimal (unat (sin_port peer))"

type_synonym subscribers = "string \<rightharpoonup> sockaddr"

text \<open>A \<open>std::map\<close> enumerates its elements in the order of the keys.\<close>

definition subscriber_list :: "subscribers \<Rightarrow> sockaddr list" where
  "subscriber_list subs = map (\<lambda>k. the (subs k)) (sorted_list_of_set (dom subs))"

section \<open>A datagram\<close>

text \<open>Whether the pass goes on after the datagram, or \<open>continue\<close> skips the rest of it.\<close>

datatype flow = Continue | FallThrough

definition reply_message :: "u16 \<Rightarrow> SomeIpMessage \<Rightarrow> bytes \<Rightarrow> SomeIpMessage" where
  "reply_message method_id msg pl = \<lparr> msg_service_id = kServiceId, msg_method_id = method_id,
     msg_client_id = msg_client_id msg, msg_session_id = msg_session_id msg, msg_interface_version = 1,
     msg_message_type = kMsgResponse, msg_return_code = 0, msg_payload = pl \<rparr>"

text \<open>An exception is caught and the pass goes on; \<open>EncodeSomeIp\<close> can throw one too.\<close>

definition send_message :: "sockaddr \<Rightarrow> SomeIpMessage \<Rightarrow> (sockaddr \<times> bytes) list" where
  "send_message peer msg = (case EncodeSomeIp msg of Inl _ \<Rightarrow> [] | Inr out \<Rightarrow> [(peer, out)])"

definition empty_request :: GetVehicleStatusRequest where
  "empty_request = \<lparr> gs_requestId = 0, gs_targetVin = '''' \<rparr>"

definition provider_datagram ::
    "u32 \<Rightarrow> sockaddr \<Rightarrow> bytes \<Rightarrow> subscribers \<Rightarrow> flow \<times> (sockaddr \<times> bytes) list \<times> subscribers" where
  "provider_datagram tick peer buffer subs =
     (case DecodeSomeIp buffer of
        Inl _ \<Rightarrow> (FallThrough, [], subs)
      | Inr msg \<Rightarrow>
          (if msg_service_id msg \<noteq> kServiceId \<or> msg_message_type msg \<noteq> kMsgRequest then (Continue, [], subs)
           else if msg_method_id msg = kGetVehicleInfoMethodId then
             (case deserialize read_GetVehicleStatusRequest empty_request (msg_payload msg) of (ok, req) \<Rightarrow>
                if \<not> ok then (Continue, [], subs)
                else (FallThrough,
                  send_message peer (reply_message kGetVehicleInfoMethodId msg
                    (serialize serialize_GetVehicleStatusResponse
                      \<lparr> gsr_requestId = gs_requestId req, gsr_status = BuildCurrentVehicleStatus tick \<rparr>)), subs))
           else if msg_method_id msg = kSubscribeVehicleInfoChangedMethodId then
             (FallThrough, send_message peer (reply_message kSubscribeVehicleInfoChangedMethodId msg []),
              subs(PeerKey peer \<mapsto> peer))
           else (FallThrough, [], subs)))"

section \<open>A pass of the loop\<close>

record 'w ProviderState =
  pv_api :: SomeIpSdApi
  pv_world :: 'w
  pv_subs :: subscribers
  pv_tick :: u32
  pv_last_refresh :: int
  pv_last_event :: int

definition provider_descriptor :: ServiceDescriptor where
  "provider_descriptor = \<lparr> service_id = kServiceId, instance_id = kInstanceId, major_version = 1,
     minor_version = 0, endpoint_host = ''127.0.0.1'', endpoint_port = kProviderPort, transport = ''udp'' \<rparr>"

definition event_message :: "u32 \<Rightarrow> SomeIpMessage" where
  "event_message tick = \<lparr> msg_service_id = kServiceId, msg_method_id = kVehicleInfoChangedEventId,
     msg_client_id = 0, msg_session_id = 0, msg_interface_version = 1, msg_message_type = kMsgNotification,
     msg_return_code = 0,
     msg_payload = serialize serialize_VehicleStatusEvent
       \<lparr> vse_eventSequence = tick, vse_status = BuildCurrentVehicleStatus tick \<rparr> \<rparr>"

text \<open>Times are in nanoseconds. \<open>None\<close> is an \<open>EncodeSomeIp\<close> of the event that throws outside the
  \<open>try\<close>, which ends the process.\<close>

definition provider_timers ::
    "inet_lib \<Rightarrow> 'w network \<Rightarrow> int \<Rightarrow> 'w ProviderState \<Rightarrow> ((sockaddr \<times> bytes) list \<times> 'w ProviderState) option" where
  "provider_timers lib net now st =
     (let st = (if now - pv_last_refresh st \<ge> 2000000000
                then case RegisterService lib net provider_descriptor 5 (pv_api st) (pv_world st) of (_, api, w) \<Rightarrow>
                       st\<lparr> pv_api := api, pv_world := w, pv_last_refresh := now \<rparr>
                else st)
      in if now - pv_last_event st \<ge> 1000000000
         then let st = st\<lparr> pv_tick := pv_tick st + 1 \<rparr>
              in if pv_subs st = Map.empty then Some ([], st\<lparr> pv_last_event := now \<rparr>)
                 else case EncodeSomeIp (event_message (pv_tick st)) of
                     Inl _ \<Rightarrow> None
                   | Inr out \<Rightarrow> Some (map (\<lambda>sub. (sub, out)) (subscriber_list (pv_subs st)),
                                    st\<lparr> pv_last_event := now \<rparr>)
         else Some ([], st))"

definition provider_pass ::
    "inet_lib \<Rightarrow> 'w network \<Rightarrow> (sockaddr \<times> bytes) option \<Rightarrow> int \<Rightarrow> 'w ProviderState \<Rightarrow>
     ((sockaddr \<times> bytes) list \<times> 'w ProviderState) option" where
  "provider_pass lib net received now st =
     (case received of
        None \<Rightarrow> provider_timers lib net now st
      | Some (peer, datagram) \<Rightarrow>
          (if datagram = [] then provider_timers lib net now st
           else case provider_datagram (pv_tick st) peer (take 4096 datagram) (pv_subs st) of
             (flow, out, subs) \<Rightarrow>
               (case flow of
                  Continue \<Rightarrow> Some (out, st\<lparr> pv_subs := subs \<rparr>)
                | FallThrough \<Rightarrow>
                    map_option (apfst ((@) out)) (provider_timers lib net now (st\<lparr> pv_subs := subs \<rparr>)))))"

fun provider_run ::
    "inet_lib \<Rightarrow> 'w network \<Rightarrow> ((sockaddr \<times> bytes) option \<times> int) list \<Rightarrow> 'w ProviderState \<Rightarrow>
     ((sockaddr \<times> bytes) list \<times> 'w ProviderState) option" where
  "provider_run lib net [] st = Some ([], st)"
| "provider_run lib net ((received, now) # passes) st =
     (case provider_pass lib net received now st of
        None \<Rightarrow> None
      | Some (out, st) \<Rightarrow> map_option (apfst ((@) out)) (provider_run lib net passes st))"

section \<open>Peers have their own keys\<close>

lemma PeerKey_inject [simp]: "PeerKey p = PeerKey q \<longleftrightarrow> p = q"
  by (cases p; cases q) (simp add: PeerKey_def append_sep decimal_no flip: word_unat_eq_iff)

definition subs_ok :: "subscribers \<Rightarrow> bool" where
  "subs_ok subs \<longleftrightarrow> finite (dom subs) \<and> (\<forall>k p. subs k = Some p \<longrightarrow> k = PeerKey p)"

lemma subscriber_list_ok:
  assumes "subs_ok subs"
  shows "distinct (subscriber_list subs)" and "set (subscriber_list subs) = ran subs"
proof -
  have fin: "finite (dom subs)" and key: "\<And>k p. subs k = Some p \<Longrightarrow> k = PeerKey p"
    using assms by (auto simp: subs_ok_def)
  have "inj_on (\<lambda>k. the (subs k)) (dom subs)"
    by (rule inj_onI) (metis domD key option.sel)
  then show "distinct (subscriber_list subs)" by (simp add: subscriber_list_def distinct_map fin)
  show "set (subscriber_list subs) = ran subs"
  proof -
    have "(\<lambda>k. the (subs k)) ` dom subs = ran subs" by (force simp: ran_def)
    then show ?thesis by (simp add: subscriber_list_def fin)
  qed
qed

section \<open>The provider's own messages\<close>

lemma status_ok [simp]: "VehicleStatus_ok (BuildCurrentVehicleStatus tick)"
  by (simp add: VehicleStatus_ok_def BuildCurrentVehicleStatus_def)

lemma status_length [simp]: "length (image_VehicleStatus (BuildCurrentVehicleStatus tick)) = 61"
  by (simp add: image_VehicleStatus_def BuildCurrentVehicleStatus_def image_string_def)

lemma encode_short: "length (msg_payload m) \<le> 1000 \<Longrightarrow> \<exists>out. EncodeSomeIp m = Inr out"
  by (simp add: EncodeSomeIp_def Let_def)

definition response_of :: "u32 \<Rightarrow> GetVehicleStatusRequest \<Rightarrow> GetVehicleStatusResponse" where
  "response_of tick req = \<lparr> gsr_requestId = gs_requestId req, gsr_status = BuildCurrentVehicleStatus tick \<rparr>"

lemma response_ok [simp]: "GetVehicleStatusResponse_ok (response_of tick req)"
  by (simp add: GetVehicleStatusResponse_ok_def response_of_def)

lemma response_length: "length (serialize serialize_GetVehicleStatusResponse (response_of tick req)) = 65"
  by (simp add: GetVehicleStatusResponse.serialize_ok image_GetVehicleStatusResponse_def)
    (simp add: response_of_def)

definition event_of :: "u32 \<Rightarrow> VehicleStatusEvent" where
  "event_of tick = \<lparr> vse_eventSequence = tick, vse_status = BuildCurrentVehicleStatus tick \<rparr>"

lemma event_ok [simp]: "VehicleStatusEvent_ok (event_of tick)"
  by (simp add: VehicleStatusEvent_ok_def event_of_def)

lemma event_length: "length (serialize serialize_VehicleStatusEvent (event_of tick)) = 65"
  by (simp add: VehicleStatusEvent.serialize_ok image_VehicleStatusEvent_def) (simp add: event_of_def)

lemma event_encodes: "\<exists>out. EncodeSomeIp (event_message tick) = Inr out"
  by (rule encode_short) (simp add: event_message_def event_length flip: event_of_def)

definition frame_of :: "SomeIpMessage \<Rightarrow> bytes" where
  "frame_of m = (case EncodeSomeIp m of Inl _ \<Rightarrow> [] | Inr out \<Rightarrow> out)"

lemma frame_of_short:
  assumes "length (msg_payload m) \<le> 1000"
  shows "EncodeSomeIp m = Inr (frame_of m)" and "DecodeSomeIp (take 4096 (frame_of m)) = Inr m"
    and "frame_of m \<noteq> []"
proof -
  obtain out where out: "EncodeSomeIp m = Inr out" using encode_short [OF assms] by blast
  then show "EncodeSomeIp m = Inr (frame_of m)" by (simp add: frame_of_def)
  have "length out = 16 + length (msg_payload m)"
    using out by (auto simp: EncodeSomeIp_def Let_def split: if_splits)
  then have "take 4096 out = out" "out \<noteq> []" using assms by auto
  then show "DecodeSomeIp (take 4096 (frame_of m)) = Inr m" "frame_of m \<noteq> []"
    using out decode_encoded [OF out] by (simp_all add: frame_of_def)
qed

lemma send_frame: "length (msg_payload m) \<le> 1000 \<Longrightarrow> send_message peer m = [(peer, frame_of m)]"
  by (simp add: send_message_def frame_of_short)

lemma event_payload: "length (msg_payload (event_message tick)) \<le> 1000"
  by (simp add: event_message_def event_length flip: event_of_def)

lemma send_decodes:
  assumes "length (msg_payload m) \<le> 1000"
  obtains out where "send_message peer m = [(peer, out)]" and "DecodeSomeIp out = Inr m"
proof -
  obtain out where out: "EncodeSomeIp m = Inr out" using encode_short [OF assms] by blast
  with that [of out] decode_encoded [OF out] show thesis by (simp add: send_message_def)
qed

text \<open>The refresh a pass begins with, due or not.\<close>

definition refresh_timer :: "inet_lib \<Rightarrow> 'w network \<Rightarrow> int \<Rightarrow> 'w ProviderState \<Rightarrow> 'w ProviderState" where
  "refresh_timer lib net now st =
     (if now - pv_last_refresh st \<ge> 2000000000
      then case RegisterService lib net provider_descriptor 5 (pv_api st) (pv_world st) of (_, api, w) \<Rightarrow>
             st\<lparr> pv_api := api, pv_world := w, pv_last_refresh := now \<rparr>
      else st)"

lemma refresh_timer_keeps [simp]:
  "pv_subs (refresh_timer lib net now st) = pv_subs st" "pv_tick (refresh_timer lib net now st) = pv_tick st"
  "pv_last_event (refresh_timer lib net now st) = pv_last_event st"
  by (simp_all add: refresh_timer_def split: prod.split)

lemma event_due:
  assumes "now - pv_last_event st \<ge> 1000000000" and "pv_subs st \<noteq> Map.empty"
  obtains out where "provider_timers lib net now st = Some (map (\<lambda>sub. (sub, out)) (subscriber_list (pv_subs st)),
      (refresh_timer lib net now st)\<lparr> pv_tick := pv_tick st + 1, pv_last_event := now \<rparr>)"
    and "DecodeSomeIp out = Inr (event_message (pv_tick st + 1))"
proof -
  obtain out where out: "EncodeSomeIp (event_message (pv_tick st + 1)) = Inr out" using event_encodes by blast
  then have "provider_timers lib net now st = Some (map (\<lambda>sub. (sub, out)) (subscriber_list (pv_subs st)),
      (refresh_timer lib net now st)\<lparr> pv_tick := pv_tick st + 1, pv_last_event := now \<rparr>)"
    using assms by (simp add: provider_timers_def refresh_timer_def Let_def split: prod.split)
  with that decode_encoded [OF out] show thesis by blast
qed

lemma provider_subs_ok:
  assumes "subs_ok subs" and "provider_datagram tick peer buffer subs = (flow, out, subs')"
  shows "subs_ok subs'"
  using assms by (auto simp: provider_datagram_def subs_ok_def split: sum.splits if_splits prod.splits)

section \<open>Properties\<close>

text \<open>C31. The provider answers a well-formed request for its service with one frame to the sender that
  decodes to a response with the request's client and session, whose payload decodes to the request's
  id and the vehicle's status at the current tick.\<close>

theorem provider_answers:
  assumes "DecodeSomeIp buffer = Inr msg" and "msg_service_id msg = kServiceId"
    and "msg_message_type msg = kMsgRequest" and "msg_method_id msg = kGetVehicleInfoMethodId"
    and "deserialize read_GetVehicleStatusRequest empty_request (msg_payload msg) = (True, req)"
  shows "\<exists>out resp. provider_datagram tick peer buffer subs = (FallThrough, [(peer, out)], subs)
    \<and> DecodeSomeIp out = Inr resp \<and> msg_message_type resp = kMsgResponse
    \<and> msg_client_id resp = msg_client_id msg \<and> msg_session_id resp = msg_session_id msg
    \<and> deserialize read_GetVehicleStatusResponse any (msg_payload resp)
        = (True, \<lparr> gsr_requestId = gs_requestId req, gsr_status = BuildCurrentVehicleStatus tick \<rparr>)"
proof -
  let ?m = "reply_message kGetVehicleInfoMethodId msg (serialize serialize_GetVehicleStatusResponse (response_of tick req))"
  obtain out where out: "send_message peer ?m = [(peer, out)]" "DecodeSomeIp out = Inr ?m"
    by (rule send_decodes [of ?m]) (simp add: reply_message_def response_length)
  have "provider_datagram tick peer buffer subs = (FallThrough, [(peer, out)], subs)"
    using assms out(1) by (simp add: provider_datagram_def response_of_def)
  moreover have "deserialize read_GetVehicleStatusResponse any (msg_payload ?m) = (True, response_of tick req)"
    by (simp add: reply_message_def GetVehicleStatusResponse.round_trip)
  ultimately show ?thesis
    using out(2) by (intro exI [of _ out] exI [of _ ?m]) (simp add: reply_message_def response_of_def)
qed

definition sample_call :: SomeIpMessage where
  "sample_call = \<lparr> msg_service_id = 0x1234, msg_method_id = 1, msg_client_id = 0x1001, msg_session_id = 2,
     msg_interface_version = 1, msg_message_type = kMsgRequest, msg_return_code = 0,
     msg_payload = serialize serialize_GetVehicleStatusRequest \<lparr> gs_requestId = 101, gs_targetVin = ''V'' \<rparr> \<rparr>"

definition sample_call_frame :: bytes where
  "sample_call_frame = (case EncodeSomeIp sample_call of Inl _ \<Rightarrow> [] | Inr out \<Rightarrow> out)"

lemma sample_call_frame: "DecodeSomeIp sample_call_frame = Inr sample_call"
proof -
  have "length (msg_payload sample_call) \<le> 1000"
    by (simp add: sample_call_def GetVehicleStatusRequest.serialize_ok GetVehicleStatusRequest_ok_def
        image_GetVehicleStatusRequest_def image_string_def)
  then obtain out where "EncodeSomeIp sample_call = Inr out" using encode_short by blast
  then show ?thesis using decode_encoded by (simp add: sample_call_frame_def)
qed

theorem provider_answers_witness:
  "\<exists>out resp. provider_datagram 3 \<lparr> sin_addr = 1, sin_port = 2 \<rparr> sample_call_frame Map.empty
       = (FallThrough, [(\<lparr> sin_addr = 1, sin_port = 2 \<rparr>, out)], Map.empty)
     \<and> DecodeSomeIp out = Inr resp \<and> msg_session_id resp = 2"
proof -
  have "deserialize read_GetVehicleStatusRequest empty_request (msg_payload sample_call)
      = (True, \<lparr> gs_requestId = 101, gs_targetVin = ''V'' \<rparr>)"
    by (simp add: sample_call_def GetVehicleStatusRequest.round_trip GetVehicleStatusRequest_ok_def)
  from provider_answers [OF sample_call_frame _ _ _ this, where tick = 3 and peer = "\<lparr> sin_addr = 1, sin_port = 2 \<rparr>"
      and subs = Map.empty and any = "response_of 0 empty_request"]
  show ?thesis by (auto simp: sample_call_def demo_ids)
qed

text \<open>C32. When an event is due, every subscriber is sent it exactly once, whether or not the registration is
  refreshed in the same pass, as a notification that decodes to the next tick and the status at that tick; and
  the refresh, where it is due, is made as well.\<close>

theorem event_sent_to_every_subscriber:
  assumes "subs_ok (pv_subs st)" and "pv_subs st \<noteq> Map.empty"
    and "now - pv_last_event st \<ge> 1000000000"
  shows "\<exists>sent st'. provider_timers lib net now st = Some (sent, st') \<and> pv_tick st' = pv_tick st + 1
    \<and> pv_last_event st' = now
    \<and> (now - pv_last_refresh st \<ge> 2000000000 \<longrightarrow> pv_last_refresh st' = now
         \<and> (pv_api st', pv_world st') = snd (RegisterService lib net provider_descriptor 5 (pv_api st) (pv_world st)))
    \<and> distinct (map fst sent) \<and> set (map fst sent) = ran (pv_subs st)
    \<and> (\<forall>peer out. (peer, out) \<in> set sent \<longrightarrow> (\<exists>msg. DecodeSomeIp out = Inr msg
         \<and> msg_message_type msg = kMsgNotification \<and> msg_method_id msg = kVehicleInfoChangedEventId
         \<and> deserialize read_VehicleStatusEvent any (msg_payload msg) = (True,
             \<lparr> vse_eventSequence = pv_tick st + 1, vse_status = BuildCurrentVehicleStatus (pv_tick st + 1) \<rparr>)))"
proof -
  obtain out where t: "provider_timers lib net now st = Some (map (\<lambda>sub. (sub, out)) (subscriber_list (pv_subs st)),
      (refresh_timer lib net now st)\<lparr> pv_tick := pv_tick st + 1, pv_last_event := now \<rparr>)"
    and d: "DecodeSomeIp out = Inr (event_message (pv_tick st + 1))"
    using event_due [OF assms(3,2)] .
  have "deserialize read_VehicleStatusEvent any (serialize serialize_VehicleStatusEvent (event_of (pv_tick st + 1)))
      = (True, event_of (pv_tick st + 1))"
    by (simp add: VehicleStatusEvent.round_trip)
  then have "\<exists>msg. DecodeSomeIp out = Inr msg
      \<and> msg_message_type msg = kMsgNotification \<and> msg_method_id msg = kVehicleInfoChangedEventId
      \<and> deserialize read_VehicleStatusEvent any (msg_payload msg) = (True,
          \<lparr> vse_eventSequence = pv_tick st + 1, vse_status = BuildCurrentVehicleStatus (pv_tick st + 1) \<rparr>)"
    using d by (simp add: event_message_def event_of_def)
  moreover have "now - pv_last_refresh st \<ge> 2000000000 \<longrightarrow> pv_last_refresh (refresh_timer lib net now st) = now
      \<and> (pv_api (refresh_timer lib net now st), pv_world (refresh_timer lib net now st))
        = snd (RegisterService lib net provider_descriptor 5 (pv_api st) (pv_world st))"
    by (simp add: refresh_timer_def split: prod.split)
  ultimately show ?thesis
    using t subscriber_list_ok [OF assms(1)]
    by (intro exI [of _ "map (\<lambda>sub. (sub, out)) (subscriber_list (pv_subs st))"]
        exI [of _ "(refresh_timer lib net now st)\<lparr> pv_tick := pv_tick st + 1, pv_last_event := now \<rparr>"] conjI)
      (auto simp: comp_def)
qed

definition two_subscribers :: subscribers where
  "two_subscribers = [PeerKey \<lparr> sin_addr = 1, sin_port = 2 \<rparr> \<mapsto> \<lparr> sin_addr = 1, sin_port = 2 \<rparr>,
                      PeerKey \<lparr> sin_addr = 1, sin_port = 3 \<rparr> \<mapsto> \<lparr> sin_addr = 1, sin_port = 3 \<rparr>]"

definition sample_provider :: "unit ProviderState" where
  "sample_provider = \<lparr> pv_api = sample_api, pv_world = (), pv_subs = two_subscribers, pv_tick = 4,
     pv_last_refresh = 0, pv_last_event = 0 \<rparr>"

theorem event_sent_to_every_subscriber_witness:
  "\<exists>sent st'. provider_timers dotted echo_net 2000000000 sample_provider = Some (sent, st') \<and> pv_tick st' = 5
     \<and> pv_last_refresh st' = 2000000000 \<and> set (map fst sent) = ran two_subscribers"
proof -
  have "subs_ok (pv_subs sample_provider)" and "pv_subs sample_provider \<noteq> Map.empty"
    by (auto simp: sample_provider_def two_subscribers_def subs_ok_def split: if_splits)
  from event_sent_to_every_subscriber [OF this, where now = 2000000000 and lib = dotted and net = echo_net
      and any = "event_of 0"]
  show ?thesis by (auto simp: sample_provider_def)
qed

text \<open>C33. A datagram for another service, or one that is no request, skips the rest of the pass. While such
  datagrams keep arriving, however long that takes, the provider neither refreshes its registration nor
  sends an event: its state does not change at all.\<close>

theorem provider_starves:
  assumes "\<forall>received now. (received, now) \<in> set passes \<longrightarrow> (\<exists>peer datagram msg. received = Some (peer, datagram)
      \<and> DecodeSomeIp (take 4096 datagram) = Inr msg
      \<and> (msg_service_id msg \<noteq> kServiceId \<or> msg_message_type msg \<noteq> kMsgRequest))"
  shows "provider_run lib net passes st = Some ([], st)"
  using assms
proof (induction passes)
  case (Cons p passes)
  obtain received now where p: "p = (received, now)" by fastforce
  then have "(received, now) \<in> set (p # passes)" by simp
  with Cons.prems obtain peer datagram msg where r: "received = Some (peer, datagram)"
    and d: "DecodeSomeIp (take 4096 datagram) = Inr msg"
    and f: "msg_service_id msg \<noteq> kServiceId \<or> msg_message_type msg \<noteq> kMsgRequest" by blast
  have "datagram \<noteq> []" using d by (auto simp: DecodeSomeIp_def)
  with r d f have "provider_pass lib net received now st = Some ([], st)"
    by (simp add: provider_pass_def provider_datagram_def)
  moreover have "provider_run lib net passes st = Some ([], st)"
    using Cons.prems by (intro Cons.IH) (meson list.set_intros(2))
  ultimately show ?case using p by simp
qed simp

definition foreign_call :: SomeIpMessage where
  "foreign_call = \<lparr> msg_service_id = 0x4321, msg_method_id = 1, msg_client_id = 0x1001, msg_session_id = 2,
     msg_interface_version = 1, msg_message_type = kMsgRequest, msg_return_code = 0, msg_payload = [] \<rparr>"

definition foreign_frame :: bytes where
  "foreign_frame = [0x43, 0x21, 0, 1, 0, 0, 0, 8, 0x10, 0x01, 0, 2, 1, 1, 0, 0]"

theorem provider_starves_witness:
  "provider_run dotted echo_net
     (map (\<lambda>i. (Some (\<lparr> sin_addr = 1, sin_port = 2 \<rparr>, foreign_frame), 1000000000 * int i)) [0..<10])
     sample_provider = Some ([], sample_provider)"
proof -
  have "DecodeSomeIp (take 4096 foreign_frame) = Inr foreign_call"
    by (simp add: foreign_frame_def foreign_call_def DecodeSomeIp_def subrange_def be_value_def be_push_def Let_def)
  moreover have "msg_service_id foreign_call \<noteq> kServiceId" by (simp add: foreign_call_def demo_ids)
  ultimately show ?thesis by (intro provider_starves) (auto simp del: upt_rec_numeral)
qed

text \<open>A pass that reaches its timers two seconds after the last refresh registers again: the daemon's
  entry for the provider then expires five seconds after the daemon's clock, so the next refresh, two
  seconds on, comes in time. This holds while the client has request ids the wire can carry.\<close>

theorem refresh_extends_registration:
  assumes "inet_conv lib" and "control_ready (pv_api st)" and "unat (api_next_request_id (pv_api st)) < 65536"
    and "now - pv_last_refresh st \<ge> 2000000000"
  shows "\<exists>sent st'. provider_timers lib (daemon_net lib order daemon_ms) now st = Some (sent, st')
    \<and> pv_last_refresh st' = now
    \<and> pv_world st' (MakeRegistryKey kServiceId kInstanceId)
        = Some \<lparr> descriptor = wire_descriptor lib provider_descriptor, expires_at_ms = daemon_ms + 5000 \<rparr>"
proof -
  let ?api = "(pv_api st)\<lparr> api_next_request_id := api_next_request_id (pv_api st) + 1 \<rparr>"
  let ?reg = "register_effect lib daemon_ms provider_descriptor 5 (pv_world st)"
  let ?st = "st\<lparr> pv_api := ?api, pv_world := ?reg, pv_last_refresh := now \<rparr>"
  have r: "RegisterService lib (daemon_net lib order daemon_ms) provider_descriptor 5 (pv_api st) (pv_world st)
      = (Inr (), ?api, ?reg)"
    using inet_conv.register_round_trip [OF assms(1-3), of order daemon_ms provider_descriptor 5] by simp
  obtain out where out: "EncodeSomeIp (event_message (pv_tick st + 1)) = Inr out" using event_encodes by blast
  have "\<exists>sent st'. provider_timers lib (daemon_net lib order daemon_ms) now st = Some (sent, st')
      \<and> pv_last_refresh st' = now \<and> pv_world st' = ?reg"
    using r out assms(4) by (auto simp: provider_timers_def Let_def)
  moreover have "?reg (MakeRegistryKey kServiceId kInstanceId)
      = Some \<lparr> descriptor = wire_descriptor lib provider_descriptor, expires_at_ms = daemon_ms + 5000 \<rparr>"
    by (simp add: register_effect_def entry_key_def provider_descriptor_def wire_ttl_def)
  ultimately show ?thesis by metis
qed

definition registered_provider :: "registry ProviderState" where
  "registered_provider = \<lparr> pv_api = sample_api, pv_world = Map.empty, pv_subs = Map.empty, pv_tick = 0,
     pv_last_refresh = 0, pv_last_event = 0 \<rparr>"

theorem refresh_extends_registration_witness:
  "\<exists>sent st'. provider_timers dotted (daemon_net dotted key_order 7) 2000000000 registered_provider = Some (sent, st')
     \<and> pv_last_refresh st' = 2000000000"
proof -
  have "control_ready (pv_api registered_provider)" and "unat (api_next_request_id (pv_api registered_provider)) < 65536"
    by (simp_all add: registered_provider_def sample_api_def control_ready_def new_SomeIpSdApi_def)
  from refresh_extends_registration [OF dotted.inet_conv_axioms this, of 2000000000 key_order 7]
  show ?thesis by (auto simp: registered_provider_def)
qed

end
