(* ===== verification/Consumer_Demo.thy ===== *)
theory Consumer_Demo
  imports Provider_Demo
begin

text \<open>
  The demo consumer (\<open>consumer_demo.cpp\<close>): discover the provider, subscribe, call it once, wait for
  three events. What the system calls gave is an argument, in the order they are made; the result is
  how \<open>main\<close> ends. \<open>DecodeSomeIp\<close> and \<open>EncodeSomeIp\<close> are called outside any \<open>try\<close>, so an exception
  of theirs ends the process.
\<close>

section \<open>Results\<close>

datatype consumer_exit =
    DiscoverError api_error
  | NoServiceFound
  | ConsumerSocketFailed | ConsumerBindFailed
  | SubscribeSendFailed | SubscribeTimeout | InvalidSubscribeResponse
  | CallSendFailed | CallTimeout | InvalidCallResponse | CallPayloadDecodeFailed
  | Finished GetVehicleStatusResponse "VehicleStatusEvent list"
  | UncaughtException app_error
  | StillWaiting

text \<open>The exit code of \<open>main\<close>, where it returns.\<close>

fun exit_code :: "consumer_exit \<Rightarrow> nat option" where
  "exit_code NoServiceFound = Some 0"
| "exit_code (Finished _ _) = Some 0"
| "exit_code (UncaughtException _) = None"
| "exit_code StillWaiting = None"
| "exit_code _ = Some 1"

section \<open>The requests\<close>

definition subscribe_message :: SomeIpMessage where
  "subscribe_message = \<lparr> msg_service_id = kServiceId, msg_method_id = kSubscribeVehicleInfoChangedMethodId,
     msg_client_id = 0x1001, msg_session_id = 1, msg_interface_version = 1, msg_message_type = kMsgRequest,
     msg_return_code = 0, msg_payload = [] \<rparr>"

definition call_message :: SomeIpMessage where
  "call_message = \<lparr> msg_service_id = kServiceId, msg_method_id = kGetVehicleInfoMethodId,
     msg_client_id = 0x1001, msg_session_id = 2, msg_interface_version = 1, msg_message_type = kMsgRequest,
     msg_return_code = 0,
     msg_payload = serialize serialize_GetVehicleStatusRequest
       \<lparr> gs_requestId = 101, gs_targetVin = ''LINUX-SOMEIP-0001'' \<rparr> \<rparr>"

text \<open>\<open>SendSomeIp\<close>: the exception of the encoder, or the verdict of \<open>sendto\<close> and what it was given.\<close>

definition SendSomeIp :: "bool \<Rightarrow> SomeIpMessage \<Rightarrow> app_error + (bool \<times> bytes)" where
  "SendSomeIp sendto_ok msg = map_sum id (Pair sendto_ok) (EncodeSomeIp msg)"

section \<open>The event loop\<close>

definition zero_event :: VehicleStatusEvent where
  "zero_event = \<lparr> vse_eventSequence = 0, vse_status = BuildCurrentVehicleStatus 0 \<rparr>"

text \<open>A receive gives a datagram, or \<open>None\<close> on a timeout. When the list ends the consumer waits in
  \<open>recvfrom\<close>. The event object has indeterminate fields before \<open>deserialize\<close>; the argument \<open>temp\<close>.\<close>

fun event_loop ::
    "VehicleStatusEvent \<Rightarrow> GetVehicleStatusResponse \<Rightarrow> bytes option list \<Rightarrow> VehicleStatusEvent list \<Rightarrow> consumer_exit" where
  "event_loop temp resp receives events =
     (if length events \<ge> 3 then Finished resp events
      else case receives of
          [] \<Rightarrow> StillWaiting
        | None # _ \<Rightarrow> Finished resp events
        | Some datagram # receives \<Rightarrow>
            (if datagram = [] then Finished resp events
             else case DecodeSomeIp (take 4096 datagram) of
                 Inl ex \<Rightarrow> UncaughtException ex
               | Inr msg \<Rightarrow>
                   (if msg_message_type msg \<noteq> kMsgNotification \<or> msg_method_id msg \<noteq> kVehicleInfoChangedEventId
                    then event_loop temp resp receives events
                    else case deserialize read_VehicleStatusEvent temp (msg_payload msg) of (ok, evt) \<Rightarrow>
                      if \<not> ok then event_loop temp resp receives events
                      else event_loop temp resp receives (events @ [evt]))))"

declare event_loop.simps [simp del]

section \<open>main\<close>

record consumer_io =
  io_socket_ok :: bool
  io_bind_ok :: bool
  io_subscribe_sent :: bool
  io_subscribe_reply :: "bytes option"
  io_call_sent :: bool
  io_call_reply :: "bytes option"
  io_receives :: "bytes option list"

definition consumer_call :: "VehicleStatusEvent \<Rightarrow> GetVehicleStatusResponse \<Rightarrow> consumer_io \<Rightarrow> consumer_exit" where
  "consumer_call temp uninit io =
     (case SendSomeIp (io_call_sent io) call_message of
        Inl ex \<Rightarrow> UncaughtException ex
      | Inr (sent, _) \<Rightarrow>
          (if \<not> sent then CallSendFailed
           else if io_call_reply io = None \<or> io_call_reply io = Some [] then CallTimeout
           else case DecodeSomeIp (take 4096 (the (io_call_reply io))) of
               Inl ex \<Rightarrow> UncaughtException ex
             | Inr msg \<Rightarrow>
                 (if msg_message_type msg \<noteq> kMsgResponse \<or> msg_method_id msg \<noteq> kGetVehicleInfoMethodId
                  then InvalidCallResponse
                  else case deserialize read_GetVehicleStatusResponse uninit (msg_payload msg) of (ok, resp) \<Rightarrow>
                    if \<not> ok then CallPayloadDecodeFailed
                    else event_loop temp resp (io_receives io) [])))"

definition consumer_main ::
    "VehicleStatusEvent \<Rightarrow> GetVehicleStatusResponse \<Rightarrow> ServiceList \<times> api_error option \<Rightarrow> consumer_io \<Rightarrow> consumer_exit" where
  "consumer_main temp uninit discovered io =
     (case discovered of (services, err) \<Rightarrow>
        (case err of
           Some e \<Rightarrow> DiscoverError e
         | None \<Rightarrow>
             (if services = [] then NoServiceFound
              else if \<not> io_socket_ok io then ConsumerSocketFailed
              else if \<not> io_bind_ok io then ConsumerBindFailed
              else case SendSomeIp (io_subscribe_sent io) subscribe_message of
                  Inl ex \<Rightarrow> UncaughtException ex
                | Inr (sent, _) \<Rightarrow>
                    (if \<not> sent then SubscribeSendFailed
                     else if io_subscribe_reply io = None \<or> io_subscribe_reply io = Some [] then SubscribeTimeout
                     else case DecodeSomeIp (take 4096 (the (io_subscribe_reply io))) of
                         Inl ex \<Rightarrow> UncaughtException ex
                       | Inr msg \<Rightarrow>
                           (if msg_message_type msg \<noteq> kMsgResponse
                               \<or> msg_method_id msg \<noteq> kSubscribeVehicleInfoChangedMethodId
                            then InvalidSubscribeResponse
                            else consumer_call temp uninit io)))))"

section \<open>How the event loop ends\<close>

text \<open>What a receive means to the loop.\<close>

datatype receive_kind = Timeout | Malformed app_error | Ignored | Event VehicleStatusEvent

definition receive_kind :: "VehicleStatusEvent \<Rightarrow> bytes option \<Rightarrow> receive_kind" where
  "receive_kind temp r =
     (case r of
        None \<Rightarrow> Timeout
      | Some d \<Rightarrow>
          (if d = [] then Timeout
           else case DecodeSomeIp (take 4096 d) of
               Inl ex \<Rightarrow> Malformed ex
             | Inr msg \<Rightarrow>
                 (if msg_message_type msg \<noteq> kMsgNotification \<or> msg_method_id msg \<noteq> kVehicleInfoChangedEventId
                  then Ignored
                  else case deserialize read_VehicleStatusEvent temp (msg_payload msg) of (ok, evt) \<Rightarrow>
                    if ok then Event evt else Ignored)))"

text \<open>The loop by those kinds.\<close>

fun outcome :: "GetVehicleStatusResponse \<Rightarrow> receive_kind list \<Rightarrow> VehicleStatusEvent list \<Rightarrow> consumer_exit" where
  "outcome resp ks events =
     (if length events \<ge> 3 then Finished resp events
      else case ks of
          [] \<Rightarrow> StillWaiting
        | Timeout # _ \<Rightarrow> Finished resp events
        | Malformed ex # _ \<Rightarrow> UncaughtException ex
        | Ignored # ks \<Rightarrow> outcome resp ks events
        | Event evt # ks \<Rightarrow> outcome resp ks (events @ [evt]))"

declare outcome.simps [simp del]

lemma event_loop_outcome:
  "event_loop temp resp receives events = outcome resp (map (receive_kind temp) receives) events"
proof (induction receives arbitrary: events)
  case Nil
  then show ?case by (subst event_loop.simps, subst outcome.simps) simp
next
  case (Cons r receives)
  show ?case
    by (subst event_loop.simps, subst outcome.simps)
      (simp add: receive_kind_def [of temp r] Cons.IH split: option.split sum.split prod.split)
qed

lemma outcome_ignored: "\<forall>k \<in> set ks. k = Ignored \<Longrightarrow> outcome resp (ks @ ks') events = outcome resp ks' events"
proof (induction ks)
  case (Cons k ks)
  then show ?case by (subst outcome.simps) (auto simp: outcome.simps [of resp ks'])
qed simp

text \<open>The exceptions are not caught: a datagram that is no SOME/IP frame, arriving while the consumer still
  waits for an event, ends the process.\<close>

theorem malformed_datagram_ends_consumer:
  assumes "\<forall>r \<in> set before. receive_kind temp r = Ignored" and "length events < 3"
    and "d \<noteq> []" and "DecodeSomeIp (take 4096 d) = Inl ex"
  shows "event_loop temp resp (before @ Some d # after) events = UncaughtException ex"
proof -
  have "receive_kind temp (Some d) = Malformed ex" using assms(3,4) by (simp add: receive_kind_def)
  moreover have "\<forall>k \<in> set (map (receive_kind temp) before). k = Ignored" using assms(1) by simp
  moreover have "outcome resp (Malformed ex # ks) events = UncaughtException ex" for ks
    using assms(2) by (subst outcome.simps) simp
  ultimately show ?thesis by (simp add: event_loop_outcome outcome_ignored)
qed

text \<open>And no number of other datagrams ends the wait: the timeout of the socket starts again with each.\<close>

theorem foreign_datagrams_keep_consumer_waiting:
  assumes "\<forall>r \<in> set receives. receive_kind temp r = Ignored" and "length events < 3"
  shows "event_loop temp resp receives events = StillWaiting"
proof -
  have "\<forall>k \<in> set (map (receive_kind temp) receives). k = Ignored" using assms(1) by simp
  from outcome_ignored [OF this, of resp "[]" events]
  have "outcome resp (map (receive_kind temp) receives) events = outcome resp [] events" by simp
  also have "\<dots> = StillWaiting" using assms(2) by (subst outcome.simps) simp
  finally show ?thesis by (simp add: event_loop_outcome)
qed

lemma call_payload: "length (msg_payload call_message) \<le> 1000"
  by (simp add: call_message_def GetVehicleStatusRequest.serialize_ok GetVehicleStatusRequest_ok_def
      image_GetVehicleStatusRequest_def image_string_def)

section \<open>The provider's side of a session\<close>

definition ack_message :: SomeIpMessage where
  "ack_message = reply_message kSubscribeVehicleInfoChangedMethodId subscribe_message []"

definition answer_message :: "u32 \<Rightarrow> SomeIpMessage" where
  "answer_message tick = reply_message kGetVehicleInfoMethodId call_message
     (serialize serialize_GetVehicleStatusResponse
       (response_of tick \<lparr> gs_requestId = 101, gs_targetVin = ''LINUX-SOMEIP-0001'' \<rparr>))"

lemma provider_acks:
  "provider_datagram tick peer (take 4096 (frame_of subscribe_message)) subs
     = (FallThrough, [(peer, frame_of ack_message)], subs(PeerKey peer \<mapsto> peer))"
proof -
  have "DecodeSomeIp (take 4096 (frame_of subscribe_message)) = Inr subscribe_message"
    by (rule frame_of_short) (simp add: subscribe_message_def)
  moreover have "send_message peer ack_message = [(peer, frame_of ack_message)]"
    by (rule send_frame) (simp add: ack_message_def reply_message_def)
  ultimately show ?thesis
    by (simp add: provider_datagram_def ack_message_def) (simp add: subscribe_message_def demo_ids)
qed

lemma provider_answers_call:
  "provider_datagram tick peer (take 4096 (frame_of call_message)) subs
     = (FallThrough, [(peer, frame_of (answer_message tick))], subs)"
proof -
  have d: "DecodeSomeIp (take 4096 (frame_of call_message)) = Inr call_message"
    by (rule frame_of_short(2) [OF call_payload])
  have r: "deserialize read_GetVehicleStatusRequest empty_request (msg_payload call_message)
      = (True, \<lparr> gs_requestId = 101, gs_targetVin = ''LINUX-SOMEIP-0001'' \<rparr>)"
    by (simp add: call_message_def GetVehicleStatusRequest.round_trip GetVehicleStatusRequest_ok_def)
  have s: "send_message peer (answer_message tick) = [(peer, frame_of (answer_message tick))]"
    by (rule send_frame) (simp add: answer_message_def reply_message_def response_length)
  have k: "msg_service_id call_message = kServiceId" "msg_message_type call_message = kMsgRequest"
    "msg_method_id call_message = kGetVehicleInfoMethodId"
    by (simp_all add: call_message_def)
  show ?thesis
    using s by (simp add: provider_datagram_def d r k answer_message_def response_of_def)
qed

lemma event_loop_event:
  assumes "length events < 3"
  shows "event_loop temp resp (Some (frame_of (event_message tick)) # receives) events
     = event_loop temp resp receives (events @ [event_of tick])"
proof -
  have "deserialize read_VehicleStatusEvent temp (msg_payload (event_message tick)) = (True, event_of tick)"
    using VehicleStatusEvent.round_trip [of "event_of tick" temp] by (simp add: event_message_def flip: event_of_def)
  moreover have "msg_message_type (event_message tick) = kMsgNotification"
    "msg_method_id (event_message tick) = kVehicleInfoChangedEventId"
    by (simp_all add: event_message_def)
  ultimately show ?thesis
    using assms by (subst event_loop.simps) (simp add: frame_of_short [OF event_payload])
qed

lemma event_loop_three: "length events = 3 \<Longrightarrow> event_loop temp resp receives events = Finished resp events"
  by (subst event_loop.simps) simp

section \<open>A session\<close>

text \<open>Consumer and provider understand each other: when the consumer's two requests are handled by the
  provider's datagram handler and the consumer receives the replies it sends and then the events of any
  three ticks, it finishes with the provider's status at the tick of the call and with those events.\<close>

theorem demo_session:
  assumes "fst (snd (provider_datagram tick1 peer (take 4096 (frame_of subscribe_message)) subs)) = [(peer, ack)]"
    and "fst (snd (provider_datagram tick2 peer (take 4096 (frame_of call_message)) subs')) = [(peer, answer)]"
    and "services \<noteq> []"
  shows "consumer_main temp uninit (services, None)
      \<lparr> io_socket_ok = True, io_bind_ok = True, io_subscribe_sent = True, io_subscribe_reply = Some ack,
        io_call_sent = True, io_call_reply = Some answer,
        io_receives = map (\<lambda>t. Some (frame_of (event_message t))) [a, b, c] @ rest \<rparr>
    = Finished \<lparr> gsr_requestId = 101, gsr_status = BuildCurrentVehicleStatus tick2 \<rparr> (map event_of [a, b, c])"
proof -
  let ?resp = "\<lparr> gsr_requestId = 101, gsr_status = BuildCurrentVehicleStatus tick2 \<rparr>"
  have ack: "ack = frame_of ack_message" and answer: "answer = frame_of (answer_message tick2)"
    using assms(1,2) by (simp_all add: provider_acks provider_answers_call)
  have loop: "event_loop temp ?resp (map (\<lambda>t. Some (frame_of (event_message t))) [a, b, c] @ rest) []
      = Finished ?resp (map event_of [a, b, c])"
    by (simp add: event_loop_event event_loop_three)
  have sub: "SendSomeIp True subscribe_message = Inr (True, frame_of subscribe_message)"
    using frame_of_short(1) [of subscribe_message] by (simp add: SendSomeIp_def subscribe_message_def)
  have call: "SendSomeIp True call_message = Inr (True, frame_of call_message)"
    using frame_of_short(1) [OF call_payload] by (simp add: SendSomeIp_def)
  note a = frame_of_short(2,3) [of ack_message]
  have payload: "length (msg_payload (answer_message tick2)) \<le> 1000"
    by (simp add: answer_message_def reply_message_def response_length)
  have resp: "deserialize read_GetVehicleStatusResponse uninit (msg_payload (answer_message tick2)) = (True, ?resp)"
    using GetVehicleStatusResponse.round_trip [OF response_ok, of uninit tick2
        "\<lparr> gs_requestId = 101, gs_targetVin = ''LINUX-SOMEIP-0001'' \<rparr>"]
    by (simp add: answer_message_def reply_message_def) (simp add: response_of_def)
  have "consumer_call temp uninit \<lparr> io_socket_ok = True, io_bind_ok = True, io_subscribe_sent = True,
        io_subscribe_reply = Some ack, io_call_sent = True, io_call_reply = Some answer,
        io_receives = map (\<lambda>t. Some (frame_of (event_message t))) [a, b, c] @ rest \<rparr>
      = Finished ?resp (map event_of [a, b, c])"
    unfolding consumer_call_def answer
    using loop resp frame_of_short [OF payload]
    by (simp add: call) (simp add: answer_message_def reply_message_def)
  then show ?thesis
    using assms(3) a unfolding consumer_main_def ack
    by (simp add: sub) (simp add: ack_message_def reply_message_def)
qed

theorem demo_session_witness:
  "consumer_main (event_of 0) (response_of 0 empty_request) ([provider_descriptor], None)
      \<lparr> io_socket_ok = True, io_bind_ok = True, io_subscribe_sent = True,
        io_subscribe_reply = Some (frame_of ack_message), io_call_sent = True,
        io_call_reply = Some (frame_of (answer_message 4)),
        io_receives = map (\<lambda>t. Some (frame_of (event_message t))) [5, 6, 7] @ [] \<rparr>
    = Finished \<lparr> gsr_requestId = 101, gsr_status = BuildCurrentVehicleStatus 4 \<rparr> (map event_of [5, 6, 7])"
  by (rule demo_session [where ?tick1.0 = 3 and ?tick2.0 = 4 and peer = "\<lparr> sin_addr = 1, sin_port = 2 \<rparr>"
        and subs = Map.empty and subs' = Map.empty])
    (simp_all add: provider_acks provider_answers_call)

text \<open>An event that arrives before the answer to the call, because it fell due between the subscription and the
  call, is taken for that answer, and the consumer ends with an error.\<close>

lemma event_before_answer:
  assumes "io_call_sent io" and "io_call_reply io = Some (frame_of (event_message tick))"
  shows "consumer_call temp uninit io = InvalidCallResponse"
proof -
  have sent: "SendSomeIp True call_message = Inr (True, frame_of call_message)"
    using frame_of_short(1) [OF call_payload] by (simp add: SendSomeIp_def)
  note e = frame_of_short(2,3) [OF event_payload, of tick]
  have "msg_message_type (event_message tick) \<noteq> kMsgResponse"
    by (simp add: event_message_def)
  with assms sent e show ?thesis by (simp add: consumer_call_def)
qed

end
