(* ===== verification/Sd_Timed.thy ===== *)
theory Sd_Timed
  imports Sd_System
begin

text \<open>
  The daemon in time. \<open>daemon_net\<close> of \<open>Sd_System\<close> answers at a fixed reading of the clock and never
  sweeps; here the state of the world is the registry together with the daemon's clock. Requests are
  answered at that reading, and between requests \<open>advance\<close> lets time pass: the server loop sweeps at
  the new reading. An advance followed by a request is one iteration of the server loop of \<open>Sd_Serve\<close>.
\<close>

section \<open>The world\<close>

type_synonym clock_world = "registry \<times> u64"

definition timed_net :: "(u64 \<Rightarrow> registry network) \<Rightarrow> clock_world network" where
  "timed_net net =
     \<lparr> net_udp = (\<lambda>host port d w. apsnd (\<lambda>reg. (reg, snd w)) (net_udp (net (snd w)) host port d (fst w))),
       net_unix = (\<lambda>path d w. apsnd (\<lambda>reg. (reg, snd w)) (net_unix (net (snd w)) path d (fst w))) \<rparr>"

definition clock_net :: "inet_lib \<Rightarrow> (registry \<Rightarrow> u32 list) \<Rightarrow> clock_world network" where
  "clock_net lib order = timed_net (daemon_net lib order)"

definition advance :: "(registry \<Rightarrow> u32 list) \<Rightarrow> u64 \<Rightarrow> clock_world \<Rightarrow> clock_world" where
  "advance order now w = (CleanupExpired (order (fst w)) now (fst w), now)"

definition clock_answer ::
    "inet_lib \<Rightarrow> (registry \<Rightarrow> u32 list) \<Rightarrow> int \<Rightarrow> int \<Rightarrow> string \<Rightarrow> u16 \<Rightarrow> bytes \<Rightarrow> clock_world \<Rightarrow>
     (int \<times> round) list \<times> clock_world" where
  "clock_answer lib order t0 t1 grp port d w =
     apsnd (\<lambda>reg. (reg, snd w)) (one_answer lib order (snd w) t0 t1 grp port d (fst w))"

lemma snd_advance [simp]: "snd (advance order now w) = now"
  by (simp add: advance_def)

section \<open>Calls\<close>

lemma timed_control:
  "DoControlRequest (timed_net net) api req w
     = apsnd (\<lambda>reg. (reg, snd w)) (DoControlRequest (net (snd w)) api req (fst w))"
  by (simp add: DoControlRequest_def timed_net_def apsnd_def map_prod_def split: prod.split)

lemma timed_RegisterService:
  "RegisterService lib (timed_net net) d ttl api w
     = apsnd (apsnd (\<lambda>reg. (reg, snd w))) (RegisterService lib (net (snd w)) d ttl api (fst w))"
  by (simp add: RegisterService_def timed_control Let_def split: prod.split)

lemma timed_UnregisterService:
  "UnregisterService lib (timed_net net) s i api w
     = apsnd (apsnd (\<lambda>reg. (reg, snd w))) (UnregisterService lib (net (snd w)) s i api (fst w))"
  by (simp add: UnregisterService_def timed_control Let_def split: prod.split)

lemma clock_RegisterService:
  "RegisterService lib (clock_net lib order) d ttl api w
     = apsnd (apsnd (\<lambda>reg. (reg, snd w))) (RegisterService lib (daemon_net lib order (snd w)) d ttl api (fst w))"
  by (simp add: clock_net_def timed_RegisterService)

lemma clock_UnregisterService:
  "UnregisterService lib (clock_net lib order) s i api w
     = apsnd (apsnd (\<lambda>reg. (reg, snd w))) (UnregisterService lib (daemon_net lib order (snd w)) s i api (fst w))"
  by (simp add: clock_net_def timed_UnregisterService)

lemma clock_DiscoverServices:
  "DiscoverServices lib setup (clock_answer lib order t0 t1) start s i timeout api w
     = apsnd (apsnd (\<lambda>reg. (reg, snd w)))
         (DiscoverServices lib setup (one_answer lib order (snd w) t0 t1) start s i timeout api (fst w))"
  by (simp add: DiscoverServices_def clock_answer_def Let_def split: prod.split)

section \<open>Sweeps\<close>

lemma CleanupExpired_at:
  "CleanupExpired ks now m k = None \<or> CleanupExpired ks now m k = m k"
  by (auto simp: CleanupExpired_def cleanup_loop_at live_def split: option.split)

lemma advance_at: "fst (advance order now w) k = None \<or> fst (advance order now w) k = fst w k"
  unfolding advance_def fst_conv by (rule CleanupExpired_at)

lemma advance_keeps:
  "fst w k = Some e \<Longrightarrow> now < expires_at_ms e \<Longrightarrow> fst (advance order now w) k = Some e"
  by (auto simp: advance_def CleanupExpired_def cleanup_loop_at live_def)

lemma advance_removes:
  assumes "\<forall>m. enumerates (order m) m" and "fst w k = Some e" and "expires_at_ms e \<le> now"
  shows "fst (advance order now w) k = None"
  using assms by (simp add: advance_def CleanupExpired_live live_def)

lemma advance_keys: "keys_ok (fst w) \<Longrightarrow> keys_ok (fst (advance order now w))"
  unfolding keys_ok_def by (metis advance_at option.distinct(1))

text \<open>Sweeping on the way makes no difference.\<close>

lemma live_live: "t \<le> now \<Longrightarrow> live now (live t m) = live now m"
  by (auto simp: live_def fun_eq_iff split: option.split)

lemma advance_advance:
  "\<forall>m. enumerates (order m) m \<Longrightarrow> t \<le> now \<Longrightarrow> advance order now (advance order t w) = advance order now w"
  by (simp add: advance_def CleanupExpired_live live_live)

section \<open>An iteration of the server loop\<close>

lemma advance_is_iteration:
  assumes "\<forall>m. enumerates (order m) m" and "clock \<le> now" and "unat now < 2 ^ 63"
    and "process_fd lib (order (fst (advance order now (reg, clock)))) now d (fst (advance order now (reg, clock)))
      = (reply, reg')"
  shows "serve_run lib u \<lparr> sv_reg = reg, sv_clock = clock, sv_swept = swept, sv_pc = AtCleanup \<rparr>
      [Cleaned now, Received Udp d now reply, Idle]
      \<lparr> sv_reg = reg', sv_clock = now, sv_swept = now, sv_pc = AtCleanup \<rparr>"
proof -
  let ?s = "\<lparr> sv_reg = reg, sv_clock = clock, sv_swept = swept, sv_pc = AtCleanup \<rparr>"
  let ?s1 = "\<lparr> sv_reg = fst (advance order now (reg, clock)), sv_clock = now, sv_swept = now, sv_pc = AtUdp \<rparr>"
  let ?s2 = "\<lparr> sv_reg = reg', sv_clock = now, sv_swept = now, sv_pc = AtUnix \<rparr>"
  have "serve_step lib u ?s (Cleaned now) ?s1"
    using serve_step.cleanup [of ?s now "order reg" lib u] assms(1-3) by (simp add: tick_ok_def advance_def)
  moreover have "serve_step lib u ?s1 (Received Udp d now reply) ?s2"
    using serve_step.udp [of ?s1 now "order (fst (advance order now (reg, clock)))" lib d reply reg' u] assms(1,3,4)
    by (simp add: tick_ok_def)
  moreover have "serve_step lib u ?s2 Idle \<lparr> sv_reg = reg', sv_clock = now, sv_swept = now, sv_pc = AtCleanup \<rparr>"
    using serve_step.unix_quiet [of ?s2 lib u] by simp
  ultimately show ?thesis by (auto simp: serve_run_Cons)
qed

end
