(* ===== verification/Sd_Many.thy ===== *)
theory Sd_Many
  imports Sd_System
begin

text \<open>
  A discovery that several daemons answer. The Find goes to a multicast group, and every daemon that
  hears it replies; the client collects the replies until its deadline. A daemon here is the order in
  which its hash map enumerates the registry, and the registry.
\<close>

section \<open>The replies\<close>

type_synonym daemon = "(registry \<Rightarrow> u32 list) \<times> registry"

definition daemon_ok :: "daemon \<Rightarrow> bool" where
  "daemon_ok dm \<longleftrightarrow> keys_ok (snd dm) \<and> enumerates (fst dm (snd dm)) (snd dm)"

definition query :: "u16 option \<Rightarrow> u16 option" where
  "query i = (if i = Some 0xFFFF then None else i)"

definition matching :: "u16 \<Rightarrow> u16 option \<Rightarrow> daemon \<Rightarrow> ServiceDescriptor set" where
  "matching s i dm = {descriptor e | e k. snd dm k = Some e \<and> matches_query s (query i) (descriptor e)}"

text \<open>Each daemon's answer with the time it arrives at; nothing follows the last one.\<close>

definition many_answers ::
    "inet_lib \<Rightarrow> u64 \<Rightarrow> (int \<times> daemon) list \<Rightarrow> string \<Rightarrow> u16 \<Rightarrow> bytes \<Rightarrow> unit \<Rightarrow> (int \<times> round) list \<times> unit" where
  "many_answers lib now daemons grp port d w =
     (map (\<lambda>(t, order, reg).
        (t, case fst (process_fd lib (order reg) now d reg) of None \<Rightarrow> NoData | Some r \<Rightarrow> Data r)) daemons, w)"

section \<open>Collecting them\<close>

lemma collect_keys_found:
  "discovery_inv st \<Longrightarrow> dedup_key ` set (found (collect svcs st)) = dedup_key ` set (found st) \<union> dedup_key ` set svcs"
  using collect_inv [of st svcs] collect_keys [of svcs st] by (simp add: discovery_inv_def)

context inet_conv
begin

lemma on_daemon_answer:
  assumes "daemon_ok (order, reg)" and "card {k. \<exists>e. reg k = Some e \<and> matches_query s (query i) (descriptor e)} \<le> 140"
    and "unat rid < 65536"
  shows "on_datagram lib rid (EncodePacket (find_response lib (order reg) reg rid s i)) st
    = collect (map (wire_descriptor lib) (find_reply lib (order reg) reg s (query i))) st"
proof -
  let ?L = "find_reply lib (order reg) reg s (query i)" and ?r = "find_response lib (order reg) reg rid s i"
  have len: "length ?L \<le> 140"
    using assms(1,2) by (simp add: daemon_ok_def find_reply_card)
  then have "length (pkt_payload ?r) \<le> 4080" by (simp add: find_response_def query_def)
  then have d: "DecodePacket (take kApiBufferSize (EncodePacket ?r)) = Inr (on_wire ?r)"
    by (simp only: decode_small kApiBufferSize_def)
  have p: "ParseSdOffers lib (pkt_payload (on_wire ?r)) = Some (map (wire_descriptor lib) ?L)"
    using parse_offer_list_256 [of ?L 3] len by (simp add: find_response_def on_wire_def query_def)
  have rid: "pkt_request_id (on_wire ?r) = rid" "pkt_message_type (on_wire ?r) = kResponse"
    using assms(3) by (simp_all add: find_response_def on_wire_def wire_id_eq_iff)
  show ?thesis by (simp only: on_datagram_def d sum.case rid p option.case if_False simp_thms)
qed

text \<open>What the loop has collected once all daemons have answered.\<close>

lemma discover_many:
  assumes "unat rid < 65536"
    and "\<forall>(t, dm) \<in> set daemons. t < deadline \<and> daemon_ok dm
      \<and> card {k. \<exists>e. snd dm k = Some e \<and> matches_query s (query i) (descriptor e)} \<le> 140"
    and "discovery_inv st"
  shows "let st' = discover_loop lib rid deadline
             (fst (many_answers lib now daemons grp port (EncodePacket (find_packet rid s i)) ())) st
         in last_error st' = last_error st \<and> set (found st) \<subseteq> set (found st')
          \<and> set (found st') \<subseteq> set (found st) \<union> wire_descriptor lib ` (\<Union>(t, dm) \<in> set daemons. matching s i dm)
          \<and> dedup_key ` set (found st') = dedup_key ` set (found st)
              \<union> dedup_key ` wire_descriptor lib ` (\<Union>(t, dm) \<in> set daemons. matching s i dm)"
  using assms(2,3)
proof (induction daemons arbitrary: st)
  case (Cons d daemons)
  obtain t order reg where d: "d = (t, order, reg)" by (cases d)
  let ?L = "find_reply lib (order reg) reg s (query i)"
  let ?st = "collect (map (wire_descriptor lib) ?L) st"
  have ok: "daemon_ok (order, reg)" "t < deadline"
    and card: "card {k. \<exists>e. reg k = Some e \<and> matches_query s (query i) (descriptor e)} \<le> 140"
    using Cons.prems(1) by (auto simp: d)
  have L: "set ?L = matching s i (order, reg)"
    using ok(1) by (simp add: daemon_ok_def find_reply_entries matching_def)
  have step: "discover_loop lib rid deadline
      (fst (many_answers lib now (d # daemons) grp port (EncodePacket (find_packet rid s i)) ())) st
    = discover_loop lib rid deadline
      (fst (many_answers lib now daemons grp port (EncodePacket (find_packet rid s i)) ())) ?st"
    using ok(2) by (simp add: many_answers_def d process_find on_daemon_answer [OF ok(1) card assms(1)])
  have inv: "discovery_inv ?st" using Cons.prems(2) by (rule collect_inv)
  let ?st' = "discover_loop lib rid deadline
      (fst (many_answers lib now daemons grp port (EncodePacket (find_packet rid s i)) ())) ?st"
  let ?M = "wire_descriptor lib ` matching s i (order, reg)"
  let ?R = "wire_descriptor lib ` (\<Union>(t, dm) \<in> set daemons. matching s i dm)"
  have here: "set (found st) \<subseteq> set (found ?st)" "set (found ?st) \<subseteq> set (found st) \<union> ?M"
    using collect_found [of "map (wire_descriptor lib) ?L" st] L by auto
  have keys: "dedup_key ` set (found ?st) = dedup_key ` set (found st) \<union> dedup_key ` ?M"
    using collect_keys_found [OF Cons.prems(2)] by (simp add: L)
  have "\<forall>(t, dm) \<in> set daemons. t < deadline \<and> daemon_ok dm
      \<and> card {k. \<exists>e. snd dm k = Some e \<and> matches_query s (query i) (descriptor e)} \<le> 140"
    using Cons.prems(1) by simp
  from Cons.IH [OF this inv] have rest: "last_error ?st' = last_error st" "set (found ?st) \<subseteq> set (found ?st')"
    "set (found ?st') \<subseteq> set (found ?st) \<union> ?R"
    "dedup_key ` set (found ?st') = dedup_key ` set (found ?st) \<union> dedup_key ` ?R"
    by (simp_all only: Let_def collect_last_error simp_thms)
  have all: "wire_descriptor lib ` (\<Union>(t, dm) \<in> set (d # daemons). matching s i dm) = ?M \<union> ?R"
    by (simp add: d image_Un)
  show ?case
    unfolding step Let_def all
  proof (intro conjI)
    show "last_error ?st' = last_error st" by (rule rest(1))
    show "set (found st) \<subseteq> set (found ?st')" using here(1) rest(2) by (rule subset_trans)
    show "set (found ?st') \<subseteq> set (found st) \<union> (?M \<union> ?R)"
      using subset_trans [OF rest(3) Un_mono [OF here(2) subset_refl]] by (simp only: Un_assoc)
    show "dedup_key ` set (found ?st') = dedup_key ` set (found st) \<union> dedup_key ` (?M \<union> ?R)"
      unfolding rest(4) keys by (simp only: image_Un Un_assoc)
  qed
qed (simp add: many_answers_def)

end

section \<open>Property\<close>

text \<open>C5. A discovery that several daemons answer in time finds, for every service any of them has registered
  and that matches, one with the same service, instance and port, and nothing that none of them has.
  Of services that agree in these three and differ in the host it keeps the first.\<close>

theorem discovery_from_many:
  assumes "inet_conv lib" and "unat (api_next_request_id api) < 65536"
    and "list_all (\<lambda>(t, dm). t < start + timeout * 1000000 \<and> daemon_ok dm
      \<and> card {k. \<exists>e. snd dm k = Some e \<and> matches_query s (query i) (descriptor e)} \<le> 140) daemons"
  shows "let (found, err) = fst (DiscoverServices lib DiscoverSent (many_answers lib now daemons) start s i timeout api ());
             offers = wire_descriptor lib ` (\<Union>(t, dm) \<in> set daemons. matching s i dm);
             ids = (\<lambda>d. (service_id d, instance_id d, endpoint_port d))
         in err = None \<and> set found \<subseteq> offers \<and> ids ` set found = ids ` offers \<and> distinct (map ids found)"
proof -
  let ?rid = "api_next_request_id api" and ?ids = "\<lambda>d. (service_id d, instance_id d, endpoint_port d)"
  let ?offers = "wire_descriptor lib ` (\<Union>(t, dm) \<in> set daemons. matching s i dm)"
  define st where "st = discover_loop lib ?rid (start + timeout * 1000000)
    (fst (many_answers lib now daemons (api_discovery_multicast_group api) (api_discovery_multicast_port api)
       (EncodePacket (find_packet ?rid s i)) ())) no_discovery"
  have empty: "last_error no_discovery = None" "found no_discovery = []" by (simp_all add: no_discovery_def)
  have none: "discovery_inv no_discovery" by (simp add: discovery_inv_def no_discovery_def)
  have daemons: "\<forall>(t, dm) \<in> set daemons. t < start + timeout * 1000000 \<and> daemon_ok dm
      \<and> card {k. \<exists>e. snd dm k = Some e \<and> matches_query s (query i) (descriptor e)} \<le> 140"
    using assms(3) by (simp add: list_all_iff)
  have collected: "last_error st = None" "set (found st) \<subseteq> ?offers" "dedup_key ` set (found st) = dedup_key ` ?offers"
    using inet_conv.discover_many [OF assms(1,2) daemons none, where now = now
        and grp = "api_discovery_multicast_group api" and port = "api_discovery_multicast_port api"]
    unfolding st_def [symmetric] Let_def empty by simp_all
  have same: "?ids a = ?ids b \<longleftrightarrow> dedup_key a = dedup_key b" for a b by (simp add: dedup_key_eq)
  have "distinct (map dedup_key (found st))"
    using discover_loop_inv [OF none] unfolding st_def discovery_inv_def by blast
  then have "distinct (map ?ids (found st))" by (simp add: distinct_map inj_on_def same del: prod.inject)
  moreover have "?ids ` set (found st) = ?ids ` ?offers"
  proof (rule subset_antisym)
    show "?ids ` set (found st) \<subseteq> ?ids ` ?offers" using collected(2) by (rule image_mono)
    show "?ids ` ?offers \<subseteq> ?ids ` set (found st)"
    proof
      fix x assume "x \<in> ?ids ` ?offers"
      then obtain d where d: "x = ?ids d" "d \<in> ?offers" by blast
      then have "dedup_key d \<in> dedup_key ` set (found st)" using collected(3) by blast
      then obtain d' where "d' \<in> set (found st)" "dedup_key d = dedup_key d'" by blast
      with d(1) same show "x \<in> ?ids ` set (found st)" by blast
    qed
  qed
  moreover have "fst (DiscoverServices lib DiscoverSent (many_answers lib now daemons) start s i timeout api ())
      = (found st, last_error st)"
    by (simp add: DiscoverServices_def AllocateRequestId_def st_def no_discovery_def Let_def split: prod.split)
  ultimately show ?thesis using collected(1,2) by (simp only: Let_def prod.case simp_thms)
qed

definition two_daemons :: "(int \<times> daemon) list" where
  "two_daemons = [(5, key_order, Map.empty), (7, key_order, sv_reg sample_end)]"

theorem discovery_from_many_witness:
  "fst (fst (DiscoverServices dotted DiscoverSent (many_answers dotted 9 two_daemons) 0 0x1234 None 10 sample_api ())) \<noteq> []"
proof -
  let ?res = "fst (DiscoverServices dotted DiscoverSent (many_answers dotted 9 two_daemons) 0 0x1234 None 10 sample_api ())"
  have one: "{k. \<exists>e. sv_reg sample_end k = Some e \<and> matches_query 0x1234 (query None) (descriptor e)} \<subseteq> {entry_key sample_service}"
    by (auto simp: sample_end_reg split: if_splits)
  then have "card {k. \<exists>e. sv_reg sample_end k = Some e \<and> matches_query 0x1234 (query None) (descriptor e)} \<le> 1"
    using card_mono [OF _ one] by simp
  then have "list_all (\<lambda>(t, dm). t < 0 + 10 * 1000000 \<and> daemon_ok dm
      \<and> card {k. \<exists>e. snd dm k = Some e \<and> matches_query 0x1234 (query None) (descriptor e)} \<le> 140) two_daemons"
    by (simp add: two_daemons_def daemon_ok_def key_order_enumerates keys_ok_def sample_end_reg)
  moreover have "unat (api_next_request_id sample_api) < 65536" by (simp add: sample_api_def new_SomeIpSdApi_def)
  ultimately have ids: "(\<lambda>d. (service_id d, instance_id d, endpoint_port d)) ` set (fst ?res)
      = (\<lambda>d. (service_id d, instance_id d, endpoint_port d)) ` wire_descriptor dotted `
          (\<Union>(t, dm) \<in> set two_daemons. matching 0x1234 None dm)"
    using discovery_from_many [OF dotted.inet_conv_axioms, of sample_api 0 10 "0x1234" None two_daemons 9]
    by (auto simp: Let_def split: prod.splits)
  have "wire_descriptor dotted sample_service \<in> (\<Union>(t, dm) \<in> set two_daemons. matching 0x1234 None dm)"
    by (simp add: two_daemons_def matching_def sample_end_reg matches_query_def query_def)
      (simp add: sample_service_def wire_descriptor_def)
  then have some: "(\<Union>(t, dm) \<in> set two_daemons. matching 0x1234 None dm) \<noteq> {}" by blast
  show ?thesis
  proof
    assume none: "fst ?res = []"
    have "(\<lambda>d. (service_id d, instance_id d, endpoint_port d)) ` wire_descriptor dotted `
        (\<Union>(t, dm) \<in> set two_daemons. matching 0x1234 None dm) = {}"
      using ids unfolding none by (simp only: list.set image_empty)
    with some show False by (simp only: image_is_empty)
  qed
qed

end
