(* ===== verification/Sd_Loss.thy ===== *)
theory Sd_Loss
  imports Sd_Many
begin

text \<open>
  Requests over a network that loses or repeats datagrams, as UDP may. The fate of a request is an
  argument: it or its answer may be lost, and it may reach the daemon twice, which answers it twice. (The
  socket of a control request is closed after the first answer; a discovery sees both, and they are the
  same, as a Find changes nothing.)
\<close>

section \<open>The network\<close>

datatype fate = Delivered | Repeated | RequestLost | ReplyLost

definition lossy_answer ::
    "inet_lib \<Rightarrow> (registry \<Rightarrow> u32 list) \<Rightarrow> u64 \<Rightarrow> fate \<Rightarrow> bytes \<Rightarrow> registry \<Rightarrow> control_io \<times> registry" where
  "lossy_answer lib order now fate d reg =
     (case fate of
        Delivered \<Rightarrow> daemon_answer lib order now d reg
      | Repeated \<Rightarrow> (case daemon_answer lib order now d reg of (io, reg) \<Rightarrow>
          (io, snd (daemon_answer lib order now d reg)))
      | RequestLost \<Rightarrow> (NothingReceived, reg)
      | ReplyLost \<Rightarrow> (NothingReceived, snd (daemon_answer lib order now d reg)))"

definition lossy_net :: "inet_lib \<Rightarrow> (registry \<Rightarrow> u32 list) \<Rightarrow> u64 \<Rightarrow> fate \<Rightarrow> registry network" where
  "lossy_net lib order now fate =
     \<lparr> net_udp = (\<lambda>host port. lossy_answer lib order now fate),
       net_unix = (\<lambda>path d reg. apfst UnixIo (lossy_answer lib order now fate d reg)) \<rparr>"

definition arrives :: "fate \<Rightarrow> bool" where
  "arrives fate \<longleftrightarrow> fate \<noteq> RequestLost"

definition answered :: "fate \<Rightarrow> bool" where
  "answered fate \<longleftrightarrow> fate \<in> {Delivered, Repeated}"

definition timeout_error :: "SomeIpSdApi \<Rightarrow> api_error" where
  "timeout_error api =
     (if api_control_transport api = kUnixDomainSocket then UnixControlTimeout else ControlTimeout)"

section \<open>One request\<close>

text \<open>A request that the daemon takes to the same registry when it sees it again.\<close>

lemma lossy_control:
  assumes "control_ready api"
    and "process_fd lib (order reg) now (EncodePacket req) reg = (Some (EncodePacket resp), reg')"
    and "process_fd lib (order reg') now (EncodePacket req) reg' = (Some (EncodePacket resp'), reg')"
    and "length (pkt_payload resp) \<le> 4080"
  shows "DoControlRequest (lossy_net lib order now fate) api req reg
    = (if answered fate then Inr (on_wire resp) else Inl (timeout_error api),
       if arrives fate then reg' else reg)"
  using assms
  by (cases fate) (simp_all add: DoControlRequest_def lossy_net_def lossy_answer_def daemon_answer_def
      control_ready_def decode_reply_def DecodePacket_EncodePacket small_packet_fits answered_def arrives_def
      timeout_error_def)

lemma register_effect_again [simp]:
  "register_effect lib now' d ttl (register_effect lib now d ttl reg) = register_effect lib now' d ttl reg"
  by (auto simp: register_effect_def)

context inet_conv
begin

lemma lossy_register:
  assumes "control_ready api" and "unat (api_next_request_id api) < 65536"
  shows "RegisterService lib (lossy_net lib order now fate) d ttl api reg
    = (if answered fate then Inr () else Inl (timeout_error api),
       api\<lparr> api_next_request_id := api_next_request_id api + 1 \<rparr>,
       if arrives fate then register_effect lib now d (word_of_int ttl) reg else reg)"
proof -
  let ?rid = "api_next_request_id api" and ?ttl = "word_of_int ttl :: u32"
  let ?api = "api\<lparr> api_next_request_id := ?rid + 1 \<rparr>"
  have ready: "control_ready ?api" using assms(1) by (simp add: control_ready_def)
  note once = process_register [of "order reg" now ?rid d ?ttl reg]
    and again = process_register [of "order (register_effect lib now d ?ttl reg)" now ?rid d ?ttl
        "register_effect lib now d ?ttl reg", unfolded register_effect_again]
  have "DoControlRequest (lossy_net lib order now fate) ?api (offer_request lib ?rid d ?ttl False) reg
      = (if answered fate then Inr (on_wire (offer_response lib ?rid d ?ttl)) else Inl (timeout_error ?api),
         if arrives fate then register_effect lib now d ?ttl reg else reg)"
    by (rule lossy_control [OF ready once again]) (simp add: offer_response_def)
  moreover have "pkt_request_id (on_wire (offer_response lib ?rid d ?ttl)) = ?rid"
    using assms(2) by (simp add: offer_response_def on_wire_def wire_id_eq_iff)
  moreover have "pkt_message_type (on_wire (offer_response lib ?rid d ?ttl)) = kResponse"
    by (simp add: offer_response_def on_wire_def)
  moreover have "timeout_error ?api = timeout_error api" by (simp add: timeout_error_def)
  ultimately show ?thesis
    by (simp add: RegisterService_def AllocateRequestId_def Let_def parse_offer_response
        flip: offer_request_def kRequest_def)
qed

end

section \<open>Unregistering and discovering\<close>

text \<open>The rounds of a discovery, whose answer arrives at the nanosecond \<open>at\<close>, if it does.\<close>

definition lossy_rounds ::
    "inet_lib \<Rightarrow> (registry \<Rightarrow> u32 list) \<Rightarrow> fate \<Rightarrow> u64 \<Rightarrow> int \<Rightarrow> string \<Rightarrow> u16 \<Rightarrow> bytes \<Rightarrow> registry \<Rightarrow>
     (int \<times> round) list \<times> registry" where
  "lossy_rounds lib order fate now at grp port d reg =
     (case lossy_answer lib order now fate d reg of (io, reg) \<Rightarrow>
        (case io of
           Reply r \<Rightarrow> (if fate = Repeated then [(at, Data r), (at, Data r)] else [(at, Data r)])
         | _ \<Rightarrow> []) @ [(at, PollEnds)], reg)"

lemma collect_known: "dedup_key ` set svcs \<subseteq> dedup st \<Longrightarrow> collect svcs st = st"
  by (induction svcs st rule: collect.induct) auto

lemma collect_again: "collect svcs (collect svcs st) = collect svcs st"
  by (rule collect_known) (simp add: collect_keys)

context inet_conv
begin

lemma lossy_unregister:
  assumes "control_ready api" and "unat (api_next_request_id api) < 65536"
  shows "UnregisterService lib (lossy_net lib order now fate) s i api reg
    = (if answered fate then Inr () else Inl (timeout_error api),
       api\<lparr> api_next_request_id := api_next_request_id api + 1 \<rparr>,
       if arrives fate then reg(MakeRegistryKey s i := None) else reg)"
proof -
  let ?rid = "api_next_request_id api" and ?d = "default_descriptor\<lparr> service_id := s, instance_id := i \<rparr>"
  let ?api = "api\<lparr> api_next_request_id := ?rid + 1 \<rparr>"
  have ready: "control_ready ?api" using assms(1) by (simp add: control_ready_def)
  have key: "entry_key ?d = MakeRegistryKey s i" by (simp add: entry_key_def)
  note once = process_unregister [of "order reg" now ?rid ?d 0 reg, unfolded key]
    and again = process_unregister [of "order (reg(MakeRegistryKey s i := None))" now ?rid ?d 0
        "reg(MakeRegistryKey s i := None)", unfolded key fun_upd_upd]
  have "DoControlRequest (lossy_net lib order now fate) ?api (offer_request lib ?rid ?d 0 True) reg
      = (if answered fate then Inr (on_wire (offer_response lib ?rid ?d 0)) else Inl (timeout_error ?api),
         if arrives fate then reg(MakeRegistryKey s i := None) else reg)"
    by (rule lossy_control [OF ready once again]) (simp add: offer_response_def)
  moreover have "pkt_request_id (on_wire (offer_response lib ?rid ?d 0)) = ?rid"
    using assms(2) by (simp add: offer_response_def on_wire_def wire_id_eq_iff)
  moreover have "pkt_message_type (on_wire (offer_response lib ?rid ?d 0)) = kResponse"
    by (simp add: offer_response_def on_wire_def)
  moreover have "timeout_error ?api = timeout_error api" by (simp add: timeout_error_def)
  ultimately show ?thesis
    by (simp add: UnregisterService_def AllocateRequestId_def Let_def parse_offer_response
        flip: offer_request_def kRequest_def)
qed

text \<open>A second copy of the answer changes nothing.\<close>

lemma answer_again:
  assumes "daemon_ok (order, reg)" and "unat rid < 65536"
  shows "on_datagram lib rid (EncodePacket (find_response lib (order reg) reg rid s i))
      (on_datagram lib rid (EncodePacket (find_response lib (order reg) reg rid s i)) st)
    = on_datagram lib rid (EncodePacket (find_response lib (order reg) reg rid s i)) st"
proof (cases "card {k. \<exists>e. reg k = Some e \<and> matches_query s (query i) (descriptor e)} \<le> 140")
  case True
  show ?thesis unfolding on_daemon_answer [OF assms(1) True assms(2)] by (rule collect_again)
next
  case False
  have ok: "keys_ok reg" "enumerates (order reg) reg" using assms(1) by (simp_all add: daemon_ok_def)
  have more: "max_offers < length (find_reply lib (order reg) reg s (if i = Some 0xFFFF then None else i))"
    using False by (simp add: find_reply_card [OF ok(2)] max_offers_def query_def)
  have fits: "length (find_reply lib (order reg) reg s (if i = Some 0xFFFF then None else i)) < 2 ^ 27"
    using find_reply_length [OF ok(2,1), of lib s "if i = Some 0xFFFF then None else i"] by simp
  show ?thesis unfolding on_find_response_overflow [OF more fits] by simp
qed

lemma lossy_discover:
  assumes "unat (api_next_request_id api) < 65536" and "keys_ok reg" and "enumerates (order reg) reg"
    and "at < start + timeout * 1000000"
  shows "DiscoverServices lib DiscoverSent (lossy_rounds lib order fate now at) start s i timeout api reg
    = (if answered fate
       then let ds = find_reply lib (order reg) reg s (if i = Some 0xFFFF then None else i)
            in if length ds \<le> 140 then (map (wire_descriptor lib) ds, None)
               else ([], Some (DecodeFailed SomeIpLengthMismatch))
       else ([], None),
       api\<lparr> api_next_request_id := api_next_request_id api + 1 \<rparr>, reg)"
proof (cases "answered fate")
  case True
  have "daemon_ok (order, reg)" using assms(2,3) by (simp add: daemon_ok_def)
  note again = answer_again [OF this assms(1)]
  have "DiscoverServices lib DiscoverSent (lossy_rounds lib order fate now at) start s i timeout api reg
      = DiscoverServices lib DiscoverSent (one_answer lib order now at at) start s i timeout api reg"
    using True assms(4)
    by (auto simp: DiscoverServices_def AllocateRequestId_def lossy_rounds_def lossy_answer_def one_answer_def
        daemon_answer_def process_find again answered_def Let_def)
  with True discover_result [where order = order, OF inet_conv_axioms assms] show ?thesis by simp
next
  case False
  then have "fate = RequestLost \<or> fate = ReplyLost" by (cases fate) (simp_all add: answered_def)
  then show ?thesis
    using False assms(4)
    by (auto simp: DiscoverServices_def AllocateRequestId_def lossy_rounds_def lossy_answer_def
        daemon_answer_def process_find Let_def)
qed

end

section \<open>Property\<close>

text \<open>A registration over a lossy network has happened if it reports success; if it reports an error, the
  error is the timeout, and it has happened or not, but nothing else has. Trying again after an error
  is safe: after a success the registry is as if that attempt had been the only one.\<close>

theorem registration_under_loss:
  assumes "inet_conv lib" and "control_ready api" and "unat (api_next_request_id api) < 65535"
  shows "let (r1, api1, reg1) = RegisterService lib (lossy_net lib order now1 fate1) d ttl api reg;
             (r2, api2, reg2) = RegisterService lib (lossy_net lib order now2 fate2) d ttl api1 reg1
         in (r1 = Inr () \<longrightarrow> reg1 = register_effect lib now1 d (word_of_int ttl) reg)
          \<and> (r1 \<noteq> Inr () \<longrightarrow> r1 = Inl (timeout_error api)
               \<and> reg1 \<in> {reg, register_effect lib now1 d (word_of_int ttl) reg})
          \<and> (r2 = Inr () \<longrightarrow> reg2 = register_effect lib now2 d (word_of_int ttl) reg)"
proof -
  let ?api1 = "api\<lparr> api_next_request_id := api_next_request_id api + 1 \<rparr>"
  have "control_ready ?api1" and "unat (api_next_request_id ?api1) < 65536"
    using assms(2,3) by (simp_all add: control_ready_def unat_word_ariths)
  note second = inet_conv.lossy_register [OF assms(1) this]
  have "unat (api_next_request_id api) < 65536" using assms(3) by simp
  note first = inet_conv.lossy_register [OF assms(1,2) this]
  show ?thesis
    unfolding first Let_def prod.case second by (cases fate1; cases fate2) (simp_all add: answered_def arrives_def)
qed

theorem registration_under_loss_witness:
  "fst (RegisterService dotted (lossy_net dotted key_order 5 ReplyLost) sample_service 3 sample_api Map.empty)
     \<in> {Inr (), Inl ControlTimeout}"
proof -
  have "control_ready sample_api" and "unat (api_next_request_id sample_api) < 65535"
    and "timeout_error sample_api = ControlTimeout"
    by (simp_all add: sample_api_def control_ready_def new_SomeIpSdApi_def timeout_error_def)
  with registration_under_loss [OF dotted.inet_conv_axioms this(1,2), where order = key_order and ?now1.0 = 5
      and ?fate1.0 = ReplyLost and ?now2.0 = 9 and ?fate2.0 = Delivered and d = sample_service and ttl = 3
      and reg = Map.empty]
  show ?thesis by (auto simp: Let_def split: prod.splits)
qed

end
