(* ===== verification/Provider_Main.thy ===== *)
theory Provider_Main
  imports Provider_Demo Sd_Timed Sd_Loss
begin

text \<open>
  The demo provider as a program: \<open>main\<close> of \<open>provider_demo.cpp\<close> around the loop of \<open>Provider_Demo\<close>, run
  against the daemon in time of \<open>Sd_Timed\<close>. What the rest of the world does while the provider waits in
  \<open>recvfrom\<close> is the argument \<open>env\<close>: it brings the world up to a reading of the clock. The passes are
  those until a signal sets \<open>g_stop\<close>.
\<close>

section \<open>main\<close>

fun provider_loop ::
    "inet_lib \<Rightarrow> 'w network \<Rightarrow> (int \<Rightarrow> 'w \<Rightarrow> 'w) \<Rightarrow> ((sockaddr \<times> bytes) option \<times> int) list \<Rightarrow> 'w ProviderState \<Rightarrow>
     ((sockaddr \<times> bytes) list \<times> 'w ProviderState) option" where
  "provider_loop lib net env [] st = Some ([], st)"
| "provider_loop lib net env ((received, now) # passes) st =
     (case provider_pass lib net received now (st\<lparr> pv_world := env now (pv_world st) \<rparr>) of
        None \<Rightarrow> None
      | Some (out, st) \<Rightarrow> map_option (apfst ((@) out)) (provider_loop lib net env passes st))"

datatype provider_exit =
    RegisterFailed api_error
  | ProviderSocketFailed
  | ProviderBindFailed
  | ProviderStopped

fun provider_exit_code :: "provider_exit \<Rightarrow> nat" where
  "provider_exit_code ProviderStopped = 0"
| "provider_exit_code _ = 1"

record provider_io =
  pio_socket_ok :: bool
  pio_bind_ok :: bool
  pio_last_refresh :: int
  pio_last_event :: int
  pio_passes :: "((sockaddr \<times> bytes) option \<times> int) list"

definition provider_api :: SomeIpSdApi where
  "provider_api = SetDiscoveryMulticast ''239.255.0.1'' 30490 ''127.0.0.1''
     (new_SomeIpSdApi ''127.0.0.1'' 30490 1000)"

text \<open>The verdict of \<open>UnregisterService\<close> is not looked at. The result is how \<open>main\<close> ends, what it has
  sent, and the world; \<open>None\<close> is an exception that ends the process.\<close>

definition provider_main ::
    "inet_lib \<Rightarrow> 'w network \<Rightarrow> (int \<Rightarrow> 'w \<Rightarrow> 'w) \<Rightarrow> provider_io \<Rightarrow> 'w \<Rightarrow>
     (provider_exit \<times> (sockaddr \<times> bytes) list \<times> 'w) option" where
  "provider_main lib net env io w =
     (let desc = provider_descriptor;
          unregister = (\<lambda>api w. snd (snd (UnregisterService lib net (service_id desc) (instance_id desc) api w)));
          (r, api, w) = RegisterService lib net desc 5 provider_api w
      in case r of
          Inl e \<Rightarrow> Some (RegisterFailed e, [], w)
        | Inr _ \<Rightarrow>
            (if \<not> pio_socket_ok io then Some (ProviderSocketFailed, [], unregister api w)
             else if \<not> pio_bind_ok io then Some (ProviderBindFailed, [], unregister api w)
             else let st = \<lparr> pv_api = api, pv_world = w, pv_subs = Map.empty, pv_tick = 0,
                             pv_last_refresh = pio_last_refresh io, pv_last_event = pio_last_event io \<rparr>
                  in case provider_loop lib net env (pio_passes io) st of
                      None \<Rightarrow> None
                    | Some (sent, st) \<Rightarrow> Some (ProviderStopped, sent, unregister (pv_api st) (pv_world st))))"

lemma provider_run_loop: "provider_run lib net passes st = provider_loop lib net (\<lambda>_ w. w) passes st"
  by (induction lib net passes st rule: provider_run.induct) (simp_all split: option.split prod.split)

section \<open>The provider and the daemon\<close>

text \<open>Milliseconds of a clock reading in nanoseconds, as the daemon has them.\<close>

definition ms_of :: "int \<Rightarrow> u64" where
  "ms_of now = word_of_int (now div 1000000)"

abbreviation provider_key :: u32 where
  "provider_key \<equiv> MakeRegistryKey kServiceId kInstanceId"

lemma provider_entry_key [simp]: "entry_key provider_descriptor = provider_key"
  by (simp add: entry_key_def provider_descriptor_def)

text \<open>The world counts the control requests sent so far: the request with number \<open>n\<close> meets the fate
  \<open>fate_of n\<close>. Between the provider's system calls the daemon's clock goes on and the daemon sweeps.\<close>

type_synonym faulty_world = "nat \<times> clock_world"

definition faulty_net :: "inet_lib \<Rightarrow> (registry \<Rightarrow> u32 list) \<Rightarrow> (nat \<Rightarrow> fate) \<Rightarrow> faulty_world network" where
  "faulty_net lib order fate_of =
     \<lparr> net_udp = (\<lambda>host port d w. apsnd (Pair (Suc (fst w)))
         (net_udp (timed_net (\<lambda>now. lossy_net lib order now (fate_of (fst w)))) host port d (snd w))),
       net_unix = (\<lambda>path d w. apsnd (Pair (Suc (fst w)))
         (net_unix (timed_net (\<lambda>now. lossy_net lib order now (fate_of (fst w)))) path d (snd w))) \<rparr>"

definition faulty_env :: "(registry \<Rightarrow> u32 list) \<Rightarrow> int \<Rightarrow> faulty_world \<Rightarrow> faulty_world" where
  "faulty_env order now w = (fst w, advance order (ms_of now) (snd w))"

definition refreshed :: "inet_lib \<Rightarrow> clock_world \<Rightarrow> clock_world" where
  "refreshed lib w = (register_effect lib (snd w) provider_descriptor 5 (fst w), snd w)"

lemma refreshed_at: "k \<noteq> provider_key \<Longrightarrow> fst (refreshed lib w) k = fst w k"
  by (simp add: refreshed_def register_effect_def)

lemma faulty_control:
  "control_ready api \<Longrightarrow> DoControlRequest (faulty_net lib order fate_of) api req w
     = apsnd (Pair (Suc (fst w)))
         (DoControlRequest (timed_net (\<lambda>now. lossy_net lib order now (fate_of (fst w)))) api req (snd w))"
  by (auto simp: DoControlRequest_def faulty_net_def control_ready_def apsnd_def map_prod_def split: prod.split)

lemma faulty_RegisterService:
  "control_ready api \<Longrightarrow> RegisterService lib (faulty_net lib order fate_of) d ttl api w
     = apsnd (apsnd (Pair (Suc (fst w))))
         (RegisterService lib (timed_net (\<lambda>now. lossy_net lib order now (fate_of (fst w)))) d ttl api (snd w))"
  by (simp add: RegisterService_def AllocateRequestId_def faulty_control control_ready_def Let_def split: prod.split)

lemma faulty_UnregisterService:
  "control_ready api \<Longrightarrow> UnregisterService lib (faulty_net lib order fate_of) s i api w
     = apsnd (apsnd (Pair (Suc (fst w))))
         (UnregisterService lib (timed_net (\<lambda>now. lossy_net lib order now (fate_of (fst w)))) s i api (snd w))"
  by (simp add: UnregisterService_def AllocateRequestId_def faulty_control control_ready_def Let_def split: prod.split)

context inet_conv
begin

lemma faulty_register:
  assumes "control_ready api" and "unat (api_next_request_id api) < 65536"
  shows "RegisterService lib (faulty_net lib order fate_of) provider_descriptor 5 api w
    = (if answered (fate_of (fst w)) then Inr () else Inl (timeout_error api),
       api\<lparr> api_next_request_id := api_next_request_id api + 1 \<rparr>,
       Suc (fst w), if arrives (fate_of (fst w)) then refreshed lib (snd w) else snd w)"
  unfolding faulty_RegisterService [OF assms(1)] timed_RegisterService lossy_register [OF assms]
  by (simp add: refreshed_def)

lemma faulty_unregister:
  assumes "control_ready api" and "unat (api_next_request_id api) < 65536"
  shows "UnregisterService lib (faulty_net lib order fate_of) s i api w
    = (if answered (fate_of (fst w)) then Inr () else Inl (timeout_error api),
       api\<lparr> api_next_request_id := api_next_request_id api + 1 \<rparr>, Suc (fst w),
       if arrives (fate_of (fst w)) then (fst (snd w))(MakeRegistryKey s i := None) else fst (snd w), snd (snd w))"
  unfolding faulty_UnregisterService [OF assms(1)] timed_UnregisterService lossy_unregister [OF assms]
  by simp

end

section \<open>A pass\<close>

text \<open>The second half of the timers, which leaves the client and the world alone.\<close>

definition event_timer :: "int \<Rightarrow> 'w ProviderState \<Rightarrow> (sockaddr \<times> bytes) list \<times> 'w ProviderState" where
  "event_timer now st =
     (if now - pv_last_event st \<ge> 1000000000
      then (if pv_subs st = Map.empty then []
            else map (\<lambda>sub. (sub, frame_of (event_message (pv_tick st + 1)))) (subscriber_list (pv_subs st)),
            st\<lparr> pv_tick := pv_tick st + 1, pv_last_event := now \<rparr>)
      else ([], st))"

lemma event_frame: "EncodeSomeIp (event_message tick) = Inr (frame_of (event_message tick))"
  using event_encodes [of tick] by (auto simp: frame_of_def)

lemma provider_timers_split: "provider_timers lib net now st = Some (event_timer now (refresh_timer lib net now st))"
  by (simp add: provider_timers_def event_timer_def refresh_timer_def event_frame Let_def split: prod.split)

lemma event_timer_keeps [simp]:
  "pv_api (snd (event_timer now st)) = pv_api st" "pv_world (snd (event_timer now st)) = pv_world st"
  "pv_last_refresh (snd (event_timer now st)) = pv_last_refresh st" "pv_subs (snd (event_timer now st)) = pv_subs st"
  by (simp_all add: event_timer_def)

text \<open>What a received datagram does: the answers, the subscribers, and whether the pass gets to its timers.
  The tick and the subscribers have no say in the last.\<close>

definition handled :: "(sockaddr \<times> bytes) option \<Rightarrow> 'w ProviderState \<Rightarrow> flow \<times> (sockaddr \<times> bytes) list \<times> subscribers" where
  "handled received st =
     (case received of
        None \<Rightarrow> (FallThrough, [], pv_subs st)
      | Some (peer, d) \<Rightarrow>
          if d = [] then (FallThrough, [], pv_subs st) else provider_datagram (pv_tick st) peer (take 4096 d) (pv_subs st))"

definition reaches_timers :: "(sockaddr \<times> bytes) option \<Rightarrow> bool" where
  "reaches_timers received = (case received of
       None \<Rightarrow> True
     | Some (peer, d) \<Rightarrow> d = [] \<or> fst (provider_datagram 0 peer (take 4096 d) Map.empty) = FallThrough)"

lemma flow_independent:
  "fst (provider_datagram tick peer buf subs) = fst (provider_datagram 0 peer buf Map.empty)"
  by (simp add: provider_datagram_def split: sum.split prod.split)

lemma handled_flow: "fst (handled received st) = FallThrough \<longleftrightarrow> reaches_timers received"
proof (cases received)
  case (Some p)
  then show ?thesis
    using flow_independent [of "pv_tick st" "fst p" "take 4096 (snd p)" "pv_subs st"]
    by (cases p) (simp add: handled_def reaches_timers_def)
qed (simp add: handled_def reaches_timers_def)

lemma pass_split:
  "provider_pass lib net received now st =
     (case handled received st of (flow, out, subs) \<Rightarrow>
        Some (if flow = FallThrough
              then apfst ((@) out) (event_timer now (refresh_timer lib net now (st\<lparr> pv_subs := subs \<rparr>)))
              else (out, st\<lparr> pv_subs := subs \<rparr>)))"
  by (cases st) (auto simp: provider_pass_def handled_def provider_timers_split apfst_def map_prod_def
      split: option.split prod.split flow.split)

text \<open>Whether a pass refreshes, and what it does to the client and the world then.\<close>

definition timers_effect ::
    "inet_lib \<Rightarrow> (nat \<Rightarrow> fate) \<Rightarrow> bool \<Rightarrow> int \<Rightarrow> faulty_world ProviderState \<Rightarrow> faulty_world ProviderState \<Rightarrow> bool" where
  "timers_effect lib fate_of due now st st' \<longleftrightarrow>
     (if due
      then pv_api st' = (pv_api st)\<lparr> api_next_request_id := api_next_request_id (pv_api st) + 1 \<rparr>
         \<and> pv_world st' = (Suc (fst (pv_world st)),
             if arrives (fate_of (fst (pv_world st))) then refreshed lib (snd (pv_world st)) else snd (pv_world st))
         \<and> pv_last_refresh st' = now
      else pv_api st' = pv_api st \<and> pv_world st' = pv_world st \<and> pv_last_refresh st' = pv_last_refresh st)"

context inet_conv
begin

lemma pass_faulty:
  assumes "control_ready (pv_api st)" and "unat (api_next_request_id (pv_api st)) < 65536"
  shows "\<exists>sent st'. provider_pass lib (faulty_net lib order fate_of) received now st = Some (sent, st')
    \<and> timers_effect lib fate_of (reaches_timers received \<and> now - pv_last_refresh st \<ge> 2000000000) now st st'"
proof -
  obtain flow out subs where h: "handled received st = (flow, out, subs)" by (rule prod_cases3)
  have flow: "flow = FallThrough \<longleftrightarrow> reaches_timers received" using handled_flow [of received st] h by simp
  let ?st = "st\<lparr> pv_subs := subs \<rparr>"
  have "refresh_timer lib (faulty_net lib order fate_of) now ?st
      = (if now - pv_last_refresh st \<ge> 2000000000
         then ?st\<lparr> pv_api := (pv_api st)\<lparr> api_next_request_id := api_next_request_id (pv_api st) + 1 \<rparr>,
                   pv_world := (Suc (fst (pv_world st)),
                     if arrives (fate_of (fst (pv_world st))) then refreshed lib (snd (pv_world st)) else snd (pv_world st)),
                   pv_last_refresh := now \<rparr>
         else ?st)"
    using assms by (simp add: refresh_timer_def faulty_register)
  with h flow show ?thesis
    by (cases "event_timer now (refresh_timer lib (faulty_net lib order fate_of) now ?st)")
      (auto simp: pass_split timers_effect_def dest!: arg_cong [where f = snd] simp flip: surjective_pairing)
qed

end

section \<open>Leaving nothing behind\<close>

text \<open>The client's counter has room for \<open>n\<close> more requests, and the registry differs from \<open>reg\<close> only under
  the provider's key and by entries that have expired.\<close>

definition leaves_others :: "registry \<Rightarrow> nat \<Rightarrow> faulty_world ProviderState \<Rightarrow> bool" where
  "leaves_others reg n st \<longleftrightarrow> control_ready (pv_api st) \<and> unat (api_next_request_id (pv_api st)) + n < 65536
     \<and> 0 < fst (pv_world st)
     \<and> (\<forall>k. k \<noteq> provider_key \<longrightarrow> fst (snd (pv_world st)) k = None \<or> fst (snd (pv_world st)) k = reg k)"

lemma next_id: "unat i + n < 65536 \<Longrightarrow> 0 < n \<Longrightarrow> unat (i + 1 :: u32) = unat i + 1"
  by (simp add: unat_word_ariths)

lemma next_id_bound: "unat i + Suc n < 65536 \<Longrightarrow> unat (i + 1 :: u32) + n < 65536"
  using next_id [of i "Suc n"] by simp

lemma leaves_others_env:
  "leaves_others reg n st \<Longrightarrow> leaves_others reg n (st\<lparr> pv_world := faulty_env order now (pv_world st) \<rparr>)"
  unfolding leaves_others_def faulty_env_def using advance_at by simp metis

context inet_conv
begin

lemma pass_leaves_others:
  assumes "leaves_others reg (Suc n) st"
  shows "\<exists>sent st'. provider_pass lib (faulty_net lib order fate_of) received now st = Some (sent, st')
    \<and> leaves_others reg n st'"
proof -
  have "control_ready (pv_api st)" "unat (api_next_request_id (pv_api st)) < 65536"
    using assms by (simp_all add: leaves_others_def)
  from pass_faulty [OF this, of order fate_of received now] show ?thesis
    using assms next_id_bound [of "api_next_request_id (pv_api st)" n]
    by (fastforce simp: leaves_others_def timers_effect_def refreshed_at control_ready_def split: if_splits)
qed

lemma loop_leaves_others:
  assumes "leaves_others reg (n + length passes) st"
  shows "\<exists>sent st'. provider_loop lib (faulty_net lib order fate_of) (faulty_env order) passes st = Some (sent, st')
    \<and> leaves_others reg n st'"
  using assms
proof (induction passes arbitrary: st)
  case (Cons p passes)
  obtain received now where p: "p = (received, now)" by fastforce
  let ?st = "st\<lparr> pv_world := faulty_env order now (pv_world st) \<rparr>"
  have "leaves_others reg (Suc (n + length passes)) ?st" using Cons.prems leaves_others_env by simp
  from pass_leaves_others [OF this, of order fate_of received now] obtain sent st' where
    1: "provider_pass lib (faulty_net lib order fate_of) received now ?st = Some (sent, st')"
    and "leaves_others reg (n + length passes) st'" by blast
  from Cons.IH [OF this(2)] 1 p show ?case by force
qed simp

end

section \<open>Staying registered\<close>

text \<open>Each clock reading comes at most \<open>g\<close> nanoseconds after the one before.\<close>

fun spaced :: "int \<Rightarrow> int \<Rightarrow> int list \<Rightarrow> bool" where
  "spaced g t [] = (t < 2 ^ 63)"
| "spaced g t (now # nows) = (t \<le> now \<and> now \<le> t + g \<and> spaced g now nows)"

lemma ms_of_unat:
  assumes "0 \<le> t" and "t < 2 ^ 63"
  shows "unat (ms_of t) = nat (t div 1000000)"
proof -
  have "0 \<le> t div 1000000" "t div 1000000 < 2 ^ 64" using assms by auto
  then have "uint (ms_of t) = t div 1000000" by (simp add: ms_of_def uint_word_of_int)
  then show ?thesis by (simp add: unat_eq_nat_uint)
qed

lemma spaced_bound: "spaced g t nows \<Longrightarrow> t < 2 ^ 63"
  by (induction g t nows rule: spaced.induct) auto

lemma before_expiry:
  assumes "0 \<le> r" and "r \<le> now" and "now < r + 4999000000" and "now < 2 ^ 63"
  shows "ms_of now < ms_of r + 5000"
proof -
  have "now div 1000000 < r div 1000000 + 5000" using assms(3) by simp
  moreover have "unat (ms_of r + 5000) = nat (r div 1000000) + 5000"
  proof -
    have "unat (ms_of r) = nat (r div 1000000)" using assms by (intro ms_of_unat) auto
    moreover have "r div 1000000 < 2 ^ 63 div 1000000 + 1" using assms by simp
    ultimately show ?thesis by (subst unat_plus_simple [THEN iffD1]) (auto simp: word_le_nat_alt unat_word_ariths)
  qed
  moreover have "unat (ms_of now) = nat (now div 1000000)" using assms by (intro ms_of_unat) auto
  ultimately show ?thesis using assms by (simp add: word_less_nat_alt nat_less_iff)
qed

text \<open>The bounds: passes at most \<open>g\<close> apart, a set-up of at most \<open>d\<close> between the registration and the first
  reading of the clock, and at most \<open>k\<close> requests lost in a row. Then \<open>k + 1\<close> refresh intervals, each stretched
  by a pass, stay below the time to live.\<close>

definition timely :: "int \<Rightarrow> int \<Rightarrow> nat \<Rightarrow> (nat \<Rightarrow> fate) \<Rightarrow> bool" where
  "timely g d k fate_of \<longleftrightarrow> 0 \<le> g \<and> 0 \<le> d \<and> int (k + 1) * (2000000000 + g) + d < 4999000000
     \<and> (\<forall>n. \<exists>j \<le> k. arrives (fate_of (n + j)))"

text \<open>At time \<open>t\<close> the daemon has the provider's entry from the last refresh that arrived, at time \<open>r\<close>; the
  \<open>c\<close> refreshes since were lost.\<close>

definition listed ::
    "inet_lib \<Rightarrow> int \<Rightarrow> int \<Rightarrow> nat \<Rightarrow> (nat \<Rightarrow> fate) \<Rightarrow> int \<Rightarrow> int \<Rightarrow> nat \<Rightarrow> faulty_world ProviderState \<Rightarrow> bool" where
  "listed lib g d k fate_of t r c st \<longleftrightarrow>
     fst (snd (pv_world st)) provider_key =
       Some \<lparr> descriptor = wire_descriptor lib provider_descriptor, expires_at_ms = ms_of r + 5000 \<rparr>
     \<and> 0 \<le> r \<and> r \<le> pv_last_refresh st \<and> pv_last_refresh st \<le> t \<and> t < pv_last_refresh st + 2000000000
     \<and> pv_last_refresh st \<le> r + d + int c * (2000000000 + g)
     \<and> c \<le> k \<and> c \<le> fst (pv_world st) \<and> (\<forall>j < c. \<not> arrives (fate_of (fst (pv_world st) - Suc j)))"

lemma lost_in_a_row:
  assumes "timely g d k fate_of" and "c \<le> k" and "c \<le> n" and "\<forall>j < c. \<not> arrives (fate_of (n - Suc j))"
    and "\<not> arrives (fate_of n)"
  shows "Suc c \<le> k" and "\<forall>j < Suc c. \<not> arrives (fate_of (Suc n - Suc j))"
proof -
  show lost: "\<forall>j < Suc c. \<not> arrives (fate_of (Suc n - Suc j))"
  proof (intro allI impI)
    fix j assume "j < Suc c"
    with assms(4,5) show "\<not> arrives (fate_of (Suc n - Suc j))" by (cases j) auto
  qed
  show "Suc c \<le> k"
  proof (rule ccontr)
    assume "\<not> Suc c \<le> k"
    with assms(2) have c: "c = k" by simp
    from assms(1) obtain j where "j \<le> k" "arrives (fate_of (n - k + j))" unfolding timely_def by blast
    moreover have "n - k + j = Suc n - Suc (k - j)" using \<open>j \<le> k\<close> assms(3) c by simp
    ultimately show False using lost c by (metis diff_le_self le_imp_less_Suc)
  qed
qed

text \<open>The entry is alive at the next reading of the clock.\<close>

lemma listed_next:
  assumes "timely g d k fate_of" and "listed lib g d k fate_of t r c st" and "t \<le> now" and "now \<le> t + g" and "now < 2 ^ 63"
  shows "r \<le> now" and "now < pv_last_refresh st + 2000000000 + g"
    and "fst (snd (faulty_env order now (pv_world st))) provider_key
      = Some \<lparr> descriptor = wire_descriptor lib provider_descriptor, expires_at_ms = ms_of r + 5000 \<rparr>"
    and "ms_of now < ms_of r + 5000"
proof -
  show r: "r \<le> now" and l: "now < pv_last_refresh st + 2000000000 + g" using assms(2-4) by (auto simp: listed_def)
  have "int c * (2000000000 + g) \<le> int k * (2000000000 + g)"
    using assms(1,2) by (intro mult_right_mono) (auto simp: listed_def timely_def)
  moreover have "int (k + 1) * (2000000000 + g) = int k * (2000000000 + g) + (2000000000 + g)"
    by (simp add: distrib_right)
  ultimately have "now < r + 4999000000"
    using l assms(1,2) unfolding listed_def timely_def by linarith
  moreover have "0 \<le> r" using assms(2) by (simp add: listed_def)
  ultimately show m: "ms_of now < ms_of r + 5000" using r assms(5) by (intro before_expiry)
  then show "fst (snd (faulty_env order now (pv_world st))) provider_key
      = Some \<lparr> descriptor = wire_descriptor lib provider_descriptor, expires_at_ms = ms_of r + 5000 \<rparr>"
    using assms(2) by (simp add: faulty_env_def listed_def advance_keeps)
qed

context inet_conv
begin

lemma pass_listed:
  assumes "timely g d k fate_of" and "listed lib g d k fate_of t r c st" and "t \<le> now" and "now \<le> t + g"
    and "now < 2 ^ 63" and "reaches_timers received" and "leaves_others reg (Suc n) st"
  shows "\<exists>sent st' r c. provider_pass lib (faulty_net lib order fate_of) received now
      (st\<lparr> pv_world := faulty_env order now (pv_world st) \<rparr>) = Some (sent, st')
    \<and> listed lib g d k fate_of now r c st' \<and> leaves_others reg n st'"
proof -
  let ?st = "st\<lparr> pv_world := faulty_env order now (pv_world st) \<rparr>" and ?n = "fst (pv_world st)"
  have st: "leaves_others reg (Suc n) ?st" using assms(7) by (rule leaves_others_env)
  then have "control_ready (pv_api ?st)" "unat (api_next_request_id (pv_api ?st)) < 65536"
    by (simp_all add: leaves_others_def)
  from pass_faulty [OF this, of order fate_of received now] pass_leaves_others [OF st, of order fate_of received now]
  obtain sent st' where p: "provider_pass lib (faulty_net lib order fate_of) received now ?st = Some (sent, st')"
    and e: "timers_effect lib fate_of (now - pv_last_refresh st \<ge> 2000000000) now ?st st'" and l: "leaves_others reg n st'"
    using assms(6) by auto
  note next' = listed_next [OF assms(1-5)]
  note old = assms(2) [unfolded listed_def]
  have world: "fst (faulty_env order now (pv_world st)) = ?n"
    "snd (snd (faulty_env order now (pv_world st))) = ms_of now" by (simp_all add: faulty_env_def)
  have "\<exists>r c. listed lib g d k fate_of now r c st'"
  proof (cases "now - pv_last_refresh st \<ge> 2000000000")
    case False
    with e have "pv_world st' = faulty_env order now (pv_world st)" "pv_last_refresh st' = pv_last_refresh st"
      by (simp_all add: timers_effect_def)
    with old next' assms(3) False world have "listed lib g d k fate_of now r c st'"
      unfolding listed_def by simp
    then show ?thesis by blast
  next
    case True
    with e have w: "pv_world st' = (Suc ?n, if arrives (fate_of ?n) then refreshed lib (snd (faulty_env order now (pv_world st)))
        else snd (faulty_env order now (pv_world st)))" "pv_last_refresh st' = now"
      by (simp_all add: timers_effect_def world)
    have now: "0 \<le> now" using old next'(1) by simp
    show ?thesis
    proof (cases "arrives (fate_of ?n)")
      case True
      have "listed lib g d k fate_of now now 0 st'"
        using True w now assms(1)
        by (simp add: listed_def timely_def refreshed_def register_effect_def wire_ttl_def world)
      then show ?thesis by blast
    next
      case False
      have "now \<le> r + d + int (Suc c) * (2000000000 + g)"
        using old next'(2) by (simp add: distrib_right)
      then have "listed lib g d k fate_of now r (Suc c) st'"
        using False w now old next' lost_in_a_row [OF assms(1) _ _ _ False, of c] unfolding listed_def by simp
      then show ?thesis by blast
    qed
  qed
  with p l show ?thesis by blast
qed

text \<open>At every reading of the clock, before the pass acts on it, the entry is there.\<close>

lemma loop_listed:
  assumes "timely g d k fate_of" and "listed lib g d k fate_of t r c st"
    and "spaced g t (map snd (ps @ (received, now) # rest))" and "\<forall>p \<in> set ps. reaches_timers (fst p)"
    and "leaves_others reg (n + length ps) st"
  shows "\<exists>sent st' r. provider_loop lib (faulty_net lib order fate_of) (faulty_env order) ps st = Some (sent, st')
    \<and> leaves_others reg n st' \<and> ms_of now < ms_of r + 5000
    \<and> fst (snd (faulty_env order now (pv_world st'))) provider_key
        = Some \<lparr> descriptor = wire_descriptor lib provider_descriptor, expires_at_ms = ms_of r + 5000 \<rparr>"
  using assms(2-)
proof (induction ps arbitrary: t r c st)
  case Nil
  then have "t \<le> now" "now \<le> t + g" "now < 2 ^ 63" using spaced_bound by auto
  from listed_next [OF assms(1) Nil.prems(1) this] Nil.prems(4) show ?case by auto
next
  case (Cons p ps)
  obtain rec' now' where p: "p = (rec', now')" by fastforce
  have now: "t \<le> now'" "now' \<le> t + g" "spaced g now' (map snd (ps @ (received, now) # rest))" "reaches_timers rec'"
    using Cons.prems(2,3) p by auto
  have "leaves_others reg (Suc (n + length ps)) st" using Cons.prems(4) by simp
  from pass_listed [OF assms(1) Cons.prems(1) now(1,2) spaced_bound [OF now(3)] now(4) this, of order]
  obtain sent st' r' c' where 1: "provider_pass lib (faulty_net lib order fate_of) rec' now'
        (st\<lparr> pv_world := faulty_env order now' (pv_world st) \<rparr>) = Some (sent, st')"
    and 2: "listed lib g d k fate_of now' r' c' st'" "leaves_others reg (n + length ps) st'" by blast
  have "\<forall>p \<in> set ps. reaches_timers (fst p)" using Cons.prems(3) by simp
  from Cons.IH [OF 2(1) now(3) this 2(2)] 1 p show ?case by force
qed

end

section \<open>The start\<close>

lemma provider_api_fresh [simp]:
  "control_ready provider_api" "api_next_request_id provider_api = 1"
  "timeout_error provider_api = ControlTimeout"
  by (simp_all add: provider_api_def SetDiscoveryMulticast_def new_SomeIpSdApi_def control_ready_def timeout_error_def)

text \<open>The state in which \<open>main\<close> enters its loop.\<close>

definition provider_start :: "inet_lib \<Rightarrow> provider_io \<Rightarrow> clock_world \<Rightarrow> faulty_world ProviderState" where
  "provider_start lib io w = \<lparr> pv_api = provider_api\<lparr> api_next_request_id := 2 \<rparr>, pv_world = (1, refreshed lib w),
     pv_subs = Map.empty, pv_tick = 0, pv_last_refresh = pio_last_refresh io, pv_last_event = pio_last_event io \<rparr>"

context inet_conv
begin

lemma first_registration:
  "RegisterService lib (faulty_net lib order fate_of) provider_descriptor 5 provider_api (0, w)
    = (if answered (fate_of 0) then Inr () else Inl ControlTimeout, provider_api\<lparr> api_next_request_id := 2 \<rparr>,
       1, if arrives (fate_of 0) then refreshed lib w else w)"
  by (subst faulty_register) simp_all

lemma last_request:
  assumes "control_ready api" and "unat (api_next_request_id api) < 65536"
  shows "snd (snd (UnregisterService lib (faulty_net lib order fate_of) kServiceId kInstanceId api v))
    = (Suc (fst v), if arrives (fate_of (fst v)) then (fst (snd v))(provider_key := None) else fst (snd v), snd (snd v))"
  using faulty_unregister [OF assms] by simp

lemma provider_main_eq:
  "provider_main lib (faulty_net lib order fate_of) (faulty_env order) io (0, w) =
     (let unregister = (\<lambda>st. snd (snd (UnregisterService lib (faulty_net lib order fate_of) kServiceId kInstanceId
            (pv_api st) (pv_world st))))
      in if \<not> answered (fate_of 0)
         then Some (RegisterFailed ControlTimeout, [], 1, if arrives (fate_of 0) then refreshed lib w else w)
         else if \<not> pio_socket_ok io then Some (ProviderSocketFailed, [], unregister (provider_start lib io w))
         else if \<not> pio_bind_ok io then Some (ProviderBindFailed, [], unregister (provider_start lib io w))
         else map_option (\<lambda>(sent, st). (ProviderStopped, sent, unregister st))
           (provider_loop lib (faulty_net lib order fate_of) (faulty_env order) (pio_passes io) (provider_start lib io w)))"
proof -
  have "arrives (fate_of 0)" if "answered (fate_of 0)" using that by (auto simp: answered_def arrives_def)
  moreover have "service_id provider_descriptor = kServiceId" "instance_id provider_descriptor = kInstanceId"
    by (simp_all add: provider_descriptor_def)
  ultimately show ?thesis
    unfolding provider_main_def Let_def first_registration
    by (auto simp: provider_start_def split: option.split)
qed

lemma start_leaves_others:
  "n < 65534 \<Longrightarrow> leaves_others (fst w) n (provider_start lib io w)"
  by (simp add: leaves_others_def provider_start_def refreshed_at control_ready_def provider_api_def
      SetDiscoveryMulticast_def new_SomeIpSdApi_def)

end

section \<open>Properties\<close>


definition one_lost :: "nat \<Rightarrow> fate" where
  "one_lost n = (if n = 1 then RequestLost else Delivered)"

definition one_unanswered :: "nat \<Rightarrow> fate" where
  "one_unanswered n = (if n = 1 then ReplyLost else Delivered)"

definition sample_io :: provider_io where
  "sample_io = \<lparr> pio_socket_ok = True, pio_bind_ok = True, pio_last_refresh = 0, pio_last_event = 0,
     pio_passes = [(None, 1000000000), (Some (\<lparr> sin_addr = 1, sin_port = 2 \<rparr>, sample_call_frame), 2100000000)] \<rparr>"


text \<open>C34. A provider that is left its passes stays registered, without a gap. Its first registration was
  answered, its passes are not diverted from their timers and come at most \<open>g\<close> apart, not more than \<open>k\<close> of
  its requests are lost in a row, and \<open>k + 1\<close> times (2 seconds + \<open>g\<close>), with the time its set-up took, is less
  than 4.999 seconds. Then at every reading of its clock, before the pass acts on it and after the daemon has
  swept at that time, its entry is in the registry and not expired (as long as its request ids last).\<close>

theorem provider_stays_registered:
  assumes "inet_conv lib" and "answered (fate_of 0)" and "timely g d k fate_of"
    and "snd w = ms_of r" and "0 \<le> r" and "r \<le> pio_last_refresh io" and "pio_last_refresh io \<le> r + d"
    and "pio_passes io = ps @ (received, now) # rest" and "spaced g (pio_last_refresh io) (map snd (pio_passes io))"
    and "\<forall>p \<in> set ps. reaches_timers (fst p)" and "length ps < 65533"
  shows "snd (RegisterService lib (faulty_net lib order fate_of) provider_descriptor 5 provider_api (0, w))
        = (pv_api (provider_start lib io w), pv_world (provider_start lib io w))
    \<and> (\<exists>sent st e. provider_loop lib (faulty_net lib order fate_of) (faulty_env order) ps (provider_start lib io w)
          = Some (sent, st)
        \<and> fst (snd (faulty_env order now (pv_world st))) provider_key = Some e
        \<and> descriptor e = wire_descriptor lib provider_descriptor \<and> ms_of now < expires_at_ms e)"
proof
  have "arrives (fate_of 0)" using assms(2) by (auto simp: answered_def arrives_def)
  then show "snd (RegisterService lib (faulty_net lib order fate_of) provider_descriptor 5 provider_api (0, w))
      = (pv_api (provider_start lib io w), pv_world (provider_start lib io w))"
    by (simp add: inet_conv.first_registration [OF assms(1)] provider_start_def)
  have "listed lib g d k fate_of (pio_last_refresh io) r 0 (provider_start lib io w)"
    using assms(4-7) by (simp add: listed_def provider_start_def refreshed_def register_effect_def wire_ttl_def)
  moreover have "leaves_others (fst w) (0 + length ps) (provider_start lib io w)"
    using assms(11) by (intro inet_conv.start_leaves_others [OF assms(1)]) simp
  ultimately obtain sent st r' where
    "provider_loop lib (faulty_net lib order fate_of) (faulty_env order) ps (provider_start lib io w) = Some (sent, st)"
    "ms_of now < ms_of r' + 5000"
    "fst (snd (faulty_env order now (pv_world st))) provider_key
      = Some \<lparr> descriptor = wire_descriptor lib provider_descriptor, expires_at_ms = ms_of r' + 5000 \<rparr>"
    using inet_conv.loop_listed [OF assms(1,3) _ assms(9) [unfolded assms(8)] assms(10), of r 0 _ "fst w" 0 order]
    by blast
  then show "\<exists>sent st e. provider_loop lib (faulty_net lib order fate_of) (faulty_env order) ps (provider_start lib io w)
        = Some (sent, st)
      \<and> fst (snd (faulty_env order now (pv_world st))) provider_key = Some e
      \<and> descriptor e = wire_descriptor lib provider_descriptor \<and> ms_of now < expires_at_ms e" by auto
qed

text \<open>Silent passes, 300 milliseconds apart, for 7.2 seconds, with the first refresh lost.\<close>

definition silent_passes :: "nat \<Rightarrow> ((sockaddr \<times> bytes) option \<times> int) list" where
  "silent_passes n = map (\<lambda>i. (None, 300000000 * (1 + int i))) [0..<n]"

lemma one_lost_timely: "timely 300000000 0 1 one_lost"
  unfolding timely_def
proof (intro conjI allI)
  fix n show "\<exists>j \<le> 1. arrives (one_lost (n + j))"
    by (cases "n = 1") (auto simp: one_lost_def arrives_def intro: exI [of _ 0] exI [of _ 1])
qed simp_all

lemma silent_spaced: "0 \<le> t \<Longrightarrow> t + 300000000 * int n < 2 ^ 63 \<Longrightarrow>
    spaced 300000000 t (map (\<lambda>i. t + 300000000 * (1 + int i)) [0..<n])"
proof (induction n arbitrary: t)
  case (Suc n)
  have "map (\<lambda>i. t + 300000000 * (1 + int i)) [0..<Suc n]
      = (t + 300000000) # map (\<lambda>i. (t + 300000000) + 300000000 * (1 + int i)) [0..<n]"
    by (simp add: map_upt_Suc algebra_simps del: upt_Suc)
  moreover have "spaced 300000000 (t + 300000000) (map (\<lambda>i. (t + 300000000) + 300000000 * (1 + int i)) [0..<n])"
    using Suc.prems by (intro Suc.IH) auto
  ultimately show ?case by simp
qed simp

theorem provider_stays_registered_witness:
  "\<exists>sent st e. provider_loop dotted (faulty_net dotted key_order one_lost) (faulty_env key_order) (silent_passes 23)
       (provider_start dotted (sample_io\<lparr> pio_passes := silent_passes 24 \<rparr>) (Map.empty, 0)) = Some (sent, st)
     \<and> fst (snd (faulty_env key_order 7200000000 (pv_world st))) provider_key = Some e
     \<and> ms_of 7200000000 < expires_at_ms e"
proof -
  let ?io = "sample_io\<lparr> pio_passes := silent_passes 24 \<rparr>"
  have split: "pio_passes ?io = silent_passes 23 @ (None, 7200000000) # []"
    by (simp add: silent_passes_def del: upt_rec_numeral) (simp add: numeral_eq_Suc)
  note one_lost_timely
  moreover have "spaced 300000000 (pio_last_refresh ?io) (map snd (pio_passes ?io))"
    using silent_spaced [of 0 24] by (simp add: sample_io_def silent_passes_def comp_def)
  moreover have "\<forall>p \<in> set (silent_passes 23). reaches_timers (fst p)"
    by (auto simp: silent_passes_def reaches_timers_def)
  moreover have "answered (one_lost 0)" by (simp add: one_lost_def answered_def)
  moreover have "length (silent_passes 23) < 65533" by (simp add: silent_passes_def)
  ultimately show ?thesis
    using provider_stays_registered [OF dotted.inet_conv_axioms, of one_lost 300000000 0 1 "(Map.empty, 0)" 0 ?io
        "silent_passes 23" None 7200000000 "[]" key_order] split
    by (auto simp: sample_io_def ms_of_def)
qed

end
