(* ===== verification/Sd_Canonical.thy ===== *)
theory Sd_Canonical
  imports Sd_Serve
begin

text \<open>
  The type of what the registry stores. A datagram may carry any bytes, but the descriptor the daemon
  stores is one the parser made: its transport is \<open>udp\<close> and its host the text of an IPv4 address, so
  resolving and printing the host again gives the same text. Such a descriptor is canonical; sent to a
  client it arrives unchanged. That every stored descriptor is canonical follows from the refinement
  of \<open>Sd_Serve\<close>: an entry stands in the registry only because some datagram put it there.
\<close>

section \<open>Canonical descriptors\<close>

definition canonical :: "inet_lib \<Rightarrow> ServiceDescriptor \<Rightarrow> bool" where
  "canonical lib d \<longleftrightarrow> transport d = ''udp'' \<and> CHR 0x00 \<notin> set (endpoint_host d)
     \<and> (\<exists>q. inet_pton lib (endpoint_host d) = Some q \<and> inet_ntop lib q = Some (endpoint_host d))"

text \<open>How the library writes the address that \<open>ServiceDescriptor\<close> has by default.\<close>

definition prints_loopback :: "inet_lib \<Rightarrow> bool" where
  "prints_loopback lib \<longleftrightarrow> inet_ntop lib INADDR_LOOPBACK_be = Some ''127.0.0.1''"

lemma canonical_wire: "canonical lib d \<Longrightarrow> wire_descriptor lib d = d"
  by (cases d) (auto simp: canonical_def wire_descriptor_def resolve_def c_str_id)

context inet_conv
begin

lemma canonical_ntop:
  assumes "transport d = ''udp''" and "inet_ntop lib q = Some (endpoint_host d)"
  shows "canonical lib d"
  using assms ntop_pton [of q] by (auto simp: canonical_def)

lemma canonical_default:
  "prints_loopback lib \<Longrightarrow> transport d = ''udp'' \<Longrightarrow> endpoint_host d = ''127.0.0.1'' \<Longrightarrow> canonical lib d"
  by (rule canonical_ntop [of _ INADDR_LOOPBACK_be]) (simp_all add: prints_loopback_def)

lemma parsed_option_host:
  assumes "ParseEndpointOption lib opt = Some (host, port, tp)"
  shows "tp = ''udp''" and "\<exists>q. inet_ntop lib q = Some host"
proof -
  obtain q s where s: "inet_ntop lib q = Some s" "host = c_str s" and "tp = ''udp''"
    using assms by (auto simp: ParseEndpointOption_def split: if_splits option.splits)
  have "c_str s = s" using ntop_some [of q] s(1) by auto
  with s have "inet_ntop lib q = Some host" by simp
  then show "\<exists>q. inet_ntop lib q = Some host" ..
  show "tp = ''udp''" by fact
qed

lemma canonical_entry_descriptor:
  assumes "prints_loopback lib"
  shows "canonical lib (entry_descriptor lib options e)"
proof -
  let ?d = "default_descriptor \<lparr> service_id := u16_at e 4, instance_id := u16_at e 6,
    major_version := e ! 8, minor_version := e ! 15 \<rparr>"
  have plain: "canonical lib ?d"
    by (rule canonical_default [OF assms]) (simp_all add: default_descriptor_def)
  have "canonical lib (?d \<lparr> endpoint_host := host, endpoint_port := port, transport := tp \<rparr>)"
    if "ParseEndpointOption lib opt = Some (host, port, tp)" for opt host port tp
    using parsed_option_host [OF that] by (auto intro: canonical_ntop)
  with plain show ?thesis
    by (auto simp: entry_descriptor_def with_endpoint_def Let_def split: option.split)
qed

lemma canonical_parsed:
  assumes "prints_loopback lib" and "ParseSdOfferFirst lib pl = Some (d, ttl)"
  shows "canonical lib d"
  using assms(2) canonical_entry_descriptor [OF assms(1)]
  by (auto simp: ParseSdOfferFirst_def Let_def split: option.splits if_splits)

lemma canonical_put:
  assumes "prints_loopback lib" and "datagram_op lib now data = Some (Put k d t)"
  shows "canonical lib d"
  using assms(2) canonical_parsed [OF assms(1)]
  by (auto simp: datagram_op_def packet_op_def split: sum.splits option.splits if_splits)

lemma canonical_history:
  assumes "prints_loopback lib" and "Put k d t \<in> set (history_ops lib es)"
  shows "canonical lib d"
proof -
  obtain ev where "Put k d t \<in> set (event_ops lib ev)" using assms(2) by (auto simp: history_ops_def)
  then show ?thesis
    by (cases ev) (auto simp: event_ops_def opt_list_def split: option.splits
        intro: canonical_put [OF assms(1), OF sym])
qed

lemma canonical_reached:
  assumes "prints_loopback lib" and "serve_run lib u (serve_start t0) es s" and "sv_reg s k = Some e"
  shows "canonical lib (descriptor e)"
proof -
  have "sv_reg (serve_start t0) k = None" by (simp add: serve_start_def)
  moreover have "sv_reg s k = Some \<lparr> descriptor = descriptor e, expires_at_ms = expires_at_ms e \<rparr>"
    using assms(3) by simp
  ultimately obtain xs ys where
    "history_ops lib es = xs @ Put k (descriptor e) (unat (expires_at_ms e)) # ys"
    using run_history_entry [OF assms(2)] by blast
  then show ?thesis by (intro canonical_history [OF assms(1), of k _ "unat (expires_at_ms e)" es]) simp
qed

end

section \<open>Property\<close>

lemma matches_loop_ran: "set (matches_loop ks m s i acc) \<subseteq> set acc \<union> ran m"
proof (induction ks m s i acc rule: matches_loop.induct)
  case (2 k ks m s i acc)
  have "m k = Some svc \<Longrightarrow> svc \<in> ran m" for svc by (rule ranI)
  with 2 show ?case by (cases "m k") (simp_all, blast+)
qed simp

lemma find_reply_ran: "d \<in> set (find_reply lib ks m s i) \<Longrightarrow> \<exists>k e. m k = Some e \<and> d = descriptor e"
  using matches_loop_ran [of ks m s i "[]"] by (fastforce simp: find_reply_def ran_def)

text \<open>C15. Whatever datagrams arrive, every descriptor in the registry has transport \<open>udp\<close> and a host
  that the address library prints for some address and reads back, and is what the wire makes of it;
  so a reply to a Find of up to 256 services is read back by the client as exactly the descriptors the
  registry holds.\<close>

theorem registry_holds_canonical:
  assumes "inet_conv lib" and "prints_loopback lib" and "serve_run lib u (serve_start t0) es s"
  shows "(\<forall>k e. sv_reg s k = Some e \<longrightarrow>
       canonical lib (descriptor e) \<and> wire_descriptor lib (descriptor e) = descriptor e)
    \<and> (let reply = find_reply lib ks (sv_reg s) sid i in length reply \<le> 256 \<longrightarrow>
         ParseSdOffers lib (BuildSdOfferPayloadList lib reply 3) = Some reply)"
proof -
  have reg: "canonical lib (descriptor e)" if "sv_reg s k = Some e" for k e
    using inet_conv.canonical_reached [OF assms that] .
  have "map (wire_descriptor lib) (find_reply lib ks (sv_reg s) sid i) = find_reply lib ks (sv_reg s) sid i"
    by (rule map_idI) (auto dest!: find_reply_ran intro: canonical_wire reg)
  then have "length (find_reply lib ks (sv_reg s) sid i) \<le> 256 \<Longrightarrow>
      ParseSdOffers lib (BuildSdOfferPayloadList lib (find_reply lib ks (sv_reg s) sid i) 3)
        = Some (find_reply lib ks (sv_reg s) sid i)"
    using inet_conv.parse_offer_list_256 [OF assms(1)] by metis
  with reg canonical_wire show ?thesis by (auto simp: Let_def)
qed

lemma dotted_prints_loopback: "prints_loopback dotted"
  by (simp add: prints_loopback_def dotted_def INADDR_LOOPBACK_be_def octet_text_def digit_char_def)
    (simp add: char_of_def bit_simps)

theorem registry_holds_canonical_witness:
  "canonical dotted (descriptor (the (sv_reg sample_end (MakeRegistryKey 0x1234 1))))"
proof -
  have "map_option expires_at_ms (sv_reg sample_end (MakeRegistryKey 0x1234 1)) = Some 2020" by code_simp
  then obtain e where "sv_reg sample_end (MakeRegistryKey 0x1234 1) = Some e" by auto
  with registry_holds_canonical [OF dotted.inet_conv_axioms dotted_prints_loopback sample_run, of "[]" 0 None]
  show ?thesis by simp
qed

end
