(* ===== verification/Demo_System.thy ===== *)
theory Demo_System
  imports Consumer_Demo Provider_Main Sd_Canonical
begin

text \<open>
  The two demo programs and the daemon together: the provider registers, time passes, the consumer
  discovers it, and its calls go to the endpoint it was told. \<open>consumer_program\<close> is \<open>main\<close> of
  \<open>consumer_demo.cpp\<close> from its first line; what its socket calls give depends on the host and the port
  they are addressed to.
\<close>

section \<open>The consumer from its first line\<close>

definition consumer_program ::
    "VehicleStatusEvent \<Rightarrow> GetVehicleStatusResponse \<Rightarrow> inet_lib \<Rightarrow> discover_setup \<Rightarrow>
     (string \<Rightarrow> u16 \<Rightarrow> bytes \<Rightarrow> 'w \<Rightarrow> (int \<times> round) list \<times> 'w) \<Rightarrow> int \<Rightarrow> (string \<Rightarrow> u16 \<Rightarrow> consumer_io) \<Rightarrow>
     'w \<Rightarrow> consumer_exit \<times> 'w" where
  "consumer_program temp uninit lib setup net start io w =
     (let api = SetDiscoveryMulticast ''239.255.0.1'' 30490 ''127.0.0.1''
                  (new_SomeIpSdApi ''127.0.0.1'' 30490 1000);
          (discovered, api, w) = DiscoverServices lib setup net start kServiceId (Some kInstanceId) 1000 api w;
          provider = hd (fst discovered)
      in (consumer_main temp uninit discovered (io (endpoint_host provider) (endpoint_port provider)), w))"

section \<open>What the provider sends to one peer\<close>

definition inbox :: "sockaddr \<Rightarrow> (sockaddr \<times> bytes) list \<Rightarrow> bytes list" where
  "inbox peer sent = map snd (filter (\<lambda>m. fst m = peer) sent)"

lemma inbox_append [simp]: "inbox peer (xs @ ys) = inbox peer xs @ inbox peer ys"
  by (simp add: inbox_def)

lemma inbox_Nil [simp]: "inbox peer [] = []"
  by (simp add: inbox_def)

lemma inbox_broadcast:
  assumes "subs_ok subs"
  shows "inbox peer (map (\<lambda>sub. (sub, out)) (subscriber_list subs)) = (if peer \<in> ran subs then [out] else [])"
proof -
  have "filter (\<lambda>p. p = peer) xs = (if peer \<in> set xs then [peer] else [])" if "distinct xs" for xs
    using that by (induction xs) (auto simp: filter_empty_conv)
  from this [OF subscriber_list_ok(1) [OF assms]] show ?thesis
    by (simp add: inbox_def filter_map comp_def subscriber_list_ok(2) [OF assms])
qed

text \<open>A pass does not receive from the peer.\<close>

definition foreign :: "sockaddr \<Rightarrow> (sockaddr \<times> bytes) option \<Rightarrow> bool" where
  "foreign peer received = (case received of None \<Rightarrow> True | Some (p, d) \<Rightarrow> p \<noteq> peer)"

lemma ran_subscribe: "subs_ok subs \<Longrightarrow> ran (subs(PeerKey p \<mapsto> p)) = insert p (ran subs)"
proof -
  assume ok: "subs_ok subs"
  have "x \<in> ran (subs(PeerKey p \<mapsto> p))" if "subs k = Some x" for k x
  proof -
    from that ok have "k = PeerKey x" by (simp add: subs_ok_def)
    with that show ?thesis by (intro ranI [of _ k]) simp
  qed
  moreover have "p \<in> ran (subs(PeerKey p \<mapsto> p))" by (auto simp: ran_def)
  moreover have "ran (subs(PeerKey p \<mapsto> p)) \<subseteq> insert p (ran subs)" by (auto simp: ran_def split: if_splits)
  ultimately show ?thesis unfolding ran_def [of subs] by blast
qed

lemma foreign_datagram:
  assumes "p \<noteq> peer" and "subs_ok subs" and "provider_datagram tick p buffer subs = (flow, out, subs')"
  shows "inbox peer out = []" and "peer \<in> ran subs' \<longleftrightarrow> peer \<in> ran subs"
proof -
  have "inbox peer (send_message p m) = []" for m
    using assms(1) by (simp add: inbox_def send_message_def split: sum.split)
  then show "inbox peer out = []" and "peer \<in> ran subs' \<longleftrightarrow> peer \<in> ran subs"
    using assms by (auto simp: provider_datagram_def ran_subscribe split: sum.splits if_splits prod.splits)
qed

lemma foreign_handled:
  assumes "foreign peer received" and "subs_ok (pv_subs st)" and "handled received st = (flow, out, subs)"
  shows "inbox peer out = []" and "subs_ok subs" and "peer \<in> ran subs \<longleftrightarrow> peer \<in> ran (pv_subs st)"
  using assms foreign_datagram [of _ peer "pv_subs st" "pv_tick st" _ flow out subs]
    provider_subs_ok [of "pv_subs st" "pv_tick st" _ _ flow out subs]
  by (auto simp: foreign_def handled_def split: option.splits if_splits)

text \<open>Whether an event is due in a pass, how many are in a sequence of passes, and when the last one was.\<close>

definition due :: "int \<Rightarrow> (sockaddr \<times> bytes) option \<times> int \<Rightarrow> bool" where
  "due prev p \<longleftrightarrow> reaches_timers (fst p) \<and> snd p - prev \<ge> 1000000000"

fun due_events :: "int \<Rightarrow> ((sockaddr \<times> bytes) option \<times> int) list \<Rightarrow> nat" where
  "due_events prev [] = 0"
| "due_events prev (p # ps) = (if due prev p then Suc (due_events (snd p) ps) else due_events prev ps)"

fun last_due :: "int \<Rightarrow> ((sockaddr \<times> bytes) option \<times> int) list \<Rightarrow> int" where
  "last_due prev [] = prev"
| "last_due prev (p # ps) = last_due (if due prev p then snd p else prev) ps"

lemma no_due_events: "due_events prev ps = 0 \<Longrightarrow> last_due prev ps = prev"
  by (induction prev ps rule: due_events.induct) (auto split: if_splits)

text \<open>What a pass does to the subscribers, the tick and the time of the last event, by its datagram.\<close>

lemma pass_events:
  assumes "handled received st = (flow, out, subs)" and "subs_ok subs"
    and "provider_pass lib net received now st = Some (sent, st')"
  shows "pv_subs st' = subs" and "pv_tick st' = pv_tick st + of_bool (due (pv_last_event st) (received, now))"
    and "pv_last_event st' = (if due (pv_last_event st) (received, now) then now else pv_last_event st)"
    and "inbox peer sent = inbox peer out
      @ (if due (pv_last_event st) (received, now) \<and> peer \<in> ran subs
         then [frame_of (event_message (pv_tick st + 1))] else [])"
proof -
  have flow: "flow = FallThrough \<longleftrightarrow> reaches_timers received" using handled_flow [of received st] assms(1) by simp
  let ?st = "refresh_timer lib net now (st\<lparr> pv_subs := subs \<rparr>)"
  have e: "event_timer now ?st = (if now - pv_last_event st \<ge> 1000000000
      then (if subs = Map.empty then []
            else map (\<lambda>sub. (sub, frame_of (event_message (pv_tick st + 1)))) (subscriber_list subs),
            ?st\<lparr> pv_tick := pv_tick st + 1, pv_last_event := now \<rparr>)
      else ([], ?st))" by (simp add: event_timer_def)
  from assms(3) have "(sent, st') = (if reaches_timers received then apfst ((@) out) (event_timer now ?st)
      else (out, st\<lparr> pv_subs := subs \<rparr>))"
    by (simp add: pass_split assms(1) flow)
  then show "pv_subs st' = subs" "pv_tick st' = pv_tick st + of_bool (due (pv_last_event st) (received, now))"
    "pv_last_event st' = (if due (pv_last_event st) (received, now) then now else pv_last_event st)"
    "inbox peer sent = inbox peer out
      @ (if due (pv_last_event st) (received, now) \<and> peer \<in> ran subs
         then [frame_of (event_message (pv_tick st + 1))] else [])"
    unfolding e by (auto simp: due_def inbox_broadcast [OF assms(2)] split: if_splits)
qed

lemma pass_total: "\<exists>sent st'. provider_pass lib net received now st = Some (sent, st')"
  by (cases "handled received st") (auto simp: pass_split)

lemma loop_total: "\<exists>sent st'. provider_loop lib net env ps st = Some (sent, st')"
proof (induction ps arbitrary: st)
  case (Cons p ps)
  obtain received now where p: "p = (received, now)" by fastforce
  obtain sent st' where "provider_pass lib net received now (st\<lparr> pv_world := env now (pv_world st) \<rparr>) = Some (sent, st')"
    using pass_total by blast
  with Cons.IH [of st'] p show ?case by auto
qed simp

lemma loop_append:
  "provider_loop lib net env (ps @ qs) st =
     (case provider_loop lib net env ps st of
        None \<Rightarrow> None
      | Some (sent, st') \<Rightarrow> map_option (apfst ((@) sent)) (provider_loop lib net env qs st'))"
  by (induction lib net env ps st rule: provider_loop.induct)
    (auto simp: option.map_comp option.map_ident comp_def apfst_def map_prod_def split_def split: option.split prod.split)

text \<open>The events a subscribed peer is sent while it sends nothing: one for each that is due, in order.\<close>

definition events_from :: "u32 \<Rightarrow> nat \<Rightarrow> bytes list" where
  "events_from tick n = map (\<lambda>i. frame_of (event_message (tick + of_nat (Suc i)))) [0..<n]"

lemma events_from_Suc:
  "events_from tick (Suc n) = frame_of (event_message (tick + 1)) # events_from (tick + 1) n"
  unfolding events_from_def by (simp add: map_upt_Suc algebra_simps del: upt_Suc)

lemma loop_events:
  assumes "\<forall>p \<in> set ps. foreign peer (fst p)" and "subs_ok (pv_subs st)"
    and "provider_loop lib net env ps st = Some (sent, st')"
  shows "subs_ok (pv_subs st') \<and> (peer \<in> ran (pv_subs st') \<longleftrightarrow> peer \<in> ran (pv_subs st))
    \<and> pv_tick st' = pv_tick st + of_nat (due_events (pv_last_event st) ps)
    \<and> pv_last_event st' = last_due (pv_last_event st) ps
    \<and> inbox peer sent = (if peer \<in> ran (pv_subs st)
        then events_from (pv_tick st) (due_events (pv_last_event st) ps) else [])"
  using assms
proof (induction ps arbitrary: st sent)
  case Nil
  then show ?case by (simp add: events_from_def)
next
  case (Cons p ps)
  obtain received now where p: "p = (received, now)" by fastforce
  let ?st = "st\<lparr> pv_world := env now (pv_world st) \<rparr>"
  from Cons.prems(3) p obtain sent1 st1 sent2 where
    1: "provider_pass lib net received now ?st = Some (sent1, st1)"
    and 2: "provider_loop lib net env ps st1 = Some (sent2, st')" and sent: "sent = sent1 @ sent2"
    by (auto split: option.splits)
  obtain flow out subs where h: "handled received ?st = (flow, out, subs)" by (rule prod_cases3)
  have f: "foreign peer received" "subs_ok (pv_subs ?st)" using Cons.prems(1,2) p by simp_all
  note fh = foreign_handled [OF f h]
  note pe = pass_events(1-3) [OF h fh(2) 1] pass_events(4) [OF h fh(2) 1, where peer = peer]
  have "subs_ok (pv_subs st1)" using fh(2) pe(1) by simp
  from Cons.IH [OF _ this 2] Cons.prems(1) fh pe p sent show ?case
    by (auto simp: events_from_Suc algebra_simps split: if_splits)
qed

section \<open>Finding the provider\<close>

context inet_conv
begin

lemma provider_canonical: "prints_loopback lib \<Longrightarrow> wire_descriptor lib provider_descriptor = provider_descriptor"
  by (rule canonical_wire, rule canonical_default) (simp_all add: provider_descriptor_def)

lemma discover_provider:
  assumes "prints_loopback lib" and "\<forall>m. enumerates (order m) m" and "keys_ok (fst w)"
    and "fst w provider_key = Some \<lparr> descriptor = provider_descriptor, expires_at_ms = x \<rparr>"
    and "t0 < start + 1000000000"
  shows "DiscoverServices lib DiscoverSent (clock_answer lib order t0 t1) start kServiceId (Some kInstanceId) 1000
      provider_api w
    = (([provider_descriptor], None), provider_api\<lparr> api_next_request_id := 2 \<rparr>, w)"
proof -
  have inst: "(if Some kInstanceId = Some 0xFFFF then None else Some kInstanceId) = Some kInstanceId"
    by (simp add: demo_ids)
  have reply: "find_reply lib (order (fst w)) (fst w) kServiceId (Some kInstanceId) = [provider_descriptor]"
    using assms(2-4) by (simp add: find_reply_one)
  note found = on_find_response [of "order (fst w)" "fst w" kServiceId "Some kInstanceId" 1 no_discovery, unfolded inst reply]
  have "t0 < start + 1000 * 1000000" using assms(5) by simp
  from discover_answered [OF this, of order "snd w" t1 kServiceId "Some kInstanceId" provider_api "fst w"]
  show ?thesis
    using found assms(2,3)
    by (simp add: clock_DiscoverServices max_offers_def no_discovery_def provider_canonical [OF assms(1)] Let_def)
qed

end

text \<open>The peer's requests are handled and acted on.\<close>

lemma handled_subscribe:
  "handled (Some (peer, frame_of subscribe_message)) st
     = (FallThrough, [(peer, frame_of ack_message)], (pv_subs st)(PeerKey peer \<mapsto> peer))"
proof -
  have "frame_of subscribe_message \<noteq> []" by (rule frame_of_short(3)) (simp add: subscribe_message_def)
  then show ?thesis by (simp add: handled_def provider_acks)
qed

lemma handled_call:
  "handled (Some (peer, frame_of call_message)) st
     = (FallThrough, [(peer, frame_of (answer_message (pv_tick st)))], pv_subs st)"
  using frame_of_short(3) [OF call_payload] by (simp add: handled_def provider_answers_call)

lemma due_handled: "fst (handled received st) = FallThrough \<Longrightarrow> due prev (received, now) = due prev (None, now)"
  by (simp add: due_def handled_flow) (simp add: reaches_timers_def)

lemma session_inbox:
  assumes "subs_ok (pv_subs st)" and "\<forall>p \<in> set (mid @ post). foreign peer (fst p)"
    and "due_events (pv_last_event st) ((None, s) # mid) = 0"
    and "provider_loop lib net env ((Some (peer, frame_of subscribe_message), s) # mid
          @ (Some (peer, frame_of call_message), c) # post) st = Some (sent, st')"
  shows "inbox peer sent = frame_of ack_message # frame_of (answer_message (pv_tick st))
    # events_from (pv_tick st) (due_events (pv_last_event st) ((None, c) # post))"
proof -
  let ?world = "\<lambda>now st. st\<lparr> pv_world := env now (pv_world st) \<rparr>"
  obtain sent1 st1 where 1: "provider_pass lib net (Some (peer, frame_of subscribe_message)) s (?world s st) = Some (sent1, st1)"
    using pass_total by blast
  obtain sent2 st2 where 2: "provider_loop lib net env mid st1 = Some (sent2, st2)" using loop_total by blast
  obtain sent3 st3 where 3: "provider_pass lib net (Some (peer, frame_of call_message)) c (?world c st2) = Some (sent3, st3)"
    using pass_total by blast
  obtain sent4 where 4: "provider_loop lib net env post st3 = Some (sent4, st')"
    and sent: "sent = sent1 @ sent2 @ sent3 @ sent4"
    using assms(4) 1 2 3 by (auto simp: loop_append split: option.splits)
  let ?subs = "(pv_subs st)(PeerKey peer \<mapsto> peer)" and ?e = "pv_last_event st"
  have quiet: "\<not> due ?e (None, s)" "due_events ?e mid = 0" using assms(3) by (auto split: if_splits)
  have sub: "\<not> due ?e (Some (peer, frame_of subscribe_message), s)"
    using quiet(1) due_handled [of "Some (peer, frame_of subscribe_message)" st ?e s] by (simp add: handled_subscribe)
  have ok: "subs_ok ?subs" using assms(1) by (auto simp: subs_ok_def)
  have ran: "peer \<in> ran ?subs" by (auto simp: ran_def)
  note p1 = pass_events(1-3) [OF handled_subscribe, of "?world s st", simplified, OF ok 1]
    pass_events(4) [OF handled_subscribe, of "?world s st", simplified, OF ok 1, of peer]
  have p2: "subs_ok (pv_subs st2)" "peer \<in> ran (pv_subs st2)" "pv_tick st2 = pv_tick st" "pv_last_event st2 = ?e"
    "inbox peer sent2 = []"
    using loop_events [OF _ _ 2, of peer] assms(2) p1 sub ok ran quiet(2)
    by (simp_all add: no_due_events events_from_def)
  note p3 = pass_events(1-3) [OF handled_call, of "?world c st2", simplified, OF p2(1) 3]
    pass_events(4) [OF handled_call, of "?world c st2", simplified, OF p2(1) 3, of peer]
  have call: "due ?e (Some (peer, frame_of call_message), c) = due ?e (None, c)"
    by (rule due_handled [of _ st]) (simp add: handled_call)
  have "inbox peer sent4 = events_from (pv_tick st3) (due_events (pv_last_event st3) post)"
    using loop_events [OF _ _ 4, of peer] assms(2) p2(1,2) p3 by simp
  then show ?thesis
    using p1 p2 p3 sub call unfolding sent by (simp add: inbox_def events_from_Suc)
qed

section \<open>Property\<close>

text \<open>What the consumer's socket gives it: its calls succeed, and it receives these datagrams in this order.\<close>

definition delivered :: "consumer_io \<Rightarrow> bytes list \<Rightarrow> bool" where
  "delivered io datagrams \<longleftrightarrow> io_socket_ok io \<and> io_bind_ok io \<and> io_subscribe_sent io \<and> io_call_sent io
     \<and> (\<exists>ack answer events rest. datagrams = ack # answer # events \<and> io_subscribe_reply io = Some ack
          \<and> io_call_reply io = Some answer \<and> io_receives io = map Some events @ rest)"

lemma session_delivered:
  assumes "delivered io (frame_of ack_message # frame_of (answer_message tick) # events_from tick n)" and "3 \<le> n"
    and "services \<noteq> []"
  shows "consumer_main temp uninit (services, None) io
    = Finished \<lparr> gsr_requestId = 101, gsr_status = BuildCurrentVehicleStatus tick \<rparr>
        (map event_of [tick + 1, tick + 2, tick + 3])"
proof -
  from assms(2) have "n = Suc (Suc (Suc (n - 3)))" by simp
  then obtain m where n: "n = Suc (Suc (Suc m))" by blast
  let ?more = "map Some (events_from (tick + 1 + 1 + 1) m)"
  have "events_from tick n = map (\<lambda>t. frame_of (event_message t)) [tick + 1, tick + 2, tick + 3]
      @ events_from (tick + 1 + 1 + 1) m"
  proof -
    have "tick + 1 + 1 = tick + 2" and "tick + 1 + 1 + 1 = tick + 3" by simp_all
    then show ?thesis unfolding n events_from_Suc by (simp only: list.map append.simps)
  qed
  note events = this
  from assms(1) obtain rest where io: "io_socket_ok io" "io_bind_ok io" "io_subscribe_sent io" "io_call_sent io"
    "io_subscribe_reply io = Some (frame_of ack_message)" "io_call_reply io = Some (frame_of (answer_message tick))"
    and receives: "io_receives io = map Some (events_from tick n) @ rest"
    unfolding delivered_def by auto
  have "io = \<lparr> io_socket_ok = True, io_bind_ok = True, io_subscribe_sent = True,
      io_subscribe_reply = Some (frame_of ack_message), io_call_sent = True,
      io_call_reply = Some (frame_of (answer_message tick)),
      io_receives = map (\<lambda>t. Some (frame_of (event_message t))) [tick + 1, tick + 2, tick + 3] @ ?more @ rest \<rparr>"
    using io receives by (cases io) (simp add: events)
  then show ?thesis
    by (simp only:) (rule demo_session [where peer = "\<lparr> sin_addr = 0, sin_port = 0 \<rparr>" and ?tick1.0 = 0 and subs = Map.empty
        and subs' = Map.empty], simp_all only: provider_acks provider_answers_call assms(3) prod.sel not_False_eq_True)
qed

text \<open>C36. The demo works from end to end. The provider registers and runs its loop; at a time between two of
  its passes the consumer discovers it and is told the endpoint the provider bound. One of the following passes
  receives the consumer's subscription, a later one its call; the other passes receive what they like from
  others. If no event falls due between the two and three fall due from the call on, the provider sends the
  consumer's socket the acknowledgement, the answer with the status at the current tick, and the events of
  the next ticks in order; and a consumer that receives these finishes with that status and the next
  three events.\<close>

theorem demo_end_to_end:
  assumes "inet_conv lib" and "prints_loopback lib" and "\<forall>m. enumerates (order m) m" and "keys_ok (fst w)"
    and "answered (fate_of 0)" and "timely g d k fate_of"
    and "snd w = ms_of r" and "0 \<le> r" and "r \<le> pio_last_refresh pio" and "pio_last_refresh pio \<le> r + d"
    and "pio_passes pio = pre @ (Some (peer, frame_of subscribe_message), s) # mid
           @ (Some (peer, frame_of call_message), c) # post"
    and "spaced g (pio_last_refresh pio) (map snd pre @ [later])"
    and "\<forall>p \<in> set pre. reaches_timers (fst p)" and "length pre < 65533"
    and "\<forall>p \<in> set (pre @ mid @ post). foreign peer (fst p)"
    and "due_events (last_due (pio_last_event pio) pre) ((None, s) # mid) = 0"
    and "3 \<le> due_events (last_due (pio_last_event pio) pre) ((None, c) # post)"
    and "t0 < start + 1000000000"
  shows "\<exists>sent0 st0 sent st. let net = faulty_net lib order fate_of; env = faulty_env order;
        tick = of_nat (due_events (pio_last_event pio) pre); world = snd (env later (pv_world st0))
    in provider_loop lib net env pre (provider_start lib pio w) = Some (sent0, st0)
     \<and> provider_loop lib net env (pio_passes pio) (provider_start lib pio w) = Some (sent, st)
     \<and> inbox peer sent = frame_of ack_message # frame_of (answer_message tick)
         # events_from tick (due_events (last_due (pio_last_event pio) pre) ((None, c) # post))
     \<and> (delivered (io ''127.0.0.1'' 50001) (inbox peer sent) \<longrightarrow>
         consumer_program temp uninit lib DiscoverSent (clock_answer lib order t0 t1) start io world
           = (Finished \<lparr> gsr_requestId = 101, gsr_status = BuildCurrentVehicleStatus tick \<rparr>
                (map event_of [tick + 1, tick + 2, tick + 3]), world))"
proof -
  let ?net = "faulty_net lib order fate_of" and ?env = "faulty_env order" and ?start = "provider_start lib pio w"
  let ?tick = "of_nat (due_events (pio_last_event pio) pre) :: u32" and ?e = "last_due (pio_last_event pio) pre"
  have "listed lib g d k fate_of (pio_last_refresh pio) r 0 ?start"
    using assms(7-10) by (simp add: listed_def provider_start_def refreshed_def register_effect_def wire_ttl_def)
  moreover have "leaves_others (fst w) (0 + length pre) ?start"
    using assms(14) by (intro inet_conv.start_leaves_others [OF assms(1)]) simp
  moreover have "spaced g (pio_last_refresh pio) (map snd (pre @ (None, later) # []))" using assms(12) by simp
  ultimately obtain sent0 st0 r' where 0: "provider_loop lib ?net ?env pre ?start = Some (sent0, st0)"
    and others: "leaves_others (fst w) 0 st0"
    and entry: "fst (snd (?env later (pv_world st0))) provider_key
      = Some \<lparr> descriptor = provider_descriptor, expires_at_ms = ms_of r' + 5000 \<rparr>"
    using inet_conv.loop_listed [OF assms(1,6) _ _ assms(13), of "pio_last_refresh pio" r 0 ?start None later "[]" "fst w" 0 order]
    by (auto simp: inet_conv.provider_canonical [OF assms(1,2)])
  let ?world = "snd (?env later (pv_world st0))"
  have keys: "keys_ok (fst ?world)"
    unfolding keys_ok_def
  proof (intro allI impI)
    fix k e assume e: "fst ?world k = Some e"
    show "k = entry_key (descriptor e)"
    proof (cases "k = provider_key")
      case True
      with e entry have "descriptor e = provider_descriptor" by auto
      with True show ?thesis by simp
    next
      case False
      have "fst ?world k = None \<or> fst ?world k = fst (snd (pv_world st0)) k"
        by (simp add: faulty_env_def advance_at)
      with e False others have "fst w k = Some e" by (auto simp: leaves_others_def)
      with assms(4) show ?thesis by (simp add: keys_ok_def)
    qed
  qed
  note disc = inet_conv.discover_provider [OF assms(1-3) keys entry assms(18)]
  have start: "subs_ok (pv_subs ?start)" "pv_tick ?start = 0" "pv_last_event ?start = pio_last_event pio"
    by (simp_all add: provider_start_def subs_ok_def)
  have "\<forall>p \<in> set pre. foreign peer (fst p)" using assms(15) by simp
  from loop_events [OF this start(1) 0] start
  have st0: "subs_ok (pv_subs st0)" "pv_tick st0 = ?tick" "pv_last_event st0 = ?e" "inbox peer sent0 = []"
    by (simp_all add: provider_start_def)
  obtain sent1 st where 1: "provider_loop lib ?net ?env ((Some (peer, frame_of subscribe_message), s) # mid
      @ (Some (peer, frame_of call_message), c) # post) st0 = Some (sent1, st)"
    using loop_total by blast
  have all: "provider_loop lib ?net ?env (pio_passes pio) ?start = Some (sent0 @ sent1, st)"
    unfolding assms(11) loop_append 0 using 1 by simp
  have inbox: "inbox peer (sent0 @ sent1) = frame_of ack_message # frame_of (answer_message ?tick)
      # events_from ?tick (due_events ?e ((None, c) # post))"
    using session_inbox [OF st0(1) _ _ 1] assms(15,16) st0 by simp
  have "endpoint_host provider_descriptor = ''127.0.0.1''" "endpoint_port provider_descriptor = 50001"
    by (simp_all add: provider_descriptor_def demo_ids)
  then have "consumer_program temp uninit lib DiscoverSent (clock_answer lib order t0 t1) start io ?world
      = (Finished \<lparr> gsr_requestId = 101, gsr_status = BuildCurrentVehicleStatus ?tick \<rparr>
          (map event_of [?tick + 1, ?tick + 2, ?tick + 3]), ?world)"
    if "delivered (io ''127.0.0.1'' 50001) (inbox peer (sent0 @ sent1))"
    using session_delivered [OF that [unfolded inbox] assms(17), of "[provider_descriptor]" temp uninit] disc
    by (simp add: consumer_program_def provider_api_def)
  with 0 all inbox show ?thesis unfolding Let_def by blast
qed

definition demo_peer :: sockaddr where
  "demo_peer = \<lparr> sin_addr = 1, sin_port = 2 \<rparr>"

text \<open>A provider whose first refresh is lost, discovered half a second after its start.\<close>

definition demo_provider :: provider_io where
  "demo_provider = \<lparr> pio_socket_ok = True, pio_bind_ok = True, pio_last_refresh = 0, pio_last_event = 0,
     pio_passes = [(None, 300000000), (Some (demo_peer, frame_of subscribe_message), 600000000), (None, 700000000),
       (Some (demo_peer, frame_of call_message), 800000000), (None, 1200000000), (None, 2300000000), (None, 3400000000)] \<rparr>"

definition demo_io :: "string \<Rightarrow> u16 \<Rightarrow> consumer_io" where
  "demo_io host port = \<lparr> io_socket_ok = True, io_bind_ok = True, io_subscribe_sent = True,
     io_subscribe_reply = Some (frame_of ack_message), io_call_sent = True,
     io_call_reply = Some (frame_of (answer_message 0)), io_receives = map Some (events_from 0 3) \<rparr>"

theorem demo_end_to_end_witness:
  "\<exists>sent0 st0 sent st. let world = snd (faulty_env key_order 500000000 (pv_world st0));
        start = provider_start dotted demo_provider (Map.empty, 0); net = faulty_net dotted key_order one_lost
    in provider_loop dotted net (faulty_env key_order) [(None, 300000000)] start = Some (sent0, st0)
     \<and> provider_loop dotted net (faulty_env key_order) (pio_passes demo_provider) start = Some (sent, st)
     \<and> inbox demo_peer sent = frame_of ack_message # frame_of (answer_message 0) # events_from 0 3
     \<and> consumer_program (event_of 0) (response_of 0 empty_request) dotted DiscoverSent
         (clock_answer dotted key_order 0 1) 0 demo_io world
       = (Finished \<lparr> gsr_requestId = 101, gsr_status = BuildCurrentVehicleStatus 0 \<rparr> (map event_of [1, 2, 3]), world)"
proof -
  let ?pre = "[(None, 300000000)] :: ((sockaddr \<times> bytes) option \<times> int) list"
  let ?mid = "[(None, 700000000)] :: ((sockaddr \<times> bytes) option \<times> int) list"
  let ?post = "[(None, 1200000000), (None, 2300000000), (None, 3400000000)] :: ((sockaddr \<times> bytes) option \<times> int) list"
  have none: "reaches_timers None" "foreign demo_peer None" by (simp_all add: reaches_timers_def foreign_def)
  have keys: "keys_ok (fst (Map.empty :: registry, 0 :: u64))" by (simp add: keys_ok_def)
  have passes: "pio_passes demo_provider = ?pre @ (Some (demo_peer, frame_of subscribe_message), 600000000) # ?mid
      @ (Some (demo_peer, frame_of call_message), 800000000) # ?post"
    by (simp add: demo_provider_def)
  have events: "due_events (pio_last_event demo_provider) ?pre = 0"
    "last_due (pio_last_event demo_provider) ?pre = 0"
    "due_events 0 ((None, 600000000) # ?mid) = 0" "due_events 0 ((None, 800000000) # ?post) = 3"
    by (simp_all add: due_def none demo_provider_def)
  have delivered: "delivered (demo_io ''127.0.0.1'' 50001) (frame_of ack_message # frame_of (answer_message 0) # events_from 0 3)"
    by (simp add: delivered_def demo_io_def)
  have clock: "snd (Map.empty :: registry, 0 :: u64) = ms_of 0" by (simp add: ms_of_def)
  have "\<exists>sent0 st0 sent st. let net = faulty_net dotted key_order one_lost; env = faulty_env key_order;
        tick = of_nat (due_events (pio_last_event demo_provider) ?pre); world = snd (env 500000000 (pv_world st0))
    in provider_loop dotted net env ?pre (provider_start dotted demo_provider (Map.empty, 0)) = Some (sent0, st0)
     \<and> provider_loop dotted net env (pio_passes demo_provider) (provider_start dotted demo_provider (Map.empty, 0))
         = Some (sent, st)
     \<and> inbox demo_peer sent = frame_of ack_message # frame_of (answer_message tick)
         # events_from tick (due_events (last_due (pio_last_event demo_provider) ?pre) ((None, 800000000) # ?post))
     \<and> (delivered (demo_io ''127.0.0.1'' 50001) (inbox demo_peer sent) \<longrightarrow>
         consumer_program (event_of 0) (response_of 0 empty_request) dotted DiscoverSent
             (clock_answer dotted key_order 0 1) 0 demo_io world
           = (Finished \<lparr> gsr_requestId = 101, gsr_status = BuildCurrentVehicleStatus tick \<rparr>
                (map event_of [tick + 1, tick + 2, tick + 3]), world))"
    by (rule demo_end_to_end [OF dotted.inet_conv_axioms dotted_prints_loopback _ keys _ one_lost_timely clock _ _ _ passes])
      (use events none in \<open>simp_all add: key_order_enumerates one_lost_def answered_def demo_provider_def\<close>)
  then show ?thesis using delivered unfolding Let_def events by auto
qed

end
