(* ===== verification/Simulation.thy ===== *)
theory Simulation
  imports Main
begin

text \<open>
  Refinement of an abstract specification, as an interface. A component is a function from an
  operation and a state to an output and the next state; its specification says which operations are
  allowed in an abstract state, what each does to it and which outputs it permits. The locale asks for
  one obligation per operation, and gives the refinement of every sequence of operations.
\<close>

fun op_run :: "('op \<Rightarrow> 'c \<Rightarrow> 'out \<times> 'c) \<Rightarrow> 'op list \<Rightarrow> 'c \<Rightarrow> 'out list \<times> 'c" where
  "op_run impl [] c = ([], c)"
| "op_run impl (op # ops) c =
     (let (out, c) = impl op c; (outs, c) = op_run impl ops c in (out # outs, c))"

fun ops_ok :: "('op \<Rightarrow> 'a \<Rightarrow> bool) \<Rightarrow> ('op \<Rightarrow> 'a \<Rightarrow> 'a) \<Rightarrow> 'op list \<Rightarrow> 'a \<Rightarrow> bool" where
  "ops_ok ok spec [] a = True"
| "ops_ok ok spec (op # ops) a = (ok op a \<and> ops_ok ok spec ops (spec op a))"

fun ops_allow ::
    "('op \<Rightarrow> 'a \<Rightarrow> 'out \<Rightarrow> bool) \<Rightarrow> ('op \<Rightarrow> 'a \<Rightarrow> 'a) \<Rightarrow> 'op list \<Rightarrow> 'a \<Rightarrow> 'out list \<Rightarrow> bool" where
  "ops_allow allows spec [] a outs = (outs = [])"
| "ops_allow allows spec (op # ops) a outs =
     (case outs of [] \<Rightarrow> False
      | out # outs \<Rightarrow> allows op a out \<and> ops_allow allows spec ops (spec op a) outs)"

lemma ops_allow_Cons:
  "ops_allow allows spec (op # ops) a outs \<longleftrightarrow>
     (\<exists>out outs'. outs = out # outs' \<and> allows op a out \<and> ops_allow allows spec ops (spec op a) outs')"
  by (cases outs) auto

locale simulation =
  fixes impl :: "'op \<Rightarrow> 'c \<Rightarrow> 'out \<times> 'c"
    and spec :: "'op \<Rightarrow> 'a \<Rightarrow> 'a"
    and ok :: "'op \<Rightarrow> 'a \<Rightarrow> bool"
    and allows :: "'op \<Rightarrow> 'a \<Rightarrow> 'out \<Rightarrow> bool"
    and abs :: "'c \<Rightarrow> 'a"
    and inv :: "'c \<Rightarrow> bool"
  assumes step_inv: "inv c \<Longrightarrow> ok op (abs c) \<Longrightarrow> inv (snd (impl op c))"
    and step_abs: "inv c \<Longrightarrow> ok op (abs c) \<Longrightarrow> abs (snd (impl op c)) = spec op (abs c)"
    and step_out: "inv c \<Longrightarrow> ok op (abs c) \<Longrightarrow> allows op (abs c) (fst (impl op c))"
begin

lemma op_run_refines:
  assumes "inv c" and "ops_ok ok spec ops (abs c)" and "op_run impl ops c = (outs, c')"
  shows "inv c'" and "abs c' = fold spec ops (abs c)" and "ops_allow allows spec ops (abs c) outs"
proof -
  have "inv c' \<and> abs c' = fold spec ops (abs c) \<and> ops_allow allows spec ops (abs c) outs"
    using assms
  proof (induction ops arbitrary: c outs)
    case (Cons op ops)
    obtain out d outs' where d: "impl op c = (out, d)" and "op_run impl ops d = (outs', c')"
      and outs: "outs = out # outs'"
      using Cons.prems(3) by (auto simp: Let_def split: prod.splits)
    moreover have "inv d" "abs d = spec op (abs c)" "allows op (abs c) out"
      using step_inv [of c op] step_abs [of c op] step_out [of c op] Cons.prems(1,2) d by simp_all
    ultimately show ?case using Cons.IH [of d outs'] Cons.prems(2) by simp
  qed simp
  then show "inv c'" and "abs c' = fold spec ops (abs c)" and "ops_allow allows spec ops (abs c) outs"
    by simp_all
qed

end

end
