(* ===== verification/Sd_Directory.thy ===== *)
theory Sd_Directory
  imports Sd_Timed Sd_Canonical Sd_Loss Simulation
begin

text \<open>
  What service discovery promises to the programs that use it, as an abstract specification: a
  directory from service and instance to a descriptor and the time it is withdrawn, that clients
  register in, unregister from and look services up in. Client (\<open>SomeIpSdApi\<close>), wire format and
  daemon together refine it: every sequence of calls, by any number of clients, with any waiting in
  between and over a network that may lose and repeat datagrams, returns what the directory allows and
  leaves the registry as the directory says.
\<close>

section \<open>The specification\<close>

datatype call =
    CallRegister ServiceDescriptor int fate
  | CallUnregister u16 u16 fate
  | CallDiscover u16 "u16 option" int int fate
  | CallWait u64

datatype outcome = Returned "api_error + unit" | Found ServiceList "api_error option" | Waited

text \<open>Each request carries the fate of its datagrams, and a discovery its timeout in milliseconds and the
  nanosecond at which the daemon's answer arrives; a wait lets the clock reach a time. Every call but
  that is made by a client, by its number.\<close>

record directory =
  dir_entries :: "u16 \<times> u16 \<rightharpoonup> ServiceDescriptor \<times> nat"
  dir_clock :: nat
  dir_next :: "nat \<Rightarrow> nat"

definition ids_of :: "ServiceDescriptor \<Rightarrow> u16 \<times> u16" where
  "ids_of d = (service_id d, instance_id d)"

text \<open>A time to live is taken modulo 2 to the 32 and carried in 24 bits.\<close>

definition effective_ttl :: "int \<Rightarrow> nat" where
  "effective_ttl ttl = min (nat (ttl mod 2 ^ 32)) (2 ^ 24 - 1)"

definition dir_matching :: "u16 \<Rightarrow> u16 option \<Rightarrow> directory \<Rightarrow> (u16 \<times> u16) set" where
  "dir_matching s i dir =
     {ids \<in> dom (dir_entries dir). fst ids = s \<and> i \<in> {None, Some 0xFFFF, Some (snd ids)}}"

definition dir_request :: "nat \<Rightarrow> fate \<Rightarrow> (u16 \<times> u16) \<Rightarrow> (ServiceDescriptor \<times> nat) option \<Rightarrow> directory \<Rightarrow> directory" where
  "dir_request c fate ids entry dir =
     dir\<lparr> dir_entries := (if arrives fate then (dir_entries dir)(ids := entry) else dir_entries dir),
          dir_next := (dir_next dir)(c := dir_next dir c + 1) \<rparr>"

lemma dir_request_simps [simp]:
  "dir_clock (dir_request c fate ids entry dir) = dir_clock dir"
  "dir_next (dir_request c fate ids entry dir) = (dir_next dir)(c := dir_next dir c + 1)"
  "dir_entries (dir_request c fate ids entry dir)
     = (if arrives fate then (dir_entries dir)(ids := entry) else dir_entries dir)"
  by (simp_all add: dir_request_def)

fun dir_step :: "inet_lib \<Rightarrow> nat \<times> call \<Rightarrow> directory \<Rightarrow> directory" where
  "dir_step lib (c, CallRegister d ttl fate) dir =
     dir_request c fate (ids_of d)
       (if effective_ttl ttl = 0 then None
        else Some (wire_descriptor lib d, dir_clock dir + effective_ttl ttl * 1000)) dir"
| "dir_step lib (c, CallUnregister s i fate) dir = dir_request c fate (s, i) None dir"
| "dir_step lib (c, CallDiscover s i timeout at fate) dir =
     dir\<lparr> dir_next := (dir_next dir)(c := dir_next dir c + 1) \<rparr>"
| "dir_step lib (c, CallWait t) dir =
     dir\<lparr> dir_entries := (\<lambda>ids. case dir_entries dir ids of None \<Rightarrow> None
            | Some (d, until) \<Rightarrow> if until \<le> unat t then None else Some (d, until)),
          dir_clock := unat t \<rparr>"

text \<open>A call whose answer does not come fails with the timeout of the transport; a discovery then finds
  nothing and reports no error.\<close>

definition request_allows :: "fate \<Rightarrow> outcome \<Rightarrow> bool" where
  "request_allows fate out \<longleftrightarrow>
     (if answered fate then out = Returned (Inr ())
      else out \<in> {Returned (Inl ControlTimeout), Returned (Inl UnixControlTimeout)})"

fun dir_allows :: "nat \<times> call \<Rightarrow> directory \<Rightarrow> outcome \<Rightarrow> bool" where
  "dir_allows (c, CallRegister d ttl fate) dir out \<longleftrightarrow> request_allows fate out"
| "dir_allows (c, CallUnregister s i fate) dir out \<longleftrightarrow> request_allows fate out"
| "dir_allows (c, CallDiscover s i timeout at fate) dir out \<longleftrightarrow>
     (if \<not> answered fate then out = Found [] None
      else if card (dir_matching s i dir) \<le> 140
      then \<exists>ds. out = Found ds None \<and> distinct (map ids_of ds)
             \<and> set ds = {d. \<exists>ids \<in> dir_matching s i dir. \<exists>until. dir_entries dir ids = Some (d, until)}
      else out = Found [] (Some (DecodeFailed SomeIpLengthMismatch)))"
| "dir_allows (c, CallWait t) dir out \<longleftrightarrow> out = Waited"

text \<open>The calls the specification is about: a client has request ids left, the answer to a discovery
  arrives in time, and time does not run backwards.\<close>

fun dir_ok :: "nat \<times> call \<Rightarrow> directory \<Rightarrow> bool" where
  "dir_ok (c, CallWait t) dir \<longleftrightarrow> dir_clock dir \<le> unat t \<and> unat t < 2 ^ 63"
| "dir_ok (c, CallDiscover s i timeout at fate) dir \<longleftrightarrow> dir_next dir c < 65536 \<and> at < timeout * 1000000"
| "dir_ok (c, call) dir \<longleftrightarrow> dir_next dir c < 65536"

section \<open>The implementation\<close>

type_synonym clients_world = "(nat \<Rightarrow> SomeIpSdApi) \<times> clock_world"

fun perform ::
    "inet_lib \<Rightarrow> (registry \<Rightarrow> u32 list) \<Rightarrow> nat \<times> call \<Rightarrow> clients_world \<Rightarrow> outcome \<times> clients_world" where
  "perform lib order (c, CallRegister d ttl fate) (clients, w) =
     (case RegisterService lib (timed_net (\<lambda>now. lossy_net lib order now fate)) d ttl (clients c) w of
        (r, api, w) \<Rightarrow> (Returned r, clients(c := api), w))"
| "perform lib order (c, CallUnregister s i fate) (clients, w) =
     (case UnregisterService lib (timed_net (\<lambda>now. lossy_net lib order now fate)) s i (clients c) w of
        (r, api, w) \<Rightarrow> (Returned r, clients(c := api), w))"
| "perform lib order (c, CallDiscover s i timeout at fate) (clients, w) =
     (case DiscoverServices lib DiscoverSent
             (\<lambda>grp port d w. apsnd (\<lambda>reg. (reg, snd w)) (lossy_rounds lib order fate (snd w) at grp port d (fst w)))
             0 s i timeout (clients c) w of
        ((ds, e), api, w) \<Rightarrow> (Found ds e, clients(c := api), w))"
| "perform lib order (c, CallWait t) (clients, w) = (Waited, clients, advance order t w)"

text \<open>How a world is read as a directory, and the worlds that calls lead to.\<close>

definition directory_of :: "clients_world \<Rightarrow> directory" where
  "directory_of cw =
     \<lparr> dir_entries = (\<lambda>(s, i). map_option (\<lambda>e. (descriptor e, unat (expires_at_ms e)))
                        (fst (snd cw) (MakeRegistryKey s i))),
       dir_clock = unat (snd (snd cw)),
       dir_next = (\<lambda>c. unat (api_next_request_id (fst cw c))) \<rparr>"

definition world_ok :: "inet_lib \<Rightarrow> (registry \<Rightarrow> u32 list) \<Rightarrow> clients_world \<Rightarrow> bool" where
  "world_ok lib order cw \<longleftrightarrow>
     inet_conv lib \<and> (\<forall>m. enumerates (order m) m) \<and> (\<forall>c. control_ready (fst cw c))
     \<and> keys_ok (fst (snd cw)) \<and> unat (snd (snd cw)) < 2 ^ 63
     \<and> (\<forall>k e. fst (snd cw) k = Some e \<longrightarrow> wire_descriptor lib (descriptor e) = descriptor e)"

section \<open>Reading the registry as a directory\<close>

definition key_of :: "u16 \<times> u16 \<Rightarrow> u32" where
  "key_of ids = MakeRegistryKey (fst ids) (snd ids)"

lemma key_of_inj [simp]: "key_of a = key_of b \<longleftrightarrow> a = b"
  by (simp add: key_of_def prod_eq_iff)

lemma entry_key_ids: "entry_key d = key_of (ids_of d)"
  by (simp add: entry_key_def key_of_def ids_of_def)

lemma dir_entries_of [simp]:
  "dir_entries (directory_of cw) ids
     = map_option (\<lambda>e. (descriptor e, unat (expires_at_ms e))) (fst (snd cw) (key_of ids))"
  by (simp add: directory_of_def key_of_def split: prod.split)

lemma dir_clock_of [simp]: "dir_clock (directory_of cw) = unat (snd (snd cw))"
  by (simp add: directory_of_def)

lemma dir_next_of [simp]: "dir_next (directory_of cw) c = unat (api_next_request_id (fst cw c))"
  by (simp add: directory_of_def)

lemma directory_eqI:
  assumes "\<And>ids. dir_entries a ids = dir_entries b ids" and "dir_clock a = dir_clock b"
    and "\<And>c. dir_next a c = dir_next b c"
  shows "a = (b :: directory)"
  using assms by (cases a; cases b) (auto simp: fun_eq_iff)

lemma dir_matching_keys:
  assumes "keys_ok reg"
  shows "{k. \<exists>e. reg k = Some e \<and> matches_query s (if i = Some 0xFFFF then None else i) (descriptor e)}
    = key_of ` dir_matching s i (directory_of (clients, reg, clock))"
proof -
  have "(\<exists>e. reg k = Some e \<and> matches_query s (if i = Some 0xFFFF then None else i) (descriptor e))
      \<longleftrightarrow> (\<exists>ids. k = key_of ids \<and> ids \<in> dir_matching s i (directory_of (clients, reg, clock)))" for k
  proof (cases "reg k")
    case (Some e)
    then have k: "k = key_of (ids_of (descriptor e))"
      using assms by (simp add: keys_ok_def entry_key_ids)
    with Some show ?thesis
      by (auto simp: dir_matching_def matches_query_def ids_of_def dom_def split: option.splits)
  qed (auto simp: dir_matching_def dom_def)
  then show ?thesis by auto
qed

lemma dir_matching_descriptors:
  assumes "keys_ok reg"
  shows "{descriptor e | e k. reg k = Some e
            \<and> matches_query s (if i = Some 0xFFFF then None else i) (descriptor e)}
    = {d. \<exists>ids \<in> dir_matching s i (directory_of (clients, reg, clock)).
          \<exists>until. dir_entries (directory_of (clients, reg, clock)) ids = Some (d, until)}"
    (is "?L = ?R")
proof -
  note m = dir_matching_keys [OF assms, where s = s and i = i and clients = clients and clock = clock]
  have "d \<in> ?L \<longleftrightarrow> (\<exists>k \<in> key_of ` dir_matching s i (directory_of (clients, reg, clock)).
      map_option descriptor (reg k) = Some d)" for d
    unfolding m [symmetric] by auto
  then show ?thesis by auto
qed

section \<open>One call refines one step\<close>

lemma unat_of_int32: "unat (word_of_int k :: u32) = nat (k mod 2 ^ 32)"
  by (simp add: nat_uint_eq [symmetric] uint_word_of_int)

lemma effective_ttl_wire: "unat (wire_ttl (word_of_int ttl)) = effective_ttl ttl"
  by (auto simp: wire_ttl_def effective_ttl_def min_def word_le_nat_alt unat_of_int32)

lemma request_id_step: "unat (r :: u32) < 65536 \<Longrightarrow> unat (r + 1) = unat r + 1"
  by (simp add: unat_word_ariths)

lemma perform_register:
  assumes "world_ok lib order cw" and "dir_ok (c, CallRegister d ttl fate) (directory_of cw)"
  shows "perform lib order (c, CallRegister d ttl fate) cw
    = (Returned (if answered fate then Inr () else Inl (timeout_error (fst cw c))),
       (fst cw)(c := (fst cw c)\<lparr> api_next_request_id := api_next_request_id (fst cw c) + 1 \<rparr>),
       if arrives fate then register_effect lib (snd (snd cw)) d (word_of_int ttl) (fst (snd cw)) else fst (snd cw),
       snd (snd cw))"
proof -
  have "RegisterService lib (lossy_net lib order (snd (snd cw)) fate) d ttl (fst cw c) (fst (snd cw))
      = (if answered fate then Inr () else Inl (timeout_error (fst cw c)),
         (fst cw c)\<lparr> api_next_request_id := api_next_request_id (fst cw c) + 1 \<rparr>,
         if arrives fate then register_effect lib (snd (snd cw)) d (word_of_int ttl) (fst (snd cw)) else fst (snd cw))"
    by (rule inet_conv.lossy_register) (use assms in \<open>simp_all add: world_ok_def\<close>)
  then show ?thesis by (cases cw) (simp add: timed_RegisterService)
qed

lemma perform_unregister:
  assumes "world_ok lib order cw" and "dir_ok (c, CallUnregister s i fate) (directory_of cw)"
  shows "perform lib order (c, CallUnregister s i fate) cw
    = (Returned (if answered fate then Inr () else Inl (timeout_error (fst cw c))),
       (fst cw)(c := (fst cw c)\<lparr> api_next_request_id := api_next_request_id (fst cw c) + 1 \<rparr>),
       if arrives fate then (fst (snd cw))(MakeRegistryKey s i := None) else fst (snd cw), snd (snd cw))"
proof -
  have "UnregisterService lib (lossy_net lib order (snd (snd cw)) fate) s i (fst cw c) (fst (snd cw))
      = (if answered fate then Inr () else Inl (timeout_error (fst cw c)),
         (fst cw c)\<lparr> api_next_request_id := api_next_request_id (fst cw c) + 1 \<rparr>,
         if arrives fate then (fst (snd cw))(MakeRegistryKey s i := None) else fst (snd cw))"
    by (rule inet_conv.lossy_unregister) (use assms in \<open>simp_all add: world_ok_def\<close>)
  then show ?thesis by (cases cw) (simp add: timed_UnregisterService)
qed

lemma perform_discover:
  assumes "world_ok lib order cw" and "dir_ok (c, CallDiscover s i timeout at fate) (directory_of cw)"
  shows "perform lib order (c, CallDiscover s i timeout at fate) cw
    = (if \<not> answered fate then Found [] None
       else let ds = find_reply lib (order (fst (snd cw))) (fst (snd cw)) s (if i = Some 0xFFFF then None else i)
            in if length ds \<le> 140 then Found ds None else Found [] (Some (DecodeFailed SomeIpLengthMismatch)),
       (fst cw)(c := (fst cw c)\<lparr> api_next_request_id := api_next_request_id (fst cw c) + 1 \<rparr>), snd cw)"
proof -
  obtain clients reg clock where cw: "cw = (clients, reg, clock)" by (cases cw)
  let ?L = "find_reply lib (order reg) reg s (if i = Some 0xFFFF then None else i)"
  have same: "map (wire_descriptor lib) ?L = ?L"
    by (rule map_idI) (use assms(1) find_reply_ran in \<open>fastforce simp: world_ok_def cw\<close>)
  have "DiscoverServices lib DiscoverSent (lossy_rounds lib order fate clock at) 0 s i timeout (clients c) reg
      = (if answered fate then let ds = ?L in if length ds \<le> 140 then (map (wire_descriptor lib) ds, None)
           else ([], Some (DecodeFailed SomeIpLengthMismatch)) else ([], None),
         (clients c)\<lparr> api_next_request_id := api_next_request_id (clients c) + 1 \<rparr>, reg)"
    by (rule inet_conv.lossy_discover) (use assms in \<open>simp_all add: world_ok_def cw\<close>)
  moreover have "DiscoverServices lib DiscoverSent
      (\<lambda>grp port d w. apsnd (\<lambda>reg. (reg, snd w)) (lossy_rounds lib order fate (snd w) at grp port d (fst w)))
      0 s i timeout (clients c) (reg, clock)
    = apsnd (apsnd (\<lambda>reg. (reg, clock)))
        (DiscoverServices lib DiscoverSent (lossy_rounds lib order fate clock at) 0 s i timeout (clients c) reg)"
    by (simp add: DiscoverServices_def Let_def split: prod.split)
  ultimately show ?thesis by (simp add: cw same Let_def)
qed

lemma ttl_zero: "(word_of_int ttl :: u32) = 0 \<longleftrightarrow> effective_ttl ttl = 0"
  using effective_ttl_wire [of ttl] by (metis unat_eq_zero wire_ttl_0)

lemma register_effect_at:
  assumes "unat clock < 2 ^ 63"
  shows "map_option (\<lambda>e. (descriptor e, unat (expires_at_ms e)))
      (register_effect lib clock d (word_of_int ttl) reg (key_of ids))
    = (if ids = ids_of d then
         if effective_ttl ttl = 0 then None
         else Some (wire_descriptor lib d, unat clock + effective_ttl ttl * 1000)
       else map_option (\<lambda>e. (descriptor e, unat (expires_at_ms e))) (reg (key_of ids)))"
  using expiry_of_word [OF assms, of "word_of_int ttl"]
  by (simp add: register_effect_def ttl_zero entry_key_ids expiry_of_def effective_ttl_wire)

lemma world_ok_register:
  "world_ok lib order (clients, reg, clock) \<Longrightarrow>
     world_ok lib order (clients(c := (clients c)\<lparr> api_next_request_id := r \<rparr>),
       register_effect lib clock d ttl reg, clock)"
  by (auto simp: world_ok_def control_ready_def register_effect_def keys_ok_def inet_conv.wire_descriptor_idem)

lemma world_ok_delete:
  "world_ok lib order (clients, reg, clock) \<Longrightarrow>
     world_ok lib order (clients(c := (clients c)\<lparr> api_next_request_id := r \<rparr>), reg(k := None), clock)"
  by (auto simp: world_ok_def control_ready_def keys_ok_def)

lemma world_ok_same:
  "world_ok lib order (clients, reg, clock) \<Longrightarrow>
     world_ok lib order (clients(c := (clients c)\<lparr> api_next_request_id := r \<rparr>), reg, clock)"
  by (auto simp: world_ok_def control_ready_def)

lemma world_ok_advance:
  assumes "world_ok lib order (clients, w)" and "unat t < 2 ^ 63"
  shows "world_ok lib order (clients, advance order t w)"
proof -
  have "fst (advance order t w) k = Some e \<Longrightarrow> fst w k = Some e" for k e
    using advance_at [of order t w k] by auto
  with assms advance_keys [of w order t] show ?thesis unfolding world_ok_def by simp blast
qed

lemma perform_step:
  assumes "world_ok lib order cw" and "dir_ok op (directory_of cw)"
  shows "world_ok lib order (snd (perform lib order op cw))
    \<and> directory_of (snd (perform lib order op cw)) = dir_step lib op (directory_of cw)
    \<and> dir_allows op (directory_of cw) (fst (perform lib order op cw))"
proof -
  obtain clients reg clock where cw: "cw = (clients, reg, clock)" by (cases cw)
  obtain c call where op: "op = (c, call)" by (cases op)
  note world = assms(1) [unfolded cw] and ok = assms(2) [unfolded cw op]
  have clock: "unat clock < 2 ^ 63" and keys: "keys_ok reg" and order: "\<forall>m. enumerates (order m) m"
    using world by (simp_all add: world_ok_def)
  show ?thesis
  proof (cases call)
    case (CallRegister d ttl fate)
    from perform_register [OF world, of c d ttl fate] ok world_ok_register [OF world] world_ok_same [OF world]
    show ?thesis
      unfolding cw op CallRegister
      by (auto intro!: directory_eqI simp: register_effect_at [OF clock] request_id_step dir_request_def
          request_allows_def timeout_error_def)
  next
    case (CallUnregister s i fate)
    have "key_of ids = MakeRegistryKey s i \<longleftrightarrow> ids = (s, i)" for ids
      by (auto simp: key_of_def prod_eq_iff)
    with perform_unregister [OF world, of c s i fate] ok world_ok_delete [OF world] world_ok_same [OF world]
    show ?thesis
      unfolding cw op CallUnregister
      by (auto intro!: directory_eqI simp: request_id_step dir_request_def request_allows_def timeout_error_def)
  next
    case (CallDiscover s i timeout at fate)
    let ?L = "find_reply lib (order reg) reg s (if i = Some 0xFFFF then None else i)"
    let ?dir = "directory_of (clients, reg, clock)"
    have enum: "enumerates (order reg) reg" using order by blast
    have "length ?L = card (dir_matching s i ?dir)"
      unfolding find_reply_card [OF enum] dir_matching_keys [OF keys, where clients = clients and clock = clock]
      by (rule card_image) (simp add: inj_on_def)
    moreover have "set ?L = {d. \<exists>ids \<in> dir_matching s i ?dir. \<exists>until. dir_entries ?dir ids = Some (d, until)}"
      unfolding find_reply_entries [OF enum] by (rule dir_matching_descriptors [OF keys])
    moreover have "distinct (map ids_of ?L)"
      using find_reply_keys [OF enum keys, of lib s "if i = Some 0xFFFF then None else i"]
      by (simp add: distinct_map inj_on_def entry_key_ids)
    ultimately have "dir_allows (c, CallDiscover s i timeout at fate) ?dir
        (if \<not> answered fate then Found [] None
         else if length ?L \<le> 140 then Found ?L None else Found [] (Some (DecodeFailed SomeIpLengthMismatch)))"
      by (simp del: dir_entries_of)
    with perform_discover [OF world, of c s i timeout at fate] ok world_ok_same [OF world]
    show ?thesis
      unfolding cw op CallDiscover
      by (auto intro!: directory_eqI simp: request_id_step Let_def simp del: dir_allows.simps)
  next
    case (CallWait t)
    have "fst (advance order t (reg, clock)) k
        = (case reg k of None \<Rightarrow> None | Some e \<Rightarrow> if expires_at_ms e \<le> t then None else Some e)" for k
      using order by (simp add: advance_def CleanupExpired_live live_def)
    with world_ok_advance [OF world, of t] ok show ?thesis
      unfolding cw op CallWait
      by (auto intro!: directory_eqI simp: word_le_nat_alt split: option.split)
  qed
qed

interpretation discovery_service: simulation "perform lib order" "dir_step lib" dir_ok dir_allows
    directory_of "world_ok lib order" for lib order
  by unfold_locales (simp_all add: perform_step)

section \<open>Property\<close>

text \<open>C1. Service discovery is a directory: whatever calls clients make, in any number and order, with any
  waiting between them and over a network that loses and repeats datagrams, each returns what the
  directory allows (registering and unregistering succeed if they are answered, discovering then
  returns exactly the services registered and not expired, each once, up to 140 of them; a call without
  an answer reports its timeout, or finds nothing), and the registry afterwards reads as the directory
  the specification arrives at, in which a request has had its effect if it reached the daemon.\<close>

theorem directory_refined:
  assumes "world_ok lib order cw" and "ops_ok dir_ok (dir_step lib) calls (directory_of cw)"
    and "op_run (perform lib order) calls cw = (outs, cw')"
  shows "directory_of cw' = fold (dir_step lib) calls (directory_of cw)
    \<and> ops_allow dir_allows (dir_step lib) calls (directory_of cw) outs"
  using discovery_service.op_run_refines [OF assms] by simp

lemma allows_nothing:
  "dir_matching s i dir = {} \<Longrightarrow> dir_allows (c, CallDiscover s i timeout at fate) dir out \<longleftrightarrow> out = Found [] None"
  by auto

lemma distinct_singleton: "distinct xs \<and> set xs = {x} \<longleftrightarrow> xs = [x]"
  by (cases xs; cases "tl xs") auto

lemma allows_one:
  assumes "dir_matching s i dir = {ids}" and "dir_entries dir ids = Some (d, until)"
  shows "dir_allows (c, CallDiscover s i timeout at fate) dir out
    \<longleftrightarrow> out = Found (if answered fate then [d] else []) None"
proof -
  have "distinct (map ids_of ds) \<and> set ds = {d} \<longleftrightarrow> ds = [d]" for ds
    using distinct_singleton [of ds d] by (auto simp: distinct_map)
  with assms show ?thesis by auto
qed

text \<open>A directory of at most one entry.\<close>

lemma matching_none: "dir_entries dir = Map.empty \<Longrightarrow> dir_matching s i dir = {}"
  by (simp add: dir_matching_def)

lemma matching_single:
  "dir_entries dir = [ids \<mapsto> v] \<Longrightarrow>
     dir_matching s i dir = (if fst ids = s \<and> i \<in> {None, Some 0xFFFF, Some (snd ids)} then {ids} else {})"
  by (auto simp: dir_matching_def split: if_splits)

lemma wait_single:
  "dir_entries dir = [ids \<mapsto> (d, until)] \<Longrightarrow> dir_entries (dir_step lib (c, CallWait t) dir)
     = (if until \<le> unat t then Map.empty else [ids \<mapsto> (d, until)])"
  by auto

lemma wait_empty:
  "dir_entries dir = Map.empty \<Longrightarrow> dir_entries (dir_step lib (c, CallWait t) dir) = Map.empty"
  by auto

lemma register_empty:
  "dir_entries dir = Map.empty \<Longrightarrow> effective_ttl ttl \<noteq> 0 \<Longrightarrow>
     dir_entries (dir_step lib (c, CallRegister d ttl Delivered) dir)
     = [ids_of d \<mapsto> (wire_descriptor lib d, dir_clock dir + effective_ttl ttl * 1000)]"
  by (simp add: dir_request_def arrives_def)

lemma dir_clock_step:
  "dir_clock (dir_step lib (c, call) dir) = (case call of CallWait t \<Rightarrow> unat t | _ \<Rightarrow> dir_clock dir)"
  by (cases call) (auto simp: dir_request_def)

lemma discover_entries [simp]:
  "dir_entries (dir_step lib (c, CallDiscover s i timeout at fate) dir) = dir_entries dir"
  by simp

lemma directory_of_empty: "dir_entries (directory_of (clients, Map.empty, clock)) = Map.empty"
  by (simp add: fun_eq_iff)

lemmas small_directory = matching_none matching_single wait_single wait_empty register_empty
  dir_clock_step directory_of_empty allows_nothing allows_one ops_allow_Cons

text \<open>Two clients of an empty daemon, one of which registers what the other looks for and finds until
  the time to live is over.\<close>

definition two_clients :: clients_world where
  "two_clients = ((\<lambda>_. sample_api), Map.empty, 100)"

definition two_client_calls :: "(nat \<times> call) list" where
  "two_client_calls = [(0, CallRegister sample_service 2 Delivered), (1, CallWait 1500),
     (1, CallDiscover 0x1234 None 600 5 Repeated), (1, CallDiscover 0x1234 None 600 5 ReplyLost),
     (1, CallWait 2100), (1, CallDiscover 0x1234 None 600 5 Delivered)]"

lemma two_clients_ok: "world_ok dotted key_order two_clients"
  by (simp add: world_ok_def two_clients_def dotted.inet_conv_axioms key_order_enumerates keys_ok_def
      sample_api_def new_SomeIpSdApi_def control_ready_def)

lemma two_client_calls_ok: "ops_ok dir_ok (dir_step lib) two_client_calls (directory_of two_clients)"
  by (simp add: two_client_calls_def two_clients_def sample_api_def new_SomeIpSdApi_def)

lemma sample_ids: "ids_of sample_service = (0x1234, 1)"
  by (simp add: ids_of_def sample_service_def)

theorem directory_refined_witness:
  "\<exists>d. map (\<lambda>i. fst (op_run (perform dotted key_order) two_client_calls two_clients) ! i) [0, 2, 3, 5]
     = [Returned (Inr ()), Found [d] None, Found [] None, Found [] None]"
proof -
  obtain outs cw where run: "op_run (perform dotted key_order) two_client_calls two_clients = (outs, cw)"
    by (cases "op_run (perform dotted key_order) two_client_calls two_clients")
  have "ops_allow dir_allows (dir_step dotted) two_client_calls (directory_of two_clients) outs"
    using directory_refined [OF two_clients_ok two_client_calls_ok run] ..
  then have "outs ! 0 = Returned (Inr ()) \<and> outs ! 2 = Found [wire_descriptor dotted sample_service] None
      \<and> outs ! 3 = Found [] None \<and> outs ! 5 = Found [] None"
    by (auto simp: two_client_calls_def two_clients_def small_directory effective_ttl_def sample_ids
        request_allows_def answered_def
        simp del: dir_step.simps ops_allow.simps(2) dir_allows.simps(3) dir_entries_of)
  with run show ?thesis by auto
qed

end
