(* ===== verification/Sd_Service_Test.thy ===== *)
theory Sd_Service_Test
  imports Sd_Directory
begin

text \<open>
  The test program of the service (\<open>tests/test_sd_service.cpp\<close>): its clients and descriptors, the
  calls it makes in order, with the clock readings they happen at as arguments, and what it asserts
  of their results. By the refinement of \<open>Sd_Directory\<close> the assertions hold whenever the program is
  scheduled so that its timing assumptions hold; they are hypotheses of the property.
\<close>

section \<open>Clients and descriptors\<close>

definition test_api :: SomeIpSdApi where
  "test_api = SetDiscoveryMulticast ''239.255.0.1'' 30491 ''127.0.0.1'' (new_SomeIpSdApi ''127.0.0.1'' 30491 1000)"

definition test_api_uds :: SomeIpSdApi where
  "test_api_uds = EnableUnixDomainControl ''/tmp/openveh_someip_sd_test.sock''
     (SetDiscoveryMulticast ''239.255.0.1'' 30492 ''127.0.0.1'' (new_SomeIpSdApi ''127.0.0.1'' 30492 1000))"

definition test_desc :: ServiceDescriptor where
  "test_desc = \<lparr> service_id = 0x3333, instance_id = 0x0001, major_version = 1, minor_version = 2,
     endpoint_host = ''127.0.0.1'', endpoint_port = 41000, transport = ''udp'' \<rparr>"

definition test_desc_expiring :: ServiceDescriptor where
  "test_desc_expiring = test_desc\<lparr> service_id := 0x4444, instance_id := 0x0002, endpoint_port := 42000 \<rparr>"

definition test_desc_uds :: ServiceDescriptor where
  "test_desc_uds = test_desc_expiring\<lparr> service_id := 0x5555, instance_id := 0x0003, endpoint_port := 43000 \<rparr>"

section \<open>Calls and assertions\<close>

text \<open>The readings \<open>t1\<close> to \<open>t5\<close> are those of the daemon at the calls after the first one, \<open>at\<close> the
  nanosecond of the discovery at which the daemon's answer arrives.\<close>

definition test_calls :: "int \<Rightarrow> u64 \<Rightarrow> u64 \<Rightarrow> u64 \<Rightarrow> u64 \<Rightarrow> u64 \<Rightarrow> (nat \<times> call) list" where
  "test_calls at t1 t2 t3 t4 t5 =
     [(0, CallRegister test_desc 2 Delivered),
      (0, CallWait t1), (0, CallDiscover (service_id test_desc) (Some (instance_id test_desc)) 600 at Delivered),
      (0, CallWait t2), (0, CallUnregister (service_id test_desc) (instance_id test_desc) Delivered),
      (0, CallWait t3), (0, CallDiscover (service_id test_desc) (Some (instance_id test_desc)) 600 at Delivered),
      (0, CallWait t4), (0, CallRegister test_desc_expiring 1 Delivered),
      (0, CallWait t5),
      (0, CallDiscover (service_id test_desc_expiring) (Some (instance_id test_desc_expiring)) 600 at Delivered)]"

definition test_calls_uds :: "int \<Rightarrow> u64 \<Rightarrow> u64 \<Rightarrow> (nat \<times> call) list" where
  "test_calls_uds at t1 t2 =
     [(0, CallRegister test_desc_uds 2 Delivered),
      (0, CallWait t1), (0, CallDiscover (service_id test_desc_uds) (Some (instance_id test_desc_uds)) 600 at Delivered),
      (0, CallWait t2), (0, CallUnregister (service_id test_desc_uds) (instance_id test_desc_uds) Delivered)]"

fun succeeded :: "outcome \<Rightarrow> bool" where
  "succeeded (Returned (Inr ())) = True"
| "succeeded _ = False"

fun found_empty :: "outcome \<Rightarrow> bool" where
  "found_empty (Found ds e) = (ds = [])"
| "found_empty _ = False"

fun found_first_port :: "u16 \<Rightarrow> outcome \<Rightarrow> bool" where
  "found_first_port port (Found (d # ds) None) = (endpoint_port d = port)"
| "found_first_port port _ = False"

definition test_asserts :: "outcome list \<Rightarrow> bool" where
  "test_asserts outs \<longleftrightarrow>
     succeeded (outs ! 0) \<and> found_first_port (endpoint_port test_desc) (outs ! 2)
     \<and> succeeded (outs ! 4) \<and> found_empty (outs ! 6) \<and> succeeded (outs ! 8) \<and> found_empty (outs ! 10)"

definition test_asserts_uds :: "outcome list \<Rightarrow> bool" where
  "test_asserts_uds outs \<longleftrightarrow> succeeded (outs ! 0) \<and> \<not> found_empty (outs ! 2) \<and> succeeded (outs ! 4)"

section \<open>Property\<close>

definition test_world :: "SomeIpSdApi \<Rightarrow> u64 \<Rightarrow> clients_world" where
  "test_world api t0 = ((\<lambda>_. api), Map.empty, t0)"

lemmas test_defs = request_allows_def answered_def test_desc_uds_def test_desc_expiring_def test_desc_def ids_of_def effective_ttl_def

lemma test_api_simps [simp]:
  "api_next_request_id test_api = 1" "control_ready test_api"
  "api_next_request_id test_api_uds = 1" "control_ready test_api_uds"
  by (simp_all add: test_api_def test_api_uds_def SetDiscoveryMulticast_def EnableUnixDomainControl_def
      new_SomeIpSdApi_def control_ready_def)

lemma test_world_ok:
  "inet_conv lib \<Longrightarrow> \<forall>m. enumerates (order m) m \<Longrightarrow> control_ready api \<Longrightarrow> unat t0 < 2 ^ 63 \<Longrightarrow>
     world_ok lib order (test_world api t0)"
  by (simp add: world_ok_def test_world_def keys_ok_def)

lemma unregister_single:
  "dir_entries dir = [(s, i) \<mapsto> v] \<Longrightarrow> dir_entries (dir_step lib (c, CallUnregister s i Delivered) dir) = Map.empty"
  by (auto simp: dir_request_def arrives_def)

lemma unregister_empty:
  "dir_entries dir = Map.empty \<Longrightarrow> dir_entries (dir_step lib (c, CallUnregister s i Delivered) dir) = Map.empty"
  by (auto simp: dir_request_def arrives_def)

lemma wire_port [simp]: "endpoint_port (wire_descriptor lib d) = endpoint_port d"
  by (simp add: wire_descriptor_def)

text \<open>C25. The test passes, for every library and every order of the hash map, when the discovery that
  expects the service comes less than its 2 seconds after the registration, the one that expects it
  gone at least 1 second after (the test sleeps 1300 milliseconds), and answers arrive within 600
  milliseconds; and so does its part over the Unix domain socket.\<close>

theorem service_test_passes:
  assumes "inet_conv lib" and "\<forall>m. enumerates (order m) m"
    and "t0 \<le> t1" "t1 \<le> t2" "t2 \<le> t3" "t3 \<le> t4" "t4 \<le> t5" "unat t5 < 2 ^ 63"
    and "unat t1 < unat t0 + 2000" and "unat t4 + 1000 \<le> unat t5" and "at < 600000000"
  shows "test_asserts (fst (op_run (perform lib order) (test_calls at t1 t2 t3 t4 t5) (test_world test_api t0)))
    \<and> test_asserts_uds (fst (op_run (perform lib order) (test_calls_uds at t1 t2) (test_world test_api_uds t0)))"
proof -
  have t0: "unat t0 < 2 ^ 63" "unat t1 < 2 ^ 63" "unat t2 < 2 ^ 63" "unat t3 < 2 ^ 63" "unat t4 < 2 ^ 63"
    using assms(3-8) by (simp_all add: word_le_nat_alt)
  note world = test_world_ok [OF assms(1,2) test_api_simps(2) t0(1)]
    and world' = test_world_ok [OF assms(1,2) test_api_simps(4) t0(1)]
  obtain outs cw where run: "op_run (perform lib order) (test_calls at t1 t2 t3 t4 t5) (test_world test_api t0) = (outs, cw)"
    by (rule prod.exhaust)
  obtain outs' cw' where run': "op_run (perform lib order) (test_calls_uds at t1 t2) (test_world test_api_uds t0) = (outs', cw')"
    by (rule prod.exhaust)
  have "ops_ok dir_ok (dir_step lib) (test_calls at t1 t2 t3 t4 t5) (directory_of (test_world test_api t0))"
    using assms(3-11) t0 by (simp add: test_calls_def test_world_def word_le_nat_alt)
  from discovery_service.op_run_refines(3) [OF world this run]
  have "test_asserts outs"
    using assms(9,10)
    by (cases "unat t0 + 2000 \<le> unat t2") (auto simp: test_calls_def test_world_def small_directory unregister_single unregister_empty test_defs test_asserts_def
        simp del: dir_step.simps ops_allow.simps(2) dir_allows.simps(3) dir_entries_of)
  moreover
  have "ops_ok dir_ok (dir_step lib) (test_calls_uds at t1 t2) (directory_of (test_world test_api_uds t0))"
    using assms(3-11) t0 by (simp add: test_calls_uds_def test_world_def word_le_nat_alt)
  from discovery_service.op_run_refines(3) [OF world' this run']
  have "test_asserts_uds outs'"
    using assms(9,10)
    by (cases "unat t0 + 2000 \<le> unat t2") (auto simp: test_calls_uds_def test_world_def small_directory unregister_single unregister_empty test_defs test_asserts_uds_def
        simp del: dir_step.simps ops_allow.simps(2) dir_allows.simps(3) dir_entries_of)
  ultimately show ?thesis using run run' by simp
qed

theorem service_test_passes_witness:
  "test_asserts (fst (op_run (perform dotted key_order) (test_calls 5 200 900 1000 1700 3000) (test_world test_api 100)))"
  using service_test_passes [OF dotted.inet_conv_axioms, where order = key_order and ?t0.0 = 100 and ?t1.0 = 200
      and ?t2.0 = 900 and ?t3.0 = 1000 and ?t4.0 = 1700 and ?t5.0 = 3000 and at = 5]
  by (simp add: key_order_enumerates)

end
