(* ===== verification/Sd_Sockets.thy ===== *)
theory Sd_Sockets
  imports Sd_Lifecycle
begin

text \<open>
  The sockets of the server loop as resources. \<open>Sd_Lifecycle\<close> knows only which system calls succeed;
  here they act on the descriptors the process has open and on the socket files in the file system, so
  that one can say what the loop leaves behind, on its failing paths and on its normal end. A path
  goes into \<open>sun_path\<close>, 108 bytes with the final NUL, by \<open>snprintf\<close>, which cuts it; \<open>unlink\<close> gets
  it whole.
\<close>

section \<open>The operating system\<close>

record os =
  os_fds :: "nat set"
  os_next :: nat
  os_files :: "string set"

definition os_ok :: "os \<Rightarrow> bool" where
  "os_ok os \<longleftrightarrow> (\<forall>fd \<in> os_fds os. fd < os_next os)"

text \<open>What the code uses of the calls: a new descriptor or none; a bind to a path fails when the file is
  there, and makes it otherwise. The flags are the other reasons to fail.\<close>

definition os_socket :: "bool \<Rightarrow> os \<Rightarrow> nat option \<times> os" where
  "os_socket ok os =
     (if ok then (Some (os_next os), os\<lparr> os_fds := insert (os_next os) (os_fds os), os_next := os_next os + 1 \<rparr>)
      else (None, os))"

definition os_close :: "nat \<Rightarrow> os \<Rightarrow> os" where
  "os_close fd os = os\<lparr> os_fds := os_fds os - {fd} \<rparr>"

definition sun_path :: "string \<Rightarrow> string" where
  "sun_path p = take 107 (c_str p)"

definition os_bind_unix :: "bool \<Rightarrow> string \<Rightarrow> os \<Rightarrow> bool \<times> os" where
  "os_bind_unix ok p os =
     (if \<not> ok \<or> sun_path p \<in> os_files os then (False, os)
      else (True, os\<lparr> os_files := insert (sun_path p) (os_files os) \<rparr>))"

definition os_unlink :: "string \<Rightarrow> os \<Rightarrow> os" where
  "os_unlink p os = os\<lparr> os_files := os_files os - {c_str p} \<rparr>"

section \<open>The code\<close>

text \<open>\<open>-1\<close> is \<open>None\<close>. A \<open>Setup\<close> function gives its verdict and the descriptor it stored.\<close>

definition os_SetupUdpSocket :: "socket_calls \<Rightarrow> os \<Rightarrow> bool \<times> nat option \<times> os" where
  "os_SetupUdpSocket sys os =
     (case os_socket (udp_socket_ok sys) os of
        (None, os) \<Rightarrow> (False, None, os)
      | (Some fd, os) \<Rightarrow>
          (if \<not> udp_bind_ok sys then (False, None, os_close fd os) else (True, Some fd, os)))"

definition os_SetupUnixSocket :: "socket_calls \<Rightarrow> SomeIpSdDaemon \<Rightarrow> os \<Rightarrow> bool \<times> nat option \<times> os" where
  "os_SetupUnixSocket sys d os =
     (if \<not> dm_unix_enabled d then (True, None, os)
      else if dm_unix_path d = '''' then (False, None, os)
      else case os_socket (unix_socket_ok sys) os of
          (None, os) \<Rightarrow> (False, None, os)
        | (Some fd, os) \<Rightarrow>
            (case os_bind_unix (unix_bind_ok sys) (dm_unix_path d) (os_unlink (dm_unix_path d) os) of (ok, os) \<Rightarrow>
               if \<not> ok then (False, None, os_close fd os) else (True, Some fd, os)))"

definition close_opt :: "nat option \<Rightarrow> os \<Rightarrow> os" where
  "close_opt fd os = (case fd of None \<Rightarrow> os | Some fd \<Rightarrow> os_close fd os)"

text \<open>\<open>ServeLoop\<close> before its loop: the descriptors the loop polls, or \<open>None\<close> when it is not entered.\<close>

definition serve_open :: "socket_calls \<Rightarrow> SomeIpSdDaemon \<Rightarrow> os \<Rightarrow> (nat option \<times> nat option) option \<times> os" where
  "serve_open sys d os =
     (let (udp_ok, udp_fd, os) = os_SetupUdpSocket sys os;
          (ok, unix_fd, os) = (if \<not> udp_ok then (False, None, os) else os_SetupUnixSocket sys d os)
      in if \<not> ok then (None, close_opt unix_fd (close_opt udp_fd os))
         else (Some (udp_fd, unix_fd), os))"

text \<open>And after it.\<close>

definition serve_close :: "SomeIpSdDaemon \<Rightarrow> nat option \<times> nat option \<Rightarrow> os \<Rightarrow> os" where
  "serve_close d fds os =
     (let os = close_opt (snd fds) (close_opt (fst fds) os)
      in if dm_unix_enabled d \<and> dm_unix_path d \<noteq> '''' then os_unlink (dm_unix_path d) os else os)"

lemmas os_defs = os_SetupUdpSocket_def os_SetupUnixSocket_def os_socket_def os_close_def os_bind_unix_def
  os_unlink_def close_opt_def serve_open_def serve_close_def Let_def

section \<open>The life cycle's view\<close>

text \<open>The verdict is that of \<open>serve_prologue\<close>, with the bind failing also when the file is still there
  after the \<open>unlink\<close>.\<close>

definition seen_calls :: "socket_calls \<Rightarrow> SomeIpSdDaemon \<Rightarrow> os \<Rightarrow> socket_calls" where
  "seen_calls sys d os = sys\<lparr> unix_bind_ok := unix_bind_ok sys
     \<and> sun_path (dm_unix_path d) \<notin> os_files os - {c_str (dm_unix_path d)} \<rparr>"

lemma serve_open_prologue:
  "fst (serve_open sys d os) \<noteq> None \<longleftrightarrow> fst (serve_prologue (seen_calls sys d os) d)"
  by (auto simp: os_defs serve_prologue_def SetupUdpSocket_def SetupUnixSocket_def seen_calls_def)

section \<open>Resources\<close>

lemma sun_path_short: "c_str p = p \<Longrightarrow> length p \<le> 107 \<Longrightarrow> sun_path p = p"
  by (simp add: sun_path_def)

lemma sun_path_long: "c_str p = p \<Longrightarrow> 107 < length p \<Longrightarrow> sun_path p \<noteq> p"
  by (auto simp: sun_path_def dest: arg_cong [where f = length])

lemma open_fails_fds:
  assumes "os_ok os" and "serve_open sys d os = (None, os')"
  shows "os_fds os' = os_fds os"
  using assms by (auto simp: os_defs os_ok_def split: if_splits)

lemma open_close_fds:
  assumes "os_ok os" and "serve_open sys d os = (Some fds, os')"
  shows "os_fds (serve_close d fds os') = os_fds os"
  using assms by (auto simp: os_defs os_ok_def split: if_splits)

lemma open_close_files:
  assumes "serve_open sys d os = (Some fds, os')" and "dm_unix_enabled d"
  shows "os_files (serve_close d fds os')
    = insert (sun_path (dm_unix_path d)) (os_files os - {c_str (dm_unix_path d)}) - {c_str (dm_unix_path d)}"
  using assms by (auto simp: os_defs split: if_splits)

section \<open>Property\<close>

text \<open>C21. The server loop leaks no descriptor: a setup that fails closes what it opened, and so does the
  end of the loop. It also removes its socket file, if the path fits the 107 bytes of \<open>sun_path\<close>; a
  longer path is bound cut and unlinked whole, so the file stays, and the daemon cannot be started
  again.\<close>

theorem serve_loop_resources:
  assumes "os_ok os" and "dm_unix_enabled d" and "c_str (dm_unix_path d) = dm_unix_path d"
  shows "case serve_open sys d os of
      (None, os1) \<Rightarrow> os_fds os1 = os_fds os
    | (Some fds, os1) \<Rightarrow>
        (let os2 = serve_close d fds os1
         in os_fds os2 = os_fds os
          \<and> (length (dm_unix_path d) \<le> 107 \<longrightarrow> os_files os2 = os_files os - {dm_unix_path d})
          \<and> (fst (serve_open sys d os2) \<noteq> None \<longleftrightarrow> length (dm_unix_path d) \<le> 107))"
proof (cases "serve_open sys d os")
  case (Pair r os1)
  show ?thesis
  proof (cases r)
    case None
    with Pair open_fails_fds [OF assms(1)] show ?thesis by simp
  next
    case (Some fds)
    with Pair have op: "serve_open sys d os = (Some fds, os1)" by simp
    let ?p = "dm_unix_path d" and ?os2 = "serve_close d fds os1"
    have files: "os_files ?os2 = insert (sun_path ?p) (os_files os - {?p}) - {?p}"
      using open_close_files [OF op assms(2)] assms(3) by simp
    have ok: "fst (serve_prologue (seen_calls sys d os) d)" using serve_open_prologue [of sys d os] op by simp
    have again: "fst (serve_open sys d ?os2) \<noteq> None \<longleftrightarrow> sun_path ?p \<notin> os_files ?os2 - {?p}"
      unfolding serve_open_prologue using ok assms(2,3)
      by (auto simp: serve_prologue_def SetupUdpSocket_def SetupUnixSocket_def seen_calls_def split: if_splits)
    have "fst (serve_open sys d ?os2) \<noteq> None \<longleftrightarrow> length ?p \<le> 107"
      unfolding again files
      using sun_path_short [OF assms(3)] sun_path_long [OF assms(3)] by (cases "length ?p \<le> 107") auto
    moreover have "length ?p \<le> 107 \<Longrightarrow> os_files ?os2 = os_files os - {?p}"
      unfolding files using sun_path_short [OF assms(3)] by auto
    ultimately show ?thesis
      using op open_close_fds [OF assms(1) op] by (simp add: Let_def)
  qed
qed

definition long_path :: string where
  "long_path = ''/tmp/'' @ replicate 120 (CHR ''x'')"

theorem serve_loop_resources_witness:
  "case serve_open good_calls (dm_EnableUnixDomainControl long_path sample_daemon)
      \<lparr> os_fds = {0, 1, 2}, os_next = 3, os_files = {} \<rparr> of
     (None, os1) \<Rightarrow> False
   | (Some fds, os1) \<Rightarrow> fst (serve_open good_calls (dm_EnableUnixDomainControl long_path sample_daemon)
       (serve_close (dm_EnableUnixDomainControl long_path sample_daemon) fds os1)) = None"
proof -
  let ?d = "dm_EnableUnixDomainControl long_path sample_daemon" and ?os = "\<lparr> os_fds = {0, 1, 2}, os_next = 3, os_files = {} \<rparr>"
  have "os_ok ?os" "dm_unix_enabled ?d" "c_str (dm_unix_path ?d) = dm_unix_path ?d"
    by (auto simp: os_ok_def dm_EnableUnixDomainControl_def long_path_def intro!: c_str_id)
  note res = serve_loop_resources [OF this, of good_calls]
  have len: "\<not> length (dm_unix_path ?d) \<le> 107" by (simp add: dm_EnableUnixDomainControl_def long_path_def)
  have "fst (serve_open good_calls ?d ?os) \<noteq> None"
    unfolding serve_open_prologue
    by (simp add: serve_prologue_def SetupUdpSocket_def SetupUnixSocket_def seen_calls_def good_calls_def
        dm_EnableUnixDomainControl_def long_path_def)
  then obtain fds os1 where op: "serve_open good_calls ?d ?os = (Some fds, os1)"
    by (cases "serve_open good_calls ?d ?os") auto
  have "fst (serve_open good_calls ?d (serve_close ?d fds os1)) = None"
    using res len unfolding op prod.case option.case Let_def by blast
  then show ?thesis unfolding op prod.case option.case .
qed

end
