(* ===== verification/Sd_Client_Sockets.thy ===== *)
theory Sd_Client_Sockets
  imports Sd_Sockets Sd_System Decimal "HOL-Library.Signed_Division"
begin

text \<open>
  The sockets of the client. \<open>Sd_Api\<close> knows a request only by how its socket calls end; here
  \<open>DoControlRequest\<close> and \<open>DiscoverServices\<close> act on the descriptors and socket files of the process, as
  the daemon does in \<open>Sd_Sockets\<close>. A request over the Unix domain binds a file of its own, named by
  process and request id, for the reply to be sent to.
\<close>

section \<open>The name of a reply socket\<close>

definition local_path :: "nat \<Rightarrow> u32 \<Rightarrow> string" where
  "local_path pid rid = ''/tmp/openveh_sd_api_'' @ decimal pid @ ''_'' @ decimal (unat rid) @ ''.sock''"

section \<open>The code\<close>

text \<open>How the calls of one request go. \<open>cl_recv\<close> is the datagram received, if one is.\<close>

record client_calls =
  cl_socket_ok :: bool
  cl_bind_ok :: bool
  cl_send_ok :: bool
  cl_recv :: "bytes option"

definition received :: "api_error \<Rightarrow> client_calls \<Rightarrow> api_error + SdPacket" where
  "received timeout sys =
     (case cl_recv sys of
        None \<Rightarrow> Inl timeout
      | Some d \<Rightarrow> if d = [] then Inl timeout else decode_reply (take kApiBufferSize d))"

definition os_DoControlRequest ::
    "client_calls \<Rightarrow> nat \<Rightarrow> SomeIpSdApi \<Rightarrow> SdPacket \<Rightarrow> os \<Rightarrow> (api_error + SdPacket) \<times> os" where
  "os_DoControlRequest sys pid api req os =
     (if api_control_transport api = kUnixDomainSocket then
        (if api_unix_socket_path api = '''' then (Inl UnixPathEmpty, os)
         else case os_socket (cl_socket_ok sys) os of
             (None, os) \<Rightarrow> (Inl UnixSocketCreateFailed, os)
           | (Some fd, os) \<Rightarrow>
               (let path = local_path pid (pkt_request_id req);
                    (ok, os) = os_bind_unix (cl_bind_ok sys) path (os_unlink (sun_path path) os)
                in if \<not> ok then (Inl UnixBindFailed, os_close fd os)
                   else if \<not> cl_send_ok sys then (Inl UnixSendFailed, os_unlink path (os_close fd os))
                   else (received UnixControlTimeout sys, os_unlink path (os_close fd os))))
      else case os_socket (cl_socket_ok sys) os of
          (None, os) \<Rightarrow> (Inl SocketCreateFailed, os)
        | (Some fd, os) \<Rightarrow>
            (if \<not> cl_send_ok sys then (Inl SendControlFailed, os_close fd os)
             else (received ControlTimeout sys, os_close fd os)))"

definition os_DiscoverServices ::
    "client_calls \<Rightarrow> inet_lib \<Rightarrow> (string \<Rightarrow> u16 \<Rightarrow> bytes \<Rightarrow> 'w \<Rightarrow> (int \<times> round) list \<times> 'w) \<Rightarrow> int \<Rightarrow>
     u16 \<Rightarrow> u16 option \<Rightarrow> int \<Rightarrow> SomeIpSdApi \<Rightarrow> 'w \<Rightarrow> os \<Rightarrow>
     ((ServiceList \<times> api_error option) \<times> SomeIpSdApi \<times> 'w) \<times> os" where
  "os_DiscoverServices sys lib net start_ns service inst timeout_ms api w os =
     (case os_socket (cl_socket_ok sys) os of
        (None, os) \<Rightarrow> ((([], Some SocketCreateFailed), api, w), os)
      | (Some fd, os) \<Rightarrow>
          (if \<not> cl_bind_ok sys then ((([], Some BindDiscoverFailed), api, w), os_close fd os)
           else let (rid, api) = AllocateRequestId api;
                    out = EncodePacket (find_packet rid service inst)
                in if \<not> cl_send_ok sys then ((([], Some SendFindFailed), api, w), os_close fd os)
                   else let (rounds, w) = net (api_discovery_multicast_group api)
                                   (api_discovery_multicast_port api) out w;
                            st = discover_loop lib rid (start_ns + timeout_ms * 1000000) rounds
                                   \<lparr> found = [], dedup = {}, last_error = None \<rparr>
                        in (((found st, last_error st), api, w), os_close fd os)))"

section \<open>The receive timeout\<close>

text \<open>What \<open>SO_RCVTIMEO\<close> is set to; division is that of C++, towards zero.\<close>

record timeval =
  tv_sec :: int
  tv_usec :: int

definition control_timeval :: "SomeIpSdApi \<Rightarrow> timeval" where
  "control_timeval api = \<lparr> tv_sec = api_timeout_ms api sdiv 1000, tv_usec = api_timeout_ms api smod 1000 * 1000 \<rparr>"

text \<open>A positive timeout is set exactly. One of zero is the value that stands for no timeout at all, so a
  request whose answer is lost never returns, and a negative one is no time.\<close>

lemma control_timeval_exact:
  "0 \<le> api_timeout_ms api \<Longrightarrow>
     tv_sec (control_timeval api) * 1000000 + tv_usec (control_timeval api) = api_timeout_ms api * 1000
     \<and> 0 \<le> tv_sec (control_timeval api) \<and> tv_usec (control_timeval api) \<in> {0..<1000000}
     \<and> (control_timeval api = \<lparr> tv_sec = 0, tv_usec = 0 \<rparr> \<longleftrightarrow> api_timeout_ms api = 0)"
  by (auto simp: control_timeval_def signed_divide_int_def signed_modulo_int_def sgn_if) presburger+

lemma control_timeval_negative:
  assumes "api_timeout_ms api < 0"
  shows "tv_sec (control_timeval api) < 0 \<or> tv_usec (control_timeval api) < 0"
proof -
  let ?u = "- api_timeout_ms api"
  have "tv_sec (control_timeval api) = - (?u div 1000)" "tv_usec (control_timeval api) = - (?u mod 1000) * 1000"
    using assms by (simp_all add: control_timeval_def signed_divide_int_def signed_modulo_int_def sgn_if)
  moreover have "?u div 1000 * 1000 + ?u mod 1000 = ?u" by (rule div_mult_mod_eq)
  moreover have "0 \<le> ?u mod 1000" by simp
  ultimately show ?thesis using assms by linarith
qed

section \<open>The name is whole\<close>

lemma unat_less_exp32: "unat (r :: u32) < 2 ^ 32"
  using uint_lt2p [of r] by (simp add: nat_less_iff flip: nat_uint_eq)

lemma local_path_short:
  assumes "pid < 2 ^ 31"
  shows "length (local_path pid rid) \<le> 107"
proof -
  have "length (decimal pid) \<le> 10" by (rule length_decimal) (use assms in simp_all)
  moreover have "length (decimal (unat rid)) \<le> 10"
    by (rule length_decimal) (use unat_less_exp32 [of rid] in simp_all)
  ultimately show ?thesis by (simp add: local_path_def)
qed

lemma local_path_c_str [simp]: "c_str (local_path pid rid) = local_path pid rid"
  by (rule c_str_id) (simp add: local_path_def decimal_no)

lemma local_path_sun [simp]: "pid < 2 ^ 31 \<Longrightarrow> sun_path (local_path pid rid) = local_path pid rid"
  by (rule sun_path_short [OF local_path_c_str local_path_short])

text \<open>Requests of different processes or with different ids have different names.\<close>

lemma local_path_inject [simp]:
  "local_path pid rid = local_path pid' rid' \<longleftrightarrow> pid = pid' \<and> rid = rid'"
proof -
  have "decimal pid @ CHR ''_'' # decimal (unat rid) @ ''.sock'' = decimal pid' @ CHR ''_'' # decimal (unat rid') @ ''.sock''
      \<longleftrightarrow> pid = pid' \<and> unat rid = unat rid'"
    by (subst append_sep) (simp_all add: decimal_no)
  then show ?thesis by (simp add: local_path_def word_unat_eq_iff)
qed

section \<open>Resources\<close>

lemmas client_os_defs = os_socket_def os_close_def os_bind_unix_def os_unlink_def Let_def

text \<open>The result is the one of \<open>Sd_Api\<close>, for a network on which the request ends as these calls do.\<close>

definition io_of :: "client_calls \<Rightarrow> control_io" where
  "io_of sys = (if \<not> cl_socket_ok sys then SocketFails else if \<not> cl_send_ok sys then SendFails
     else case cl_recv sys of None \<Rightarrow> NothingReceived | Some d \<Rightarrow> Reply d)"

definition calls_net :: "client_calls \<Rightarrow> unit network" where
  "calls_net sys =
     \<lparr> net_udp = (\<lambda>host port d w. (io_of sys, w)),
       net_unix = (\<lambda>path d w. (if cl_socket_ok sys \<and> \<not> cl_bind_ok sys then BindFails else UnixIo (io_of sys), w)) \<rparr>"

lemma os_control_result:
  assumes "pid < 2 ^ 31"
  shows "fst (os_DoControlRequest sys pid api req os) = fst (DoControlRequest (calls_net sys) api req ())"
  using assms
  by (auto simp: os_DoControlRequest_def DoControlRequest_def calls_net_def io_of_def client_os_defs received_def
      split: option.split)

definition setup_of :: "client_calls \<Rightarrow> discover_setup" where
  "setup_of sys = (if \<not> cl_socket_ok sys then DiscoverSocketFails else if \<not> cl_bind_ok sys then DiscoverBindFails
     else if \<not> cl_send_ok sys then DiscoverSendFails else DiscoverSent)"

lemma os_discover_result:
  "fst (os_DiscoverServices sys lib net start s i timeout api w os)
     = DiscoverServices lib (setup_of sys) net start s i timeout api w"
  by (simp add: os_DiscoverServices_def DiscoverServices_def setup_of_def client_os_defs split: prod.split)

lemma os_control_fds:
  "os_ok os \<Longrightarrow> os_fds (snd (os_DoControlRequest sys pid api req os)) = os_fds os"
  by (auto simp: os_DoControlRequest_def client_os_defs os_ok_def)

lemma os_discover_fds:
  "os_ok os \<Longrightarrow> os_fds (snd (os_DiscoverServices sys lib net start s i timeout api w os)) = os_fds os"
  by (auto simp: os_DiscoverServices_def client_os_defs os_ok_def split: prod.split)

lemma os_discover_files [simp]:
  "os_files (snd (os_DiscoverServices sys lib net start s i timeout api w os)) = os_files os"
  by (auto simp: os_DiscoverServices_def client_os_defs split: prod.split)

lemma os_control_files:
  assumes "pid < 2 ^ 31"
  shows "os_files (snd (os_DoControlRequest sys pid api req os))
    = (if api_control_transport api = kUnixDomainSocket \<and> api_unix_socket_path api \<noteq> '''' \<and> cl_socket_ok sys
       then os_files os - {local_path pid (pkt_request_id req)} else os_files os)"
  using assms by (auto simp: os_DoControlRequest_def client_os_defs)

section \<open>Property\<close>

text \<open>C22. No call of the client leaves a descriptor open, on any of its paths. A request over the Unix
  domain leaves no file either: whatever becomes of it once it has a socket, its reply socket is gone
  from the file system afterwards, and no other file has been touched. Its result is the one of the
  client's model without descriptors.\<close>

theorem client_leaves_nothing:
  assumes "os_ok os" and "pid < 2 ^ 31"
  shows "let res = os_DoControlRequest sys pid api req os;
             disc = os_DiscoverServices sys lib net start s i timeout api w os
         in os_fds (snd res) = os_fds os \<and> os_fds (snd disc) = os_fds os \<and> os_files (snd disc) = os_files os
          \<and> os_files (snd res) = os_files os - (if api_control_transport api = kUnixDomainSocket
              \<and> fst res \<notin> {Inl UnixPathEmpty, Inl UnixSocketCreateFailed}
              then {local_path pid (pkt_request_id req)} else {})
          \<and> fst res = fst (DoControlRequest (calls_net sys) api req ())
          \<and> fst disc = DiscoverServices lib (setup_of sys) net start s i timeout api w"
proof -
  have unix: "fst (os_DoControlRequest sys pid api req os) \<in> {Inl UnixPathEmpty, Inl UnixSocketCreateFailed}
      \<longleftrightarrow> api_unix_socket_path api = '''' \<or> \<not> cl_socket_ok sys"
    if "api_control_transport api = kUnixDomainSocket"
    using that by (auto simp: os_DoControlRequest_def client_os_defs received_def decode_reply_def
        split: option.splits sum.splits)
  show ?thesis
    using os_control_fds [OF assms(1), of sys pid api req]
      os_discover_fds [OF assms(1), of sys lib net start s i timeout api w]
      os_control_files [OF assms(2), of sys api req os] unix
      os_control_result [OF assms(2), of sys api req os]
      os_discover_result [of sys lib net start s i timeout api w os]
      os_discover_files [of sys lib net start s i timeout api w os]
    by (auto simp: Let_def)
qed

theorem client_leaves_nothing_witness:
  "os_files (snd (os_DoControlRequest \<lparr> cl_socket_ok = True, cl_bind_ok = True, cl_send_ok = True, cl_recv = None \<rparr>
      4711 (EnableUnixDomainControl ''/tmp/sd.sock'' sample_api) (find_packet 7 1 None)
      \<lparr> os_fds = {0, 1, 2}, os_next = 3, os_files = {local_path 4711 7, ''/tmp/sd.sock''} \<rparr>))
    = {''/tmp/sd.sock''}"
proof -
  let ?sys = "\<lparr> cl_socket_ok = True, cl_bind_ok = True, cl_send_ok = True, cl_recv = None \<rparr>"
    and ?api = "EnableUnixDomainControl ''/tmp/sd.sock'' sample_api"
    and ?os = "\<lparr> os_fds = {0, 1, 2}, os_next = 3, os_files = {local_path 4711 7, ''/tmp/sd.sock''} \<rparr>"
  have "os_ok ?os" and "(4711 :: nat) < 2 ^ 31" by (simp_all add: os_ok_def)
  from client_leaves_nothing [OF this, where sys = ?sys and api = ?api and req = "find_packet 7 1 None"
      and lib = dotted and net = silent_net and w = "()"]
  have "os_files (snd (os_DoControlRequest ?sys 4711 ?api (find_packet 7 1 None) ?os))
      = os_files ?os - (if api_control_transport ?api = kUnixDomainSocket
          \<and> fst (os_DoControlRequest ?sys 4711 ?api (find_packet 7 1 None) ?os)
            \<notin> {Inl UnixPathEmpty, Inl UnixSocketCreateFailed} then {local_path 4711 (pkt_request_id (find_packet 7 1 None))} else {})"
    unfolding Let_def by blast
  moreover have "api_control_transport ?api = kUnixDomainSocket" "pkt_request_id (find_packet 7 1 None) = 7"
    by (simp_all add: EnableUnixDomainControl_def find_packet_def)
  moreover have "fst (os_DoControlRequest ?sys 4711 ?api (find_packet 7 1 None) ?os)
      \<notin> {Inl UnixPathEmpty, Inl UnixSocketCreateFailed}"
    by (simp add: os_DoControlRequest_def EnableUnixDomainControl_def client_os_defs received_def)
  moreover have "''/tmp/sd.sock'' \<noteq> local_path 4711 7" by (simp add: local_path_def)
  ultimately show ?thesis by auto
qed

end
