(* ===== verification/Sd_Unix_Control.thy ===== *)
theory Sd_Unix_Control
  imports Sd_Client_Sockets
begin

text \<open>
  Control requests over the Unix domain that are made at the same time: threads, or processes, each in
  \<open>DoControlRequest\<close> between its system calls, and the daemon between its datagrams. A datagram
  socket of the Unix domain is addressed by the file bound to it, and the daemon replies to the file
  name it received the request from; whoever has bound that name by then gets the reply. The steps
  of the clients and of the daemon interleave freely.
\<close>

section \<open>Steps\<close>

text \<open>Where a client is in \<open>DoControlRequest\<close>, with its outcome once it is known; in \<open>AtCleanup\<close> the socket
  is closed and its file not yet unlinked.\<close>

datatype control_pc = AtUnlink | AtBind | AtSend | AtReceive | AtCleanup unix_io | Over unix_io

text \<open>A socket file names the client whose socket it is bound to. Each client has the datagrams that
  wait in its socket, and the daemon those that wait in its own, with the names of their senders.\<close>

record unix_world =
  ux_files :: "string \<rightharpoonup> nat"
  ux_queue :: "nat \<Rightarrow> bytes list"
  ux_pc :: "nat \<Rightarrow> control_pc"
  ux_inbox :: "(string \<times> bytes) list"
  ux_reg :: registry

definition goto :: "nat \<Rightarrow> control_pc \<Rightarrow> unix_world \<Rightarrow> unix_world" where
  "goto c pc s = s\<lparr> ux_pc := (ux_pc s)(c := pc) \<rparr>"

definition unlink_file :: "string \<Rightarrow> unix_world \<Rightarrow> unix_world" where
  "unlink_file p s = s\<lparr> ux_files := (ux_files s)(p := None) \<rparr>"

text \<open>A datagram to a file reaches the socket bound to it, while that is open.\<close>

definition deliver :: "string \<Rightarrow> bytes option \<Rightarrow> unix_world \<Rightarrow> unix_world" where
  "deliver p reply s =
     (case (reply, ux_files s p) of
        (Some r, Some c) \<Rightarrow>
          (if ux_pc s c \<in> {AtSend, AtReceive} then s\<lparr> ux_queue := (ux_queue s)(c := ux_queue s c @ [r]) \<rparr> else s)
      | _ \<Rightarrow> s)"

text \<open>Client \<open>c\<close> makes the request \<open>req c\<close> from a socket bound to \<open>path c\<close>. A send fails when nobody
  listens at the daemon's path; a receive that finds nothing ends with its timeout.\<close>

inductive unix_step ::
    "inet_lib \<Rightarrow> (nat \<Rightarrow> string) \<Rightarrow> (nat \<Rightarrow> bytes) \<Rightarrow> unix_world \<Rightarrow> unix_world \<Rightarrow> bool"
  for lib path req where
  unlink: "ux_pc s c = AtUnlink \<Longrightarrow>
      unix_step lib path req s (goto c AtBind (unlink_file (path c) s))"
| bind: "ux_pc s c = AtBind \<Longrightarrow> ux_files s (path c) = None \<Longrightarrow>
      unix_step lib path req s (goto c AtSend (s\<lparr> ux_files := (ux_files s)(path c \<mapsto> c) \<rparr>))"
| bind_taken: "ux_pc s c = AtBind \<Longrightarrow> ux_files s (path c) \<noteq> None \<Longrightarrow>
      unix_step lib path req s (goto c (Over BindFails) s)"
| send: "ux_pc s c = AtSend \<Longrightarrow>
      unix_step lib path req s (goto c AtReceive (s\<lparr> ux_inbox := ux_inbox s @ [(path c, req c)] \<rparr>))"
| send_fails: "ux_pc s c = AtSend \<Longrightarrow>
      unix_step lib path req s (goto c (AtCleanup (UnixIo SendFails)) s)"
| serve: "ux_inbox s = (p, d) # inbox \<Longrightarrow>
      process_fd lib order now d (ux_reg s) = (reply, reg) \<Longrightarrow>
      unix_step lib path req s (deliver p reply (s\<lparr> ux_inbox := inbox, ux_reg := reg \<rparr>))"
| receive: "ux_pc s c = AtReceive \<Longrightarrow> ux_queue s c = r # rs \<Longrightarrow>
      unix_step lib path req s (goto c (AtCleanup (UnixIo (Reply r))) (s\<lparr> ux_queue := (ux_queue s)(c := rs) \<rparr>))"
| timeout: "ux_pc s c = AtReceive \<Longrightarrow> ux_queue s c = [] \<Longrightarrow>
      unix_step lib path req s (goto c (AtCleanup (UnixIo NothingReceived)) s)"
| cleanup: "ux_pc s c = AtCleanup io \<Longrightarrow>
      unix_step lib path req s (goto c (Over io) (unlink_file (path c) s))"

text \<open>The beginning: socket files may be left from earlier, but none is of these requests.\<close>

definition unix_start :: "registry \<Rightarrow> unix_world" where
  "unix_start reg =
     \<lparr> ux_files = Map.empty, ux_queue = (\<lambda>_. []), ux_pc = (\<lambda>_. AtUnlink), ux_inbox = [], ux_reg = reg \<rparr>"

abbreviation unix_reaches ::
    "inet_lib \<Rightarrow> (nat \<Rightarrow> string) \<Rightarrow> (nat \<Rightarrow> bytes) \<Rightarrow> unix_world \<Rightarrow> unix_world \<Rightarrow> bool" where
  "unix_reaches lib path req \<equiv> (unix_step lib path req)\<^sup>*\<^sup>*"

lemmas world_update_defs = goto_def unlink_file_def deliver_def

section \<open>Distinct names\<close>

definition answers :: "inet_lib \<Rightarrow> bytes \<Rightarrow> bytes \<Rightarrow> bool" where
  "answers lib d r \<longleftrightarrow> (\<exists>order now reg. fst (process_fd lib order now d reg) = Some r)"

definition has_file :: "control_pc \<Rightarrow> bool" where
  "has_file pc \<longleftrightarrow> (case pc of AtSend \<Rightarrow> True | AtReceive \<Rightarrow> True | AtCleanup io \<Rightarrow> True | _ \<Rightarrow> False)"

lemma has_file_simps [simp]:
  "has_file AtSend" "has_file AtReceive" "has_file (AtCleanup io)" "\<not> has_file AtUnlink" "\<not> has_file AtBind"
  "\<not> has_file (Over io)"
  by (simp_all add: has_file_def)

definition unix_inv ::
    "inet_lib \<Rightarrow> (nat \<Rightarrow> string) \<Rightarrow> (nat \<Rightarrow> bytes) \<Rightarrow> unix_world \<Rightarrow> bool" where
  "unix_inv lib path req s \<longleftrightarrow>
     (\<forall>p c. ux_files s p = Some c \<longrightarrow> p = path c \<and> has_file (ux_pc s c))
     \<and> (\<forall>p d. (p, d) \<in> set (ux_inbox s) \<longrightarrow> (\<exists>c. p = path c \<and> d = req c))
     \<and> (\<forall>c r. r \<in> set (ux_queue s c) \<longrightarrow> answers lib (req c) r)
     \<and> (\<forall>c. has_file (ux_pc s c) \<longrightarrow> ux_files s (path c) = Some c)
     \<and> (\<forall>c. ux_pc s c \<notin> {AtCleanup BindFails, Over BindFails})
     \<and> (\<forall>c r. ux_pc s c \<in> {AtCleanup (UnixIo (Reply r)), Over (UnixIo (Reply r))} \<longrightarrow> answers lib (req c) r)"

lemma unix_inv_start: "unix_inv lib path req (unix_start reg)"
  by (simp add: unix_inv_def unix_start_def)

lemma unix_inv_deliver:
  assumes "inj path" and "unix_inv lib path req s" and "ux_inbox s = (p, d) # inbox"
    and "process_fd lib order now d (ux_reg s) = (reply, reg)"
  shows "unix_inv lib path req (deliver p reply (s\<lparr> ux_inbox := inbox, ux_reg := reg \<rparr>))"
proof (cases "\<exists>r c. reply = Some r \<and> ux_files s p = Some c")
  case True
  then obtain r c where r: "reply = Some r" "ux_files s p = Some c" by blast
  then have p: "p = path c" using assms(2) by (auto simp: unix_inv_def)
  have "(p, d) \<in> set (ux_inbox s)" by (simp add: assms(3))
  then obtain c' where "p = path c'" "d = req c'"
    using assms(2) unfolding unix_inv_def by blast
  with p assms(1) have "d = req c" by (auto dest: injD)
  then have "answers lib (req c) r"
    using assms(4) r(1) unfolding answers_def by (metis fst_conv)
  with assms(2,3) r show ?thesis
    by (simp add: unix_inv_def deliver_def)
next
  case False
  then have "deliver p reply (s\<lparr> ux_inbox := inbox, ux_reg := reg \<rparr>) = s\<lparr> ux_inbox := inbox, ux_reg := reg \<rparr>"
    by (auto simp: deliver_def split: option.split)
  with assms(2,3) show ?thesis by (simp add: unix_inv_def)
qed

lemma unix_inv_step:
  assumes "inj path" and "unix_inv lib path req s" and "unix_step lib path req s s'"
  shows "unix_inv lib path req s'"
  using assms(3)
proof cases
  case (unlink c)
  then show ?thesis using assms(1,2) by (auto simp: unix_inv_def world_update_defs dest: injD split: if_splits)
next
  case (bind c)
  then show ?thesis using assms(1,2) by (auto simp: unix_inv_def world_update_defs dest: injD split: if_splits)
next
  case (bind_taken c)
  then show ?thesis using assms(1,2) by (fastforce simp: unix_inv_def dest: injD)
next
  case (send c)
  then show ?thesis using assms(1,2) by (auto simp: unix_inv_def world_update_defs dest: injD split: if_splits)
next
  case (send_fails c)
  then show ?thesis using assms(1,2) by (auto simp: unix_inv_def world_update_defs dest: injD split: if_splits)
next
  case (serve p d inbox order now reply reg)
  then show ?thesis using unix_inv_deliver [OF assms(1,2)] by simp
next
  case (receive c r rs)
  then show ?thesis using assms(1,2) by (auto simp: unix_inv_def world_update_defs dest: injD split: if_splits)
next
  case (timeout c)
  then show ?thesis using assms(1,2) by (auto simp: unix_inv_def world_update_defs dest: injD split: if_splits)
next
  case (cleanup c io)
  then show ?thesis using assms(1,2) by (auto simp: unix_inv_def world_update_defs dest: injD split: if_splits)
qed

lemma unix_inv_reached:
  assumes "unix_reaches lib path req (unix_start reg) s" and "inj path"
  shows "unix_inv lib path req s"
  using assms(1)
proof (induction rule: rtranclp_induct)
  case base
  show ?case by (rule unix_inv_start)
next
  case (step s s')
  then show ?case using unix_inv_step [OF assms(2)] by blast
qed

section \<open>What an answer to a request is\<close>

lemma answers_register:
  assumes "inet_conv lib" and "answers lib (EncodePacket (offer_request lib rid d ttl stop)) r"
  shows "r = EncodePacket (offer_response lib rid d (if stop then 0 else ttl))"
  using assms(2) inet_conv.process_register [OF assms(1)] inet_conv.process_unregister [OF assms(1)]
  by (cases stop) (auto simp: answers_def)

text \<open>The network as one request sees it that ends in a given way.\<close>

definition given_net :: "unix_io \<Rightarrow> unit network" where
  "given_net io = \<lparr> net_udp = (\<lambda>host port d w. (NothingReceived, w)), net_unix = (\<lambda>path d w. (io, w)) \<rparr>"

definition unix_api :: "string \<Rightarrow> SomeIpSdApi" where
  "unix_api server = EnableUnixDomainControl server (new_SomeIpSdApi ''127.0.0.1'' 30490 1000)"

lemma unix_api_id [simp]: "api_next_request_id (unix_api server) = 1"
  by (simp add: unix_api_def EnableUnixDomainControl_def new_SomeIpSdApi_def)

lemma register_given:
  assumes "inet_conv lib" and "server \<noteq> ''''"
  shows "fst (RegisterService lib (given_net (UnixIo (Reply (EncodePacket (offer_response lib 1 d t)))))
      d' ttl (unix_api server) ()) = Inr ()"
proof -
  let ?r = "offer_response lib 1 d t"
  have "DecodePacket (take 4096 (EncodePacket ?r)) = Inr (on_wire ?r)"
    by (rule decode_small) (simp add: offer_response_def)
  moreover have "pkt_request_id (on_wire ?r) = 1" "pkt_message_type (on_wire ?r) = kResponse"
    by (simp_all add: offer_response_def on_wire_def wire_id_eq_iff)
  ultimately show ?thesis
    using assms(2) inet_conv.parse_offer_response [OF assms(1), of 1 d t]
    by (simp add: RegisterService_def AllocateRequestId_def DoControlRequest_def given_net_def decode_reply_def
        unix_api_def EnableUnixDomainControl_def new_SomeIpSdApi_def Let_def)
qed

text \<open>A request that nobody interrupts.\<close>

lemma lone_request:
  assumes "inet_conv lib" and "req c = EncodePacket (offer_request lib rid d ttl False)"
  shows "\<exists>s. unix_reaches lib path req (unix_start reg) s
    \<and> ux_pc s c = Over (UnixIo (Reply (EncodePacket (offer_response lib rid d ttl))))"
proof -
  let ?r = "EncodePacket (offer_response lib rid d ttl)" and ?p = "path c"
  define s0 where "s0 = unix_start reg"
  define s1 where "s1 = goto c AtBind (unlink_file ?p s0)"
  define s2 where "s2 = goto c AtSend (s1\<lparr> ux_files := (ux_files s1)(?p \<mapsto> c) \<rparr>)"
  define s3 where "s3 = goto c AtReceive (s2\<lparr> ux_inbox := ux_inbox s2 @ [(?p, req c)] \<rparr>)"
  define s4 where "s4 = deliver ?p (Some ?r) (s3\<lparr> ux_inbox := [], ux_reg := register_effect lib 0 d ttl reg \<rparr>)"
  define s5 where "s5 = goto c (AtCleanup (UnixIo (Reply ?r))) (s4\<lparr> ux_queue := (ux_queue s4)(c := []) \<rparr>)"
  define s6 where "s6 = goto c (Over (UnixIo (Reply ?r))) (unlink_file ?p s5)"
  note states = s0_def s1_def s2_def s3_def s4_def s5_def s6_def world_update_defs unix_start_def
  have "unix_reaches lib path req s0 s1" unfolding s1_def
    by (rule r_into_rtranclp, rule unix_step.unlink) (simp add: states)
  also have "unix_reaches lib path req s1 s2" unfolding s2_def
    by (rule r_into_rtranclp, rule unix_step.bind) (simp_all add: states)
  also have "unix_reaches lib path req s2 s3" unfolding s3_def
    by (rule r_into_rtranclp, rule unix_step.send) (simp add: states)
  also have "unix_reaches lib path req s3 s4" unfolding s4_def
    by (rule r_into_rtranclp, rule unix_step.serve [where d = "req c" and order = "[]" and now = 0])
      (use inet_conv.process_register [OF assms(1)] assms(2) in \<open>simp_all add: states\<close>)
  also have "unix_reaches lib path req s4 s5" unfolding s5_def
    by (rule r_into_rtranclp, rule unix_step.receive) (simp_all add: states)
  also have "unix_reaches lib path req s5 s6" unfolding s6_def
    by (rule r_into_rtranclp, rule unix_step.cleanup) (simp add: states)
  finally have "unix_reaches lib path req (unix_start reg) s6" unfolding s0_def .
  moreover have "ux_pc s6 c = Over (UnixIo (Reply ?r))" by (simp add: states)
  ultimately show ?thesis by blast
qed

section \<open>Properties\<close>

text \<open>C23. Requests of different processes, or with different request ids, do not disturb each other
  however they interleave: each can bind its socket, an answer it receives is the daemon's answer to
  this very request, and when it is over its socket file is gone.\<close>

theorem distinct_requests_own_answers:
  assumes "inet_conv lib" and "inj (\<lambda>c. (pid c, rid c))"
    and "unix_reaches lib (\<lambda>c. local_path (pid c) (rid c))
           (\<lambda>c. EncodePacket (offer_request lib (rid c) (d c) (ttl c) (stop c))) (unix_start reg) s"
    and "ux_pc s c = Over io"
  shows "io \<noteq> BindFails
    \<and> (\<forall>r. io = UnixIo (Reply r) \<longrightarrow>
         r = EncodePacket (offer_response lib (rid c) (d c) (if stop c then 0 else ttl c)))
    \<and> ux_files s (local_path (pid c) (rid c)) = None"
proof -
  let ?path = "\<lambda>c. local_path (pid c) (rid c)"
  have "inj ?path" using assms(2) by (auto simp: inj_def)
  from unix_inv_reached [OF assms(3) this] have inv: "unix_inv lib ?path
      (\<lambda>c. EncodePacket (offer_request lib (rid c) (d c) (ttl c) (stop c))) s" .
  have "ux_files s (?path c) = None"
  proof (rule ccontr)
    assume "ux_files s (?path c) \<noteq> None"
    then obtain c' where "ux_files s (?path c) = Some c'" by blast
    with inv have "?path c = ?path c'" "has_file (ux_pc s c')" unfolding unix_inv_def by blast+
    with assms(2) have "c = c'" by (auto dest: injD)
    with \<open>has_file (ux_pc s c')\<close> assms(4) show False by auto
  qed
  with inv assms(4) answers_register [OF assms(1)] show ?thesis unfolding unix_inv_def by blast
qed

theorem distinct_requests_own_answers_witness:
  "\<exists>s. unix_reaches dotted (\<lambda>c. local_path c 1)
         (\<lambda>c. EncodePacket (offer_request dotted 1 sample_service 3 False)) (unix_start Map.empty) s
     \<and> ux_pc s 7 = Over (UnixIo (Reply (EncodePacket (offer_response dotted 1 sample_service 3))))
     \<and> ux_files s (local_path 7 1) = None"
proof -
  obtain s where run: "unix_reaches dotted (\<lambda>c. local_path c 1)
      (\<lambda>c. EncodePacket (offer_request dotted 1 sample_service 3 False)) (unix_start Map.empty) s"
    and over: "ux_pc s 7 = Over (UnixIo (Reply (EncodePacket (offer_response dotted 1 sample_service 3))))"
    using lone_request [OF dotted.inet_conv_axioms, where c = 7 and rid = 1 and d = sample_service and ttl = 3
        and req = "\<lambda>c. EncodePacket (offer_request dotted 1 sample_service 3 False)"
        and path = "\<lambda>c. local_path c 1" and reg = Map.empty] by blast
  have "inj (\<lambda>c :: nat. (c, 1 :: u32))" by (simp add: inj_def)
  from distinct_requests_own_answers [OF dotted.inet_conv_axioms this, where d = "\<lambda>_. sample_service"
      and ttl = "\<lambda>_. 3" and stop = "\<lambda>_. False" and reg = Map.empty, OF run over] run over
  show ?thesis by blast
qed

text \<open>C24. Two clients of one process number their requests alike, so their sockets have the same name.
  When both register over the Unix domain at once, the second may take the socket file from under the
  first: the first times out although its service has been registered, and the second reports success
  on the answer to the first, before its own request has been looked at.\<close>

theorem same_name_crosses_answers:
  assumes "inet_conv lib" and "server \<noteq> ''''"
  shows "\<exists>s io0 io1. unix_reaches lib (\<lambda>c. local_path pid (api_next_request_id (unix_api server)))
          (\<lambda>c. EncodePacket (offer_request lib (api_next_request_id (unix_api server)) (d c)
             (word_of_int (ttl c)) False)) (unix_start reg) s
      \<and> ux_pc s 0 = Over io0 \<and> ux_pc s (1 :: nat) = Over io1
      \<and> fst (RegisterService lib (given_net io0) (d 0) (ttl 0) (unix_api server) ()) = Inl UnixControlTimeout
      \<and> fst (RegisterService lib (given_net io1) (d 1) (ttl 1) (unix_api server) ()) = Inr ()
      \<and> ux_reg s = register_effect lib now (d 0) (word_of_int (ttl 0)) reg"
proof -
  let ?p = "local_path pid 1" and ?q = "\<lambda>c. EncodePacket (offer_request lib 1 (d c) (word_of_int (ttl c)) False)"
  let ?r = "EncodePacket (offer_response lib 1 (d 0) (word_of_int (ttl 0)))" and ?path = "\<lambda>c :: nat. local_path pid 1"
  define s0 where "s0 = unix_start reg"
  define s1 where "s1 = goto 0 AtBind (unlink_file ?p s0)"
  define s2 where "s2 = goto 0 AtSend (s1\<lparr> ux_files := (ux_files s1)(?p \<mapsto> 0) \<rparr>)"
  define s3 where "s3 = goto 0 AtReceive (s2\<lparr> ux_inbox := ux_inbox s2 @ [(?p, ?q 0)] \<rparr>)"
  define s4 where "s4 = goto 1 AtBind (unlink_file ?p s3)"
  define s5 where "s5 = goto 1 AtSend (s4\<lparr> ux_files := (ux_files s4)(?p \<mapsto> 1) \<rparr>)"
  define s6 where "s6 = deliver ?p (Some ?r) (s5\<lparr> ux_inbox := [], ux_reg := register_effect lib now (d 0) (word_of_int (ttl 0)) reg \<rparr>)"
  define s7 where "s7 = goto 0 (AtCleanup (UnixIo NothingReceived)) s6"
  define s8 where "s8 = goto 0 (Over (UnixIo NothingReceived)) (unlink_file ?p s7)"
  define s9 where "s9 = goto 1 AtReceive (s8\<lparr> ux_inbox := ux_inbox s8 @ [(?p, ?q 1)] \<rparr>)"
  define s10 where "s10 = goto 1 (AtCleanup (UnixIo (Reply ?r))) (s9\<lparr> ux_queue := (ux_queue s9)(1 := []) \<rparr>)"
  define s11 where "s11 = goto 1 (Over (UnixIo (Reply ?r))) (unlink_file ?p s10)"
  note states = s0_def s1_def s2_def s3_def s4_def s5_def s6_def s7_def s8_def s9_def s10_def s11_def
    world_update_defs unix_start_def
  note served = inet_conv.process_register [OF assms(1), of "[]" now 1 "d 0" "word_of_int (ttl 0)" reg]
  have "unix_reaches lib ?path ?q s0 s1" unfolding s1_def by (rule r_into_rtranclp, rule unix_step.unlink) (simp add: states)
  also have "unix_reaches lib ?path ?q s1 s2" unfolding s2_def by (rule r_into_rtranclp, rule unix_step.bind) (simp_all add: states)
  also have "unix_reaches lib ?path ?q s2 s3" unfolding s3_def by (rule r_into_rtranclp, rule unix_step.send) (simp add: states)
  also have "unix_reaches lib ?path ?q s3 s4" unfolding s4_def by (rule r_into_rtranclp, rule unix_step.unlink) (simp add: states)
  also have "unix_reaches lib ?path ?q s4 s5" unfolding s5_def by (rule r_into_rtranclp, rule unix_step.bind) (simp_all add: states)
  also have "unix_reaches lib ?path ?q s5 s6" unfolding s6_def
    by (rule r_into_rtranclp, rule unix_step.serve [where d = "?q 0" and order = "[]" and now = now])
      (use served in \<open>simp_all add: states\<close>)
  also have "unix_reaches lib ?path ?q s6 s7" unfolding s7_def by (rule r_into_rtranclp, rule unix_step.timeout) (simp_all add: states)
  also have "unix_reaches lib ?path ?q s7 s8" unfolding s8_def by (rule r_into_rtranclp, rule unix_step.cleanup) (simp add: states)
  also have "unix_reaches lib ?path ?q s8 s9" unfolding s9_def by (rule r_into_rtranclp, rule unix_step.send) (simp add: states)
  also have "unix_reaches lib ?path ?q s9 s10" unfolding s10_def by (rule r_into_rtranclp, rule unix_step.receive) (simp_all add: states)
  also have "unix_reaches lib ?path ?q s10 s11" unfolding s11_def by (rule r_into_rtranclp, rule unix_step.cleanup) (simp add: states)
  finally have run: "unix_reaches lib ?path ?q s0 s11" .
  have over: "ux_pc s11 0 = Over (UnixIo NothingReceived)" "ux_pc s11 1 = Over (UnixIo (Reply ?r))"
    "ux_reg s11 = register_effect lib now (d 0) (word_of_int (ttl 0)) reg" by (simp_all add: states)
  have "fst (RegisterService lib (given_net (UnixIo (Reply ?r))) (d 1) (ttl 1) (unix_api server) ()) = Inr ()"
    by (rule register_given [OF assms])
  moreover have "fst (RegisterService lib (given_net (UnixIo NothingReceived)) (d 0) (ttl 0) (unix_api server) ())
      = Inl UnixControlTimeout"
    using assms(2) by (simp add: RegisterService_def AllocateRequestId_def DoControlRequest_def given_net_def
        unix_api_def EnableUnixDomainControl_def Let_def)
  ultimately show ?thesis using run over unfolding unix_api_id s0_def by blast
qed

theorem same_name_crosses_answers_witness:
  "\<exists>(s :: unix_world) io0. ux_pc s (0 :: nat) = Over io0 \<and> ux_reg s = register_effect dotted 20 sample_service 3 Map.empty
     \<and> fst (RegisterService dotted (given_net io0) sample_service 3 (unix_api ''/tmp/sd.sock'') ())
         = Inl UnixControlTimeout"
proof -
  have "''/tmp/sd.sock'' \<noteq> ''''" by simp
  from same_name_crosses_answers [OF dotted.inet_conv_axioms this, where pid = 4711 and d = "\<lambda>_. sample_service"
      and ttl = "\<lambda>_. 3" and reg = Map.empty and now = 20]
  show ?thesis by auto
qed

end
