(* ===== verification/App_Runtime.thy ===== *)
theory App_Runtime
  imports Prelude
begin

text \<open>
  The application framework (\<open>application_runtime.hpp\<close>): \<open>ApplicationRuntime\<close> forwards each operation
  to an \<open>IApplicationBackend\<close>, or fails without one. A backend is a record of its operations over the
  state \<open>'w\<close> of the world; a handler is a value (a closure of the client) that the backend keeps and
  runs. What a backend promises, registration tables that later calls consult, is the locale
  \<open>app_backend\<close>, and the repository's \<open>MockBackend\<close> is shown to provide it.
\<close>

section \<open>Keys\<close>

record ServiceKey =
  sk_service_id :: u16
  sk_instance_id :: u16

record MethodKey =
  mk_service_id :: u16
  mk_instance_id :: u16
  mk_method_id :: u16

record EventKey =
  ek_service_id :: u16
  ek_instance_id :: u16
  ek_event_id :: u16

section \<open>Backends and the runtime\<close>

record ('mh, 'eh, 'w) IApplicationBackend =
  b_OfferService :: "ServiceKey \<Rightarrow> 'w \<Rightarrow> bool \<times> 'w"
  b_StopOfferService :: "ServiceKey \<Rightarrow> 'w \<Rightarrow> bool \<times> 'w"
  b_DiscoverService :: "ServiceKey \<Rightarrow> 'w \<Rightarrow> bool \<times> 'w"
  b_RegisterMethodHandler :: "MethodKey \<Rightarrow> 'mh \<Rightarrow> 'w \<Rightarrow> bool \<times> 'w"
  b_UnregisterMethodHandler :: "MethodKey \<Rightarrow> 'w \<Rightarrow> bool \<times> 'w"
  b_InvokeMethod :: "MethodKey \<Rightarrow> bytes \<Rightarrow> bytes \<Rightarrow> 'w \<Rightarrow> bool \<times> bytes \<times> 'w"
  b_PublishEvent :: "EventKey \<Rightarrow> bytes \<Rightarrow> 'w \<Rightarrow> bool \<times> 'w"
  b_SubscribeEvent :: "EventKey \<Rightarrow> 'eh \<Rightarrow> 'w \<Rightarrow> bool \<times> 'w"
  b_UnsubscribeEvent :: "EventKey \<Rightarrow> 'w \<Rightarrow> bool \<times> 'w"

text \<open>\<open>backend_\<close> is a \<open>shared_ptr\<close>, so it may be null. The response of \<open>InvokeMethod\<close> is an out
  parameter: its old contents go in.\<close>

record ('mh, 'eh, 'w) ApplicationRuntime =
  rt_backend :: "('mh, 'eh, 'w) IApplicationBackend option"

definition OfferService :: "('mh, 'eh, 'w) ApplicationRuntime \<Rightarrow> ServiceKey \<Rightarrow> 'w \<Rightarrow> bool \<times> 'w" where
  "OfferService rt key w = (case rt_backend rt of None \<Rightarrow> (False, w) | Some b \<Rightarrow> b_OfferService b key w)"

definition StopOfferService :: "('mh, 'eh, 'w) ApplicationRuntime \<Rightarrow> ServiceKey \<Rightarrow> 'w \<Rightarrow> bool \<times> 'w" where
  "StopOfferService rt key w =
     (case rt_backend rt of None \<Rightarrow> (False, w) | Some b \<Rightarrow> b_StopOfferService b key w)"

definition DiscoverService :: "('mh, 'eh, 'w) ApplicationRuntime \<Rightarrow> ServiceKey \<Rightarrow> 'w \<Rightarrow> bool \<times> 'w" where
  "DiscoverService rt key w =
     (case rt_backend rt of None \<Rightarrow> (False, w) | Some b \<Rightarrow> b_DiscoverService b key w)"

definition RegisterMethodHandler ::
    "('mh, 'eh, 'w) ApplicationRuntime \<Rightarrow> MethodKey \<Rightarrow> 'mh \<Rightarrow> 'w \<Rightarrow> bool \<times> 'w" where
  "RegisterMethodHandler rt key handler w =
     (case rt_backend rt of None \<Rightarrow> (False, w) | Some b \<Rightarrow> b_RegisterMethodHandler b key handler w)"

definition UnregisterMethodHandler ::
    "('mh, 'eh, 'w) ApplicationRuntime \<Rightarrow> MethodKey \<Rightarrow> 'w \<Rightarrow> bool \<times> 'w" where
  "UnregisterMethodHandler rt key w =
     (case rt_backend rt of None \<Rightarrow> (False, w) | Some b \<Rightarrow> b_UnregisterMethodHandler b key w)"

definition InvokeMethod ::
    "('mh, 'eh, 'w) ApplicationRuntime \<Rightarrow> MethodKey \<Rightarrow> bytes \<Rightarrow> bytes \<Rightarrow> 'w \<Rightarrow> bool \<times> bytes \<times> 'w" where
  "InvokeMethod rt key request response w =
     (case rt_backend rt of None \<Rightarrow> (False, response, w)
      | Some b \<Rightarrow> b_InvokeMethod b key request response w)"

definition PublishEvent ::
    "('mh, 'eh, 'w) ApplicationRuntime \<Rightarrow> EventKey \<Rightarrow> bytes \<Rightarrow> 'w \<Rightarrow> bool \<times> 'w" where
  "PublishEvent rt key pl w =
     (case rt_backend rt of None \<Rightarrow> (False, w) | Some b \<Rightarrow> b_PublishEvent b key pl w)"

definition SubscribeEvent ::
    "('mh, 'eh, 'w) ApplicationRuntime \<Rightarrow> EventKey \<Rightarrow> 'eh \<Rightarrow> 'w \<Rightarrow> bool \<times> 'w" where
  "SubscribeEvent rt key handler w =
     (case rt_backend rt of None \<Rightarrow> (False, w) | Some b \<Rightarrow> b_SubscribeEvent b key handler w)"

definition UnsubscribeEvent :: "('mh, 'eh, 'w) ApplicationRuntime \<Rightarrow> EventKey \<Rightarrow> 'w \<Rightarrow> bool \<times> 'w" where
  "UnsubscribeEvent rt key w =
     (case rt_backend rt of None \<Rightarrow> (False, w) | Some b \<Rightarrow> b_UnsubscribeEvent b key w)"

section \<open>What a backend promises\<close>

text \<open>The tables a client sees through a backend, and the state \<open>'u\<close> its handlers work on.\<close>

record ('mh, 'eh, 'u) app_view =
  av_offered :: "ServiceKey \<Rightarrow> bool"
  av_methods :: "MethodKey \<Rightarrow> 'mh option"
  av_events :: "EventKey \<Rightarrow> 'eh option"
  av_user :: 'u

locale app_backend =
  fixes be :: "('mh, 'eh, 'w) IApplicationBackend"
    and view :: "'w \<Rightarrow> ('mh, 'eh, 'u) app_view"
    and run_method :: "'mh \<Rightarrow> bytes \<Rightarrow> bytes \<Rightarrow> 'u \<Rightarrow> bool \<times> bytes \<times> 'u"
    and run_event :: "'eh \<Rightarrow> bytes \<Rightarrow> 'u \<Rightarrow> 'u"
  assumes offer: "apsnd view (b_OfferService be sk w)
      = (True, (view w)\<lparr> av_offered := (av_offered (view w))(sk := True) \<rparr>)"
    and stop_offer: "apsnd view (b_StopOfferService be sk w)
      = (True, (view w)\<lparr> av_offered := (av_offered (view w))(sk := False) \<rparr>)"
    and discover: "apsnd view (b_DiscoverService be sk w) = (av_offered (view w) sk, view w)"
    and register: "apsnd view (b_RegisterMethodHandler be mk mh w)
      = (True, (view w)\<lparr> av_methods := (av_methods (view w))(mk := Some mh) \<rparr>)"
    and unregister: "apsnd view (b_UnregisterMethodHandler be mk w)
      = (True, (view w)\<lparr> av_methods := (av_methods (view w))(mk := None) \<rparr>)"
    and invoke: "apsnd (apsnd view) (b_InvokeMethod be mk req resp w)
      = (case av_methods (view w) mk of
           None \<Rightarrow> (False, resp, view w)
         | Some mh \<Rightarrow> apsnd (apsnd (\<lambda>u. (view w)\<lparr> av_user := u \<rparr>)) (run_method mh req resp (av_user (view w))))"
    and publish: "apsnd view (b_PublishEvent be ek pl w)
      = (case av_events (view w) ek of
           None \<Rightarrow> (False, view w)
         | Some eh \<Rightarrow> (True, (view w)\<lparr> av_user := run_event eh pl (av_user (view w)) \<rparr>))"
    and subscribe: "apsnd view (b_SubscribeEvent be ek eh w)
      = (True, (view w)\<lparr> av_events := (av_events (view w))(ek := Some eh) \<rparr>)"
    and unsubscribe: "apsnd view (b_UnsubscribeEvent be ek w)
      = (True, (view w)\<lparr> av_events := (av_events (view w))(ek := None) \<rparr>)"
begin

abbreviation rt :: "('mh, 'eh, 'w) ApplicationRuntime" where
  "rt \<equiv> \<lparr> rt_backend = Some be \<rparr>"

lemma apsnd_eqE: "apsnd f p = (a, b) \<Longrightarrow> (\<And>w'. p = (a, w') \<Longrightarrow> f w' = b \<Longrightarrow> thesis) \<Longrightarrow> thesis"
  by (cases p) auto

lemma run_registered:
  assumes "av_methods (view w) mk = Some mh" and "run_method mh req resp (av_user (view w)) = (ok, out, u)"
  obtains w' where "InvokeMethod rt mk req resp w = (ok, out, w')" and "view w' = (view w)\<lparr> av_user := u \<rparr>"
proof -
  obtain a b c where p: "b_InvokeMethod be mk req resp w = (a, b, c)" by (metis prod_cases3)
  with invoke [of mk req resp w] assms have "a = ok" "b = out" "view c = (view w)\<lparr> av_user := u \<rparr>" by simp_all
  with p that [of c] show thesis by (simp add: InvokeMethod_def)
qed

lemma invoke_unregistered:
  assumes "av_methods (view w) mk = None"
  obtains w' where "InvokeMethod rt mk req resp w = (False, resp, w')" and "view w' = view w"
proof -
  obtain a b c where p: "b_InvokeMethod be mk req resp w = (a, b, c)" by (metis prod_cases3)
  with invoke [of mk req resp w] assms have "a = False" "b = resp" "view c = view w" by simp_all
  with p that [of c] show thesis by (simp add: InvokeMethod_def)
qed

end

section \<open>The backend of the tests\<close>

text \<open>\<open>MockBackend\<close> keeps ordered maps from packed keys.\<close>

definition PackService :: "ServiceKey \<Rightarrow> u64" where
  "PackService key = push_bit 16 (ucast (sk_service_id key)) OR ucast (sk_instance_id key)"

definition PackMethod :: "MethodKey \<Rightarrow> u64" where
  "PackMethod key = push_bit 32 (ucast (mk_service_id key)) OR push_bit 16 (ucast (mk_instance_id key))
     OR ucast (mk_method_id key)"

definition PackEvent :: "EventKey \<Rightarrow> u64" where
  "PackEvent key = push_bit 32 (ucast (ek_service_id key)) OR push_bit 16 (ucast (ek_instance_id key))
     OR ucast (ek_event_id key)"

lemma PackService_parts:
  "(ucast (drop_bit 16 (PackService k)) :: u16) = sk_service_id k" "(ucast (PackService k) :: u16) = sk_instance_id k"
  by (rule bit_word_eqI; auto simp: PackService_def bit_simps)+

lemma PackService_inject [simp]: "PackService k = PackService k' \<longleftrightarrow> k = k'"
  by (metis PackService_parts ServiceKey.surjective old.unit.exhaust)

lemma PackMethod_parts:
  "(ucast (drop_bit 32 (PackMethod k)) :: u16) = mk_service_id k"
  "(ucast (drop_bit 16 (PackMethod k)) :: u16) = mk_instance_id k"
  "(ucast (PackMethod k) :: u16) = mk_method_id k"
  by (rule bit_word_eqI; auto simp: PackMethod_def bit_simps)+

lemma PackMethod_inject [simp]: "PackMethod k = PackMethod k' \<longleftrightarrow> k = k'"
  by (metis PackMethod_parts MethodKey.surjective old.unit.exhaust)

lemma PackEvent_parts:
  "(ucast (drop_bit 32 (PackEvent k)) :: u16) = ek_service_id k"
  "(ucast (drop_bit 16 (PackEvent k)) :: u16) = ek_instance_id k"
  "(ucast (PackEvent k) :: u16) = ek_event_id k"
  by (rule bit_word_eqI; auto simp: PackEvent_def bit_simps)+

lemma PackEvent_inject [simp]: "PackEvent k = PackEvent k' \<longleftrightarrow> k = k'"
  by (metis PackEvent_parts EventKey.surjective old.unit.exhaust)

record ('mh, 'eh, 'u) MockWorld =
  mock_offered :: "u64 \<rightharpoonup> bool"
  mock_methods :: "u64 \<rightharpoonup> 'mh"
  mock_events :: "u64 \<rightharpoonup> 'eh"
  mock_user :: 'u

definition MockBackend ::
    "('mh \<Rightarrow> bytes \<Rightarrow> bytes \<Rightarrow> 'u \<Rightarrow> bool \<times> bytes \<times> 'u) \<Rightarrow> ('eh \<Rightarrow> bytes \<Rightarrow> 'u \<Rightarrow> 'u) \<Rightarrow>
     ('mh, 'eh, ('mh, 'eh, 'u) MockWorld) IApplicationBackend" where
  "MockBackend run_method run_event = \<lparr>
     b_OfferService = (\<lambda>k w. (True, w\<lparr> mock_offered := (mock_offered w)(PackService k \<mapsto> True) \<rparr>)),
     b_StopOfferService = (\<lambda>k w. (True, w\<lparr> mock_offered := (mock_offered w)(PackService k := None) \<rparr>)),
     b_DiscoverService = (\<lambda>k w. (mock_offered w (PackService k) \<noteq> None, w)),
     b_RegisterMethodHandler = (\<lambda>k h w. (True, w\<lparr> mock_methods := (mock_methods w)(PackMethod k \<mapsto> h) \<rparr>)),
     b_UnregisterMethodHandler = (\<lambda>k w. (True, w\<lparr> mock_methods := (mock_methods w)(PackMethod k := None) \<rparr>)),
     b_InvokeMethod = (\<lambda>k req resp w.
       case mock_methods w (PackMethod k) of
         None \<Rightarrow> (False, resp, w)
       | Some h \<Rightarrow> (case run_method h req resp (mock_user w) of (ok, out, u) \<Rightarrow> (ok, out, w\<lparr> mock_user := u \<rparr>))),
     b_PublishEvent = (\<lambda>k pl w.
       case mock_events w (PackEvent k) of
         None \<Rightarrow> (False, w)
       | Some h \<Rightarrow> (True, w\<lparr> mock_user := run_event h pl (mock_user w) \<rparr>)),
     b_SubscribeEvent = (\<lambda>k h w. (True, w\<lparr> mock_events := (mock_events w)(PackEvent k \<mapsto> h) \<rparr>)),
     b_UnsubscribeEvent = (\<lambda>k w. (True, w\<lparr> mock_events := (mock_events w)(PackEvent k := None) \<rparr>)) \<rparr>"

definition mock_view :: "('mh, 'eh, 'u) MockWorld \<Rightarrow> ('mh, 'eh, 'u) app_view" where
  "mock_view w = \<lparr> av_offered = (\<lambda>k. mock_offered w (PackService k) \<noteq> None),
     av_methods = (\<lambda>k. mock_methods w (PackMethod k)), av_events = (\<lambda>k. mock_events w (PackEvent k)),
     av_user = mock_user w \<rparr>"

interpretation mock: app_backend "MockBackend run_method run_event" mock_view run_method run_event
  for run_method :: "'mh \<Rightarrow> bytes \<Rightarrow> bytes \<Rightarrow> 'u \<Rightarrow> bool \<times> bytes \<times> 'u" and run_event :: "'eh \<Rightarrow> bytes \<Rightarrow> 'u \<Rightarrow> 'u"
  by unfold_locales
    (auto simp: MockBackend_def mock_view_def fun_eq_iff split: option.split prod.split)

end
