(* ===== verification/Vehicle_App.thy ===== *)
theory Vehicle_App
  imports App_Runtime Vehicle_Params
begin

text \<open>
  The generated application (\<open>VehicleNodeApplication.hpp\<close>): the service base class, its clients and
  the node that attaches and detaches a service. Objects are records; a \<open>shared_ptr\<close> is an option;
  the node refers to its service by address, and the services live in a store, because \<open>AttachRuntime\<close>
  changes the object that both the caller and the node hold. The lambdas given to the runtime are
  closures, told apart by constructor and carrying their \<open>this\<close>; the pure virtual functions are the
  parameter \<open>impl\<close>, one record of functions on the application's own state \<open>'u\<close> for each object.
\<close>

section \<open>Closures and virtual functions\<close>

datatype method_closure = GetVehicleInfoClosure nat | SetCruiseSpeedClosure nat

datatype event_closure = VehicleInfoChangedClosure nat

record 'u vehicle_impl =
  HandleGetVehicleInfo :: "GetVehicleInfoRequest \<Rightarrow> 'u \<Rightarrow> GetVehicleInfoResponse \<times> 'u"
  HandleSetCruiseSpeed :: "SetCruiseSpeedRequest \<Rightarrow> 'u \<Rightarrow> SetCruiseSpeedResponse \<times> 'u"
  OnVehicleInfoChanged :: "VehicleInfoChangedEvent \<Rightarrow> 'u \<Rightarrow> 'u"

type_synonym 'u runtime =  "(method_closure, event_closure, 'u) ApplicationRuntime"

section \<open>Default objects\<close>

definition zero_status :: VehicleStatus where
  "zero_status = \<lparr> vin = '''', speedKph = 0, engineRpm = 0, doorOpen = False, wheels = [], accelHistory = [] \<rparr>"

text \<open>The clients value-initialise their responses; the request objects of the lambdas are not
  initialised, but a successful \<open>deserialize\<close> overwrites every field.\<close>

definition zero_GetVehicleInfoRequest :: GetVehicleInfoRequest where
  "zero_GetVehicleInfoRequest = \<lparr> gi_requestId = 0, gi_targetVin = '''' \<rparr>"

definition zero_GetVehicleInfoResponse :: GetVehicleInfoResponse where
  "zero_GetVehicleInfoResponse = \<lparr> gir_requestId = 0, gir_status = zero_status \<rparr>"

definition zero_SetCruiseSpeedRequest :: SetCruiseSpeedRequest where
  "zero_SetCruiseSpeedRequest = \<lparr> targetSpeedKph = 0 \<rparr>"

definition zero_SetCruiseSpeedResponse :: SetCruiseSpeedResponse where
  "zero_SetCruiseSpeedResponse = \<lparr> accepted = False \<rparr>"

definition zero_VehicleInfoChangedEvent :: VehicleInfoChangedEvent where
  "zero_VehicleInfoChangedEvent = \<lparr> vic_eventSequence = 0, vic_status = zero_status \<rparr>"

lemma read_GetVehicleInfoRequest_any:
  "read_GetVehicleInfoRequest y r = (True, x, r') \<Longrightarrow> read_GetVehicleInfoRequest z r = (True, x, r')"
  by (cases y; cases z) (auto simp: read_GetVehicleInfoRequest_def int_step_def string_step_def
      split: option.splits prod.splits if_splits)

section \<open>The lambdas\<close>

fun run_vehicle_method ::
    "(nat \<Rightarrow> 'u vehicle_impl) \<Rightarrow> method_closure \<Rightarrow> bytes \<Rightarrow> bytes \<Rightarrow> 'u \<Rightarrow> bool \<times> bytes \<times> 'u" where
  "run_vehicle_method impl (GetVehicleInfoClosure this) request_bytes response_bytes u =
     (case deserialize read_GetVehicleInfoRequest zero_GetVehicleInfoRequest request_bytes of (ok, request) \<Rightarrow>
        if \<not> ok then (False, response_bytes, u)
        else case HandleGetVehicleInfo (impl this) request u of (response, u) \<Rightarrow>
          (True, serialize serialize_GetVehicleInfoResponse response, u))"
| "run_vehicle_method impl (SetCruiseSpeedClosure this) request_bytes response_bytes u =
     (case deserialize read_SetCruiseSpeedRequest zero_SetCruiseSpeedRequest request_bytes of (ok, request) \<Rightarrow>
        if \<not> ok then (False, response_bytes, u)
        else case HandleSetCruiseSpeed (impl this) request u of (response, u) \<Rightarrow>
          (True, serialize serialize_SetCruiseSpeedResponse response, u))"

fun run_vehicle_event :: "(nat \<Rightarrow> 'u vehicle_impl) \<Rightarrow> event_closure \<Rightarrow> bytes \<Rightarrow> 'u \<Rightarrow> 'u" where
  "run_vehicle_event impl (VehicleInfoChangedClosure this) pl u =
     (case deserialize read_VehicleInfoChangedEvent zero_VehicleInfoChangedEvent pl of (ok, event) \<Rightarrow>
        if ok then OnVehicleInfoChanged (impl this) event u else u)"

section \<open>VehicleInfoService\<close>

record 'w VehicleInfoService =
  svc_runtime :: "'w runtime option"
  svc_instance_id :: u16

definition svc_key :: "u16 \<Rightarrow> ServiceKey" where
  "svc_key i = \<lparr> sk_service_id = 0x1234, sk_instance_id = i \<rparr>"

definition method_key :: "u16 \<Rightarrow> u16 \<Rightarrow> MethodKey" where
  "method_key i m = \<lparr> mk_service_id = 0x1234, mk_instance_id = i, mk_method_id = m \<rparr>"

definition event_key :: "u16 \<Rightarrow> EventKey" where
  "event_key i = \<lparr> ek_service_id = 0x1234, ek_instance_id = i, ek_event_id = 0x8001 \<rparr>"

definition PublishVehicleInfoChanged ::
    "'w VehicleInfoService \<Rightarrow> VehicleInfoChangedEvent \<Rightarrow> 'w \<Rightarrow> bool \<times> 'w" where
  "PublishVehicleInfoChanged svc event w =
     (case svc_runtime svc of
        None \<Rightarrow> (False, w)
      | Some rt \<Rightarrow> PublishEvent rt (event_key (svc_instance_id svc))
                   (serialize serialize_VehicleInfoChangedEvent event) w)"

definition AttachRuntime :: "'w runtime option \<Rightarrow> u16 \<Rightarrow> 'w VehicleInfoService \<Rightarrow> 'w VehicleInfoService" where
  "AttachRuntime runtime i svc = svc\<lparr> svc_runtime := runtime, svc_instance_id := i \<rparr>"

text \<open>\<open>ok = ok && f()\<close> calls \<open>f\<close> only while all went well; \<open>ok = f() && ok\<close> always calls it.\<close>

definition and_then :: "bool \<times> 'w \<Rightarrow> ('w \<Rightarrow> bool \<times> 'w) \<Rightarrow> bool \<times> 'w" where
  "and_then r f = (case r of (ok, w) \<Rightarrow> if ok then f w else (False, w))"

definition and_also :: "bool \<times> 'w \<Rightarrow> ('w \<Rightarrow> bool \<times> 'w) \<Rightarrow> bool \<times> 'w" where
  "and_also r f = (case r of (ok, w) \<Rightarrow> case f w of (ok', w) \<Rightarrow> (ok' \<and> ok, w))"

definition RegisterWithRuntime :: "nat \<Rightarrow> 'w VehicleInfoService \<Rightarrow> 'w \<Rightarrow> bool \<times> 'w" where
  "RegisterWithRuntime this svc w =
     (case svc_runtime svc of
        None \<Rightarrow> (False, w)
      | Some rt \<Rightarrow>
          and_then
            (and_then (OfferService rt (svc_key (svc_instance_id svc)) w)
              (RegisterMethodHandler rt (method_key (svc_instance_id svc) 0x0001) (GetVehicleInfoClosure this)))
            (RegisterMethodHandler rt (method_key (svc_instance_id svc) 0x0003) (SetCruiseSpeedClosure this)))"

definition UnregisterFromRuntime :: "'w VehicleInfoService \<Rightarrow> 'w \<Rightarrow> bool \<times> 'w" where
  "UnregisterFromRuntime svc w =
     (case svc_runtime svc of
        None \<Rightarrow> (False, w)
      | Some rt \<Rightarrow>
          and_also
            (and_also
              (and_also (True, w) (UnregisterMethodHandler rt (method_key (svc_instance_id svc) 0x0001)))
              (UnregisterMethodHandler rt (method_key (svc_instance_id svc) 0x0003)))
            (StopOfferService rt (svc_key (svc_instance_id svc))))"

section \<open>Clients\<close>

record 'w VehicleInfoClient =
  cl_runtime :: "'w runtime option"
  cl_instance_id :: u16

definition client_Discover :: "'w VehicleInfoClient \<Rightarrow> 'w \<Rightarrow> bool \<times> 'w" where
  "client_Discover cl w =
     (case cl_runtime cl of
        None \<Rightarrow> (False, w) | Some rt \<Rightarrow> DiscoverService rt (svc_key (cl_instance_id cl)) w)"

text \<open>The verdict of the final \<open>deserialize\<close> is ignored: what it left in the response is returned.\<close>

definition GetVehicleInfo ::
    "'w VehicleInfoClient \<Rightarrow> GetVehicleInfoRequest \<Rightarrow> 'w \<Rightarrow> GetVehicleInfoResponse \<times> 'w" where
  "GetVehicleInfo cl request w =
     (case cl_runtime cl of
        None \<Rightarrow> (zero_GetVehicleInfoResponse, w)
      | Some rt \<Rightarrow>
          (case InvokeMethod rt (method_key (cl_instance_id cl) 0x0001)
                  (serialize serialize_GetVehicleInfoRequest request) [] w of (ok, response_bytes, w) \<Rightarrow>
             if \<not> ok then (zero_GetVehicleInfoResponse, w)
             else (snd (deserialize read_GetVehicleInfoResponse zero_GetVehicleInfoResponse response_bytes), w)))"

definition SubscribeVehicleInfoChanged :: "nat \<Rightarrow> 'w VehicleInfoClient \<Rightarrow> 'w \<Rightarrow> bool \<times> 'w" where
  "SubscribeVehicleInfoChanged this cl w =
     (case cl_runtime cl of
        None \<Rightarrow> (False, w)
      | Some rt \<Rightarrow> SubscribeEvent rt (event_key (cl_instance_id cl)) (VehicleInfoChangedClosure this) w)"

definition UnsubscribeVehicleInfoChanged :: "'w VehicleInfoClient \<Rightarrow> 'w \<Rightarrow> bool \<times> 'w" where
  "UnsubscribeVehicleInfoChanged cl w =
     (case cl_runtime cl of
        None \<Rightarrow> (False, w) | Some rt \<Rightarrow> UnsubscribeEvent rt (event_key (cl_instance_id cl)) w)"

text \<open>\<open>CruiseControlClient\<close> has the same members.\<close>

record 'w CruiseControlClient =
  cc_runtime :: "'w runtime option"
  cc_instance_id :: u16

definition cruise_Discover :: "'w CruiseControlClient \<Rightarrow> 'w \<Rightarrow> bool \<times> 'w" where
  "cruise_Discover cl w =
     (case cc_runtime cl of
        None \<Rightarrow> (False, w) | Some rt \<Rightarrow> DiscoverService rt (svc_key (cc_instance_id cl)) w)"

definition SetCruiseSpeed ::
    "'w CruiseControlClient \<Rightarrow> SetCruiseSpeedRequest \<Rightarrow> 'w \<Rightarrow> SetCruiseSpeedResponse \<times> 'w" where
  "SetCruiseSpeed cl request w =
     (case cc_runtime cl of
        None \<Rightarrow> (zero_SetCruiseSpeedResponse, w)
      | Some rt \<Rightarrow>
          (case InvokeMethod rt (method_key (cc_instance_id cl) 0x0003)
                  (serialize serialize_SetCruiseSpeedRequest request) [] w of (ok, response_bytes, w) \<Rightarrow>
             if \<not> ok then (zero_SetCruiseSpeedResponse, w)
             else (snd (deserialize read_SetCruiseSpeedResponse zero_SetCruiseSpeedResponse response_bytes), w)))"

section \<open>VehicleNodeApplication\<close>

record 'w VehicleNodeApplication =
  app_runtime :: "'w runtime option"
  app_service_instance :: "nat option"

type_synonym 'w service_store = "nat \<Rightarrow> 'w VehicleInfoService"

definition new_VehicleNodeApplication :: "'w runtime option \<Rightarrow> 'w VehicleNodeApplication" where
  "new_VehicleNodeApplication runtime = \<lparr> app_runtime = runtime, app_service_instance = None \<rparr>"

definition AttachVehicleInfoService ::
    "nat option \<Rightarrow> 'w VehicleNodeApplication \<Rightarrow> 'w service_store \<Rightarrow> 'w \<Rightarrow>
     bool \<times> 'w VehicleNodeApplication \<times> 'w service_store \<times> 'w" where
  "AttachVehicleInfoService service app store w =
     (case service of
        None \<Rightarrow> (False, app, store, w)
      | Some this \<Rightarrow>
          (if app_runtime app = None then (False, app, store, w)
           else let store = store(this := AttachRuntime (app_runtime app) 0x0001 (store this))
                in case RegisterWithRuntime this (store this) w of (ok, w) \<Rightarrow>
                     if \<not> ok then (False, app, store, w)
                     else (True, app\<lparr> app_service_instance := Some this \<rparr>, store, w)))"

definition DetachVehicleInfoService ::
    "'w VehicleNodeApplication \<Rightarrow> 'w service_store \<Rightarrow> 'w \<Rightarrow> bool \<times> 'w VehicleNodeApplication \<times> 'w" where
  "DetachVehicleInfoService app store w =
     (case app_service_instance app of
        None \<Rightarrow> (False, app, w)
      | Some this \<Rightarrow>
          (case UnregisterFromRuntime (store this) w of (ok, w) \<Rightarrow>
             (ok, app\<lparr> app_service_instance := None \<rparr>, w)))"

definition CreateVehicleInfoClientMain :: "'w VehicleNodeApplication \<Rightarrow> 'w VehicleInfoClient" where
  "CreateVehicleInfoClientMain app = \<lparr> cl_runtime = app_runtime app, cl_instance_id = 0x0001 \<rparr>"

definition CreateCruiseControlClientMain :: "'w VehicleNodeApplication \<Rightarrow> 'w CruiseControlClient" where
  "CreateCruiseControlClientMain app = \<lparr> cc_runtime = app_runtime app, cc_instance_id = 0x0001 \<rparr>"

section \<open>The application over a backend\<close>

text \<open>What attaching and detaching do to the tables.\<close>

definition vehicle_registered ::
    "nat \<Rightarrow> (method_closure, event_closure, 'u) app_view \<Rightarrow> (method_closure, event_closure, 'u) app_view" where
  "vehicle_registered this v = v\<lparr> av_offered := (av_offered v)(svc_key 1 := True),
     av_methods := (av_methods v)(method_key 1 1 := Some (GetVehicleInfoClosure this),
                                  method_key 1 3 := Some (SetCruiseSpeedClosure this)) \<rparr>"

definition vehicle_unregistered ::
    "(method_closure, event_closure, 'u) app_view \<Rightarrow> (method_closure, event_closure, 'u) app_view" where
  "vehicle_unregistered v = v\<lparr> av_offered := (av_offered v)(svc_key 1 := False),
     av_methods := (av_methods v)(method_key 1 1 := None, method_key 1 3 := None) \<rparr>"

locale vehicle_backend = app_backend be view "run_vehicle_method impl" "run_vehicle_event impl"
  for be :: "(method_closure, event_closure, 'w) IApplicationBackend"
    and view :: "'w \<Rightarrow> (method_closure, event_closure, 'u) app_view"
    and impl :: "nat \<Rightarrow> 'u vehicle_impl"
begin

lemma op_view:
  "\<exists>w'. OfferService rt sk w = (True, w') \<and> view w' = (view w)\<lparr> av_offered := (av_offered (view w))(sk := True) \<rparr>"
  "\<exists>w'. StopOfferService rt sk w = (True, w') \<and> view w' = (view w)\<lparr> av_offered := (av_offered (view w))(sk := False) \<rparr>"
  "\<exists>w'. DiscoverService rt sk w = (av_offered (view w) sk, w') \<and> view w' = view w"
  "\<exists>w'. RegisterMethodHandler rt mk mh w = (True, w') \<and> view w' = (view w)\<lparr> av_methods := (av_methods (view w))(mk := Some mh) \<rparr>"
  "\<exists>w'. UnregisterMethodHandler rt mk w = (True, w') \<and> view w' = (view w)\<lparr> av_methods := (av_methods (view w))(mk := None) \<rparr>"
  "\<exists>w'. SubscribeEvent rt ek eh w = (True, w') \<and> view w' = (view w)\<lparr> av_events := (av_events (view w))(ek := Some eh) \<rparr>"
  "\<exists>w'. UnsubscribeEvent rt ek w = (True, w') \<and> view w' = (view w)\<lparr> av_events := (av_events (view w))(ek := None) \<rparr>"
  using offer [of sk w] stop_offer [of sk w] discover [of sk w] register [of mk mh w] unregister [of mk w]
    subscribe [of ek eh w] unsubscribe [of ek w]
  by (auto simp: OfferService_def StopOfferService_def DiscoverService_def RegisterMethodHandler_def
      UnregisterMethodHandler_def SubscribeEvent_def UnsubscribeEvent_def elim!: apsnd_eqE)

lemma attach:
  assumes "app_runtime app = Some rt"
  obtains w' where "AttachVehicleInfoService (Some this) app store w
      = (True, app\<lparr> app_service_instance := Some this \<rparr>,
         store(this := AttachRuntime (Some rt) 1 (store this)), w')"
    and "view w' = vehicle_registered this (view w)"
proof -
  obtain w1 where 1: "OfferService rt (svc_key 1) w = (True, w1)"
    "view w1 = (view w)\<lparr> av_offered := (av_offered (view w))(svc_key 1 := True) \<rparr>"
    using op_view(1) by blast
  obtain w2 where 2: "RegisterMethodHandler rt (method_key 1 1) (GetVehicleInfoClosure this) w1 = (True, w2)"
    "view w2 = (view w1)\<lparr> av_methods := (av_methods (view w1))(method_key 1 1 := Some (GetVehicleInfoClosure this)) \<rparr>"
    using op_view(4) by blast
  obtain w3 where 3: "RegisterMethodHandler rt (method_key 1 3) (SetCruiseSpeedClosure this) w2 = (True, w3)"
    "view w3 = (view w2)\<lparr> av_methods := (av_methods (view w2))(method_key 1 3 := Some (SetCruiseSpeedClosure this)) \<rparr>"
    using op_view(4) by blast
  have "view w3 = vehicle_registered this (view w)" using 1 2 3 by (simp add: vehicle_registered_def)
  with that [of w3] 1 2 3 assms show thesis
    by (simp add: AttachVehicleInfoService_def RegisterWithRuntime_def AttachRuntime_def and_then_def Let_def)
qed

lemma detach:
  assumes "app_service_instance app = Some this" and "svc_runtime (store this) = Some rt"
    and "svc_instance_id (store this) = 1"
  obtains w' where "DetachVehicleInfoService app store w = (True, app\<lparr> app_service_instance := None \<rparr>, w')"
    and "view w' = vehicle_unregistered (view w)"
proof -
  obtain w1 where 1: "UnregisterMethodHandler rt (method_key 1 1) w = (True, w1)"
    "view w1 = (view w)\<lparr> av_methods := (av_methods (view w))(method_key 1 1 := None) \<rparr>"
    using op_view(5) by blast
  obtain w2 where 2: "UnregisterMethodHandler rt (method_key 1 3) w1 = (True, w2)"
    "view w2 = (view w1)\<lparr> av_methods := (av_methods (view w1))(method_key 1 3 := None) \<rparr>"
    using op_view(5) by blast
  obtain w3 where 3: "StopOfferService rt (svc_key 1) w2 = (True, w3)"
    "view w3 = (view w2)\<lparr> av_offered := (av_offered (view w2))(svc_key 1 := False) \<rparr>"
    using op_view(2) by blast
  have "view w3 = vehicle_unregistered (view w)" using 1 2 3 by (simp add: vehicle_unregistered_def)
  with that [of w3] 1 2 3 assms show thesis
    by (simp add: DetachVehicleInfoService_def UnregisterFromRuntime_def and_also_def)
qed

text \<open>A call that finds its handler: the request arrives, the handler's response comes back.\<close>

lemma call:
  assumes "av_methods (view w) (method_key i 1) = Some (GetVehicleInfoClosure this)"
    and "GetVehicleInfoRequest_ok request"
    and "HandleGetVehicleInfo (impl this) request (av_user (view w)) = (response, u)"
  obtains w' where "GetVehicleInfo \<lparr> cl_runtime = Some rt, cl_instance_id = i \<rparr> request w
      = (if GetVehicleInfoResponse_ok response then response else zero_GetVehicleInfoResponse, w')"
    and "view w' = (view w)\<lparr> av_user := u \<rparr>"
proof -
  let ?req = "serialize serialize_GetVehicleInfoRequest request"
  let ?resp = "serialize serialize_GetVehicleInfoResponse response"
  have "run_vehicle_method impl (GetVehicleInfoClosure this) ?req [] (av_user (view w)) = (True, ?resp, u)"
    using assms by (simp add: GetVehicleInfoRequest.round_trip)
  from run_registered [OF assms(1) this] obtain w' where
    w': "InvokeMethod rt (method_key i 1) ?req [] w = (True, ?resp, w')" "view w' = (view w)\<lparr> av_user := u \<rparr>" .
  have "snd (deserialize read_GetVehicleInfoResponse zero_GetVehicleInfoResponse ?resp)
      = (if GetVehicleInfoResponse_ok response then response else zero_GetVehicleInfoResponse)"
    by (simp add: GetVehicleInfoResponse.round_trip GetVehicleInfoResponse.serialize_not_ok)
      (simp add: deserialize_def read_GetVehicleInfoResponse_def int_step_def readIntegralBE_def remaining_def)
  with that [of w'] w' show thesis by (simp add: GetVehicleInfo_def)
qed

lemma call_refused:
  assumes "av_methods (view w) (method_key i 1) = None"
  obtains w' where "GetVehicleInfo \<lparr> cl_runtime = Some rt, cl_instance_id = i \<rparr> request w
      = (zero_GetVehicleInfoResponse, w')" and "view w' = view w"
proof -
  obtain w' where "InvokeMethod rt (method_key i 1) (serialize serialize_GetVehicleInfoRequest request) [] w
      = (False, [], w')" "view w' = view w"
    using invoke_unregistered [OF assms] .
  with that [of w'] show thesis by (simp add: GetVehicleInfo_def)
qed

lemma publish_subscribed:
  assumes "av_events (view w) (event_key i) = Some (VehicleInfoChangedClosure this)"
  obtains w' where "PublishVehicleInfoChanged \<lparr> svc_runtime = Some rt, svc_instance_id = i \<rparr> event w = (True, w')"
    and "view w' = (view w)\<lparr> av_user := (if VehicleInfoChangedEvent_ok event
           then OnVehicleInfoChanged (impl this) event (av_user (view w)) else av_user (view w)) \<rparr>"
proof -
  let ?pl = "serialize serialize_VehicleInfoChangedEvent event"
  obtain w' where p: "b_PublishEvent be (event_key i) ?pl w = (True, w')"
    "view w' = (view w)\<lparr> av_user := run_vehicle_event impl (VehicleInfoChangedClosure this) ?pl (av_user (view w)) \<rparr>"
    using publish [of "event_key i" ?pl w] assms by (auto elim!: apsnd_eqE)
  have "run_vehicle_event impl (VehicleInfoChangedClosure this) ?pl u =
      (if VehicleInfoChangedEvent_ok event then OnVehicleInfoChanged (impl this) event u else u)" for u
    by (simp add: VehicleInfoChangedEvent.round_trip VehicleInfoChangedEvent.serialize_not_ok)
      (simp add: deserialize_def read_VehicleInfoChangedEvent_def int_step_def readIntegralBE_def remaining_def)
  with p that [of w'] show thesis by (simp add: PublishVehicleInfoChanged_def PublishEvent_def)
qed

end

interpretation mock_vehicle: vehicle_backend "MockBackend (run_vehicle_method impl) (run_vehicle_event impl)" mock_view impl
  for impl :: "nat \<Rightarrow> 'u vehicle_impl"
  by unfold_locales

section \<open>Properties\<close>

definition mock_runtime ::
    "(nat \<Rightarrow> 'u vehicle_impl) \<Rightarrow> (method_closure, event_closure, 'u) MockWorld runtime" where
  "mock_runtime impl = \<lparr> rt_backend = Some (MockBackend (run_vehicle_method impl) (run_vehicle_event impl)) \<rparr>"

text \<open>C28. A service attached to a node is discovered by the node's client, and a call runs its handler on
  exactly the request the caller passed and returns exactly the handler's response; a response too long
  for its length fields comes back as the default response, although the handler has run.\<close>

theorem attached_service_answers:
  assumes "app_runtime app = Some (mock_runtime impl)" and "GetVehicleInfoRequest_ok request"
  shows "let (ok, app', store', w1) = AttachVehicleInfoService (Some this) app store w;
             client = CreateVehicleInfoClientMain app';
             (response, u) = HandleGetVehicleInfo (impl this) request (mock_user w);
             (result, w2) = GetVehicleInfo client request w1
         in ok \<and> fst (client_Discover client w1)
            \<and> result = (if GetVehicleInfoResponse_ok response then response else zero_GetVehicleInfoResponse)
            \<and> mock_user w2 = u"
proof -
  obtain w1 where a: "AttachVehicleInfoService (Some this) app store w
      = (True, app\<lparr> app_service_instance := Some this \<rparr>,
         store(this := AttachRuntime (Some (mock_runtime impl)) 1 (store this)), w1)"
    and v: "mock_view w1 = vehicle_registered this (mock_view w)"
    using mock_vehicle.attach [of app impl this store w] assms(1) by (auto simp: mock_runtime_def)
  obtain response u where h: "HandleGetVehicleInfo (impl this) request (mock_user w) = (response, u)"
    by fastforce
  have user: "av_user (mock_view w1) = mock_user w"
    using v by (simp add: vehicle_registered_def mock_view_def)
  have m: "av_methods (mock_view w1) (method_key 1 1) = Some (GetVehicleInfoClosure this)"
    using v by (simp add: vehicle_registered_def method_key_def)
  obtain w2 where g: "GetVehicleInfo \<lparr> cl_runtime = Some (mock_runtime impl), cl_instance_id = 1 \<rparr> request w1
      = (if GetVehicleInfoResponse_ok response then response else zero_GetVehicleInfoResponse, w2)"
    and v2: "mock_view w2 = (mock_view w1)\<lparr> av_user := u \<rparr>"
    using mock_vehicle.call [OF m assms(2)] h user by (metis mock_runtime_def)
  have "mock_user w2 = u" using arg_cong [OF v2, of av_user] by (simp add: mock_view_def)
  moreover have "fst (client_Discover \<lparr> cl_runtime = Some (mock_runtime impl), cl_instance_id = 1 \<rparr> w1)"
    using mock_vehicle.op_view(3) [of impl "svc_key 1" w1] v
    by (auto simp: client_Discover_def mock_runtime_def vehicle_registered_def)
  ultimately show ?thesis
    using a g h assms(1) by (simp add: CreateVehicleInfoClientMain_def)
qed

definition echo_impl :: "nat \<Rightarrow> u32 vehicle_impl" where
  "echo_impl this = \<lparr>
     HandleGetVehicleInfo = (\<lambda>request u. (\<lparr> gir_requestId = gi_requestId request,
       gir_status = sample_status\<lparr> vin := gi_targetVin request \<rparr> \<rparr>, u + 1)),
     HandleSetCruiseSpeed = (\<lambda>request u. (\<lparr> accepted = (targetSpeedKph request > 0) \<rparr>, u)),
     OnVehicleInfoChanged = (\<lambda>event u. vic_eventSequence event) \<rparr>"

definition empty_world :: "(method_closure, event_closure, u32) MockWorld" where
  "empty_world = \<lparr> mock_offered = Map.empty, mock_methods = Map.empty, mock_events = Map.empty, mock_user = 0 \<rparr>"

theorem attached_service_answers_witness:
  "fst (AttachVehicleInfoService (Some 7) (new_VehicleNodeApplication (Some (mock_runtime echo_impl)))
     (\<lambda>_. \<lparr> svc_runtime = None, svc_instance_id = 0 \<rparr>) empty_world)"
proof -
  have "app_runtime (new_VehicleNodeApplication (Some (mock_runtime echo_impl))) = Some (mock_runtime echo_impl)"
    and "GetVehicleInfoRequest_ok \<lparr> gi_requestId = 7, gi_targetVin = ''VIN-123'' \<rparr>"
    by (simp_all add: new_VehicleNodeApplication_def GetVehicleInfoRequest_ok_def)
  from attached_service_answers [OF this, where this = 7 and w = empty_world
      and store = "\<lambda>_. \<lparr> svc_runtime = None, svc_instance_id = 0 \<rparr>"]
  show ?thesis by (auto simp: Let_def split: prod.splits)
qed

text \<open>C29. Detaching withdraws the service: the client no longer discovers it, its calls return the default
  response and run no handler, and every other service, method and event is as before.\<close>

theorem detached_service_is_gone:
  assumes "app_runtime app = Some (mock_runtime impl)"
  shows "let (_, app1, store1, w1) = AttachVehicleInfoService (Some this) app store w;
             (ok, app2, w2) = DetachVehicleInfoService app1 store1 w1;
             client = CreateVehicleInfoClientMain app2;
             (result, w3) = GetVehicleInfo client request w2
         in ok \<and> app_service_instance app2 = None \<and> \<not> fst (client_Discover client w2)
            \<and> result = zero_GetVehicleInfoResponse \<and> mock_user w3 = mock_user w
            \<and> (\<forall>k. k \<noteq> svc_key 1 \<longrightarrow> av_offered (mock_view w3) k = av_offered (mock_view w) k)
            \<and> (\<forall>k. k \<noteq> method_key 1 1 \<longrightarrow> k \<noteq> method_key 1 3 \<longrightarrow>
                 av_methods (mock_view w3) k = av_methods (mock_view w) k)
            \<and> av_events (mock_view w3) = av_events (mock_view w)"
proof -
  let ?store = "store(this := AttachRuntime (Some (mock_runtime impl)) 1 (store this))"
  obtain w1 where a: "AttachVehicleInfoService (Some this) app store w
      = (True, app\<lparr> app_service_instance := Some this \<rparr>, ?store, w1)"
    and v1: "mock_view w1 = vehicle_registered this (mock_view w)"
    using mock_vehicle.attach [of app impl this store w] assms by (auto simp: mock_runtime_def)
  obtain w2 where d: "DetachVehicleInfoService (app\<lparr> app_service_instance := Some this \<rparr>) ?store w1
      = (True, app\<lparr> app_service_instance := None \<rparr>, w2)"
    and v2: "mock_view w2 = vehicle_unregistered (mock_view w1)"
    using mock_vehicle.detach [of "app\<lparr> app_service_instance := Some this \<rparr>" this ?store impl w1]
    by (auto simp: mock_runtime_def AttachRuntime_def)
  have "av_methods (mock_view w2) (method_key 1 1) = None"
    using v2 by (simp add: vehicle_unregistered_def method_key_def)
  then obtain w3 where g: "GetVehicleInfo \<lparr> cl_runtime = Some (mock_runtime impl), cl_instance_id = 1 \<rparr> request w2
      = (zero_GetVehicleInfoResponse, w3)" and v3: "mock_view w3 = mock_view w2"
    by (metis mock_vehicle.call_refused mock_runtime_def)
  have "\<not> fst (client_Discover \<lparr> cl_runtime = Some (mock_runtime impl), cl_instance_id = 1 \<rparr> w2)"
    using mock_vehicle.op_view(3) [of impl "svc_key 1" w2] v2
    by (auto simp: client_Discover_def mock_runtime_def vehicle_unregistered_def)
  moreover have "mock_user w3 = mock_user w"
    using arg_cong [OF v3, of av_user] arg_cong [OF v2, of av_user] arg_cong [OF v1, of av_user]
    by (simp add: mock_view_def vehicle_registered_def vehicle_unregistered_def)
  moreover have "av_events (mock_view w3) = av_events (mock_view w)"
    by (simp add: v3 v2 v1 vehicle_registered_def vehicle_unregistered_def)
  ultimately show ?thesis
    using a d g assms v3 v2 v1
    by (simp add: CreateVehicleInfoClientMain_def vehicle_registered_def vehicle_unregistered_def)
qed

theorem detached_service_is_gone_witness:
  "let (_, app1, store1, w1) = AttachVehicleInfoService (Some 7)
         (new_VehicleNodeApplication (Some (mock_runtime echo_impl)))
         (\<lambda>_. \<lparr> svc_runtime = None, svc_instance_id = 0 \<rparr>) empty_world
   in fst (DetachVehicleInfoService app1 store1 w1)"
  using detached_service_is_gone [of "new_VehicleNodeApplication (Some (mock_runtime echo_impl))" echo_impl 7
      "\<lambda>_. \<lparr> svc_runtime = None, svc_instance_id = 0 \<rparr>" empty_world zero_GetVehicleInfoRequest]
  by (auto simp: new_VehicleNodeApplication_def Let_def split: prod.splits)

text \<open>C30. A published event reaches the subscribed client's callback unchanged, once. One that does not fit
  its length fields reaches nobody, and publishing reports success all the same.\<close>

theorem event_reaches_subscriber:
  assumes "cl_runtime client = Some (mock_runtime impl)" and "svc_runtime svc = Some (mock_runtime impl)"
    and "svc_instance_id svc = cl_instance_id client"
  shows "let (sub, w1) = SubscribeVehicleInfoChanged this client w;
             (pub, w2) = PublishVehicleInfoChanged svc event w1
         in sub \<and> pub \<and> mock_user w2 = (if VehicleInfoChangedEvent_ok event
               then OnVehicleInfoChanged (impl this) event (mock_user w) else mock_user w)"
proof -
  let ?i = "cl_instance_id client"
  obtain w1 where s: "SubscribeEvent (mock_runtime impl) (event_key ?i) (VehicleInfoChangedClosure this) w = (True, w1)"
    and v1: "mock_view w1 = (mock_view w)\<lparr> av_events :=
        (av_events (mock_view w))(event_key ?i := Some (VehicleInfoChangedClosure this)) \<rparr>"
    using mock_vehicle.op_view(6) [of impl "event_key ?i" "VehicleInfoChangedClosure this" w]
    by (auto simp: mock_runtime_def)
  have "av_events (mock_view w1) (event_key ?i) = Some (VehicleInfoChangedClosure this)" using v1 by simp
  then obtain w2 where p: "PublishVehicleInfoChanged \<lparr> svc_runtime = Some (mock_runtime impl), svc_instance_id = ?i \<rparr>
      event w1 = (True, w2)"
    and v2: "mock_view w2 = (mock_view w1)\<lparr> av_user := (if VehicleInfoChangedEvent_ok event
        then OnVehicleInfoChanged (impl this) event (av_user (mock_view w1)) else av_user (mock_view w1)) \<rparr>"
    by (metis mock_vehicle.publish_subscribed mock_runtime_def)
  have "av_user (mock_view w1) = mock_user w" using v1 by (simp add: mock_view_def)
  then have "mock_user w2 = (if VehicleInfoChangedEvent_ok event
      then OnVehicleInfoChanged (impl this) event (mock_user w) else mock_user w)"
    using arg_cong [OF v2, of av_user] by (simp add: mock_view_def)
  moreover have "PublishVehicleInfoChanged svc event w1 = (True, w2)"
    using p assms(2,3) by (simp add: PublishVehicleInfoChanged_def)
  ultimately show ?thesis using s assms(1) by (simp add: SubscribeVehicleInfoChanged_def)
qed

theorem event_reaches_subscriber_witness:
  "mock_user (snd (PublishVehicleInfoChanged \<lparr> svc_runtime = Some (mock_runtime echo_impl), svc_instance_id = 1 \<rparr>
     sample_event (snd (SubscribeVehicleInfoChanged 3
       \<lparr> cl_runtime = Some (mock_runtime echo_impl), cl_instance_id = 1 \<rparr> empty_world)))) = 5"
proof -
  let ?svc = "\<lparr> svc_runtime = Some (mock_runtime echo_impl), svc_instance_id = 1 \<rparr>"
  let ?client = "\<lparr> cl_runtime = Some (mock_runtime echo_impl), cl_instance_id = 1 \<rparr>"
  have "OnVehicleInfoChanged (echo_impl 3) sample_event (mock_user empty_world) = 5"
    by (simp add: echo_impl_def sample_event_def)
  then show ?thesis
    using event_reaches_subscriber [of ?client echo_impl ?svc 3 empty_world sample_event] sample_event_ok
    by (auto simp: Let_def split: prod.splits)
qed

section \<open>A failed attach\<close>

text \<open>Over any backend, attaching succeeds iff the offer and both registrations do, it stops at the first
  that fails, and it undoes nothing: the world is the one the last call left. The node does not own the
  service then, so detaching refuses and changes nothing.\<close>

lemma attach_stops_at_failure:
  assumes "app_runtime app = Some \<lparr> rt_backend = Some be \<rparr>"
    and "b_OfferService be (svc_key 1) w = (ok0, w0)"
    and "b_RegisterMethodHandler be (method_key 1 1) (GetVehicleInfoClosure this) w0 = (ok1, w1)"
    and "b_RegisterMethodHandler be (method_key 1 3) (SetCruiseSpeedClosure this) w1 = (ok2, w2)"
  shows "\<exists>store'. AttachVehicleInfoService (Some this) app store w =
    (ok0 \<and> ok1 \<and> ok2, if ok0 \<and> ok1 \<and> ok2 then app\<lparr> app_service_instance := Some this \<rparr> else app, store',
     if \<not> ok0 then w0 else if \<not> ok1 then w1 else w2)"
  using assms by (auto simp: AttachVehicleInfoService_def RegisterWithRuntime_def AttachRuntime_def and_then_def
      OfferService_def RegisterMethodHandler_def Let_def)

lemma failed_attach_not_undone:
  assumes "app_runtime app = Some \<lparr> rt_backend = Some be \<rparr>" and "app_service_instance app = None"
    and "AttachVehicleInfoService (Some this) app store w = (False, app', store', w')"
  shows "DetachVehicleInfoService app' store' w' = (False, app', w')"
proof -
  obtain ok0 w0 where a: "b_OfferService be (svc_key 1) w = (ok0, w0)" by fastforce
  obtain ok1 w1 where b: "b_RegisterMethodHandler be (method_key 1 1) (GetVehicleInfoClosure this) w0 = (ok1, w1)"
    by fastforce
  obtain ok2 w2 where c: "b_RegisterMethodHandler be (method_key 1 3) (SetCruiseSpeedClosure this) w1 = (ok2, w2)"
    by fastforce
  show ?thesis
    using attach_stops_at_failure [OF assms(1) a b c, of store] assms(2,3)
    by (auto simp: DetachVehicleInfoService_def split: if_splits)
qed

end
