(* ===== verification/App_Test.thy ===== *)
theory App_Test
  imports Vehicle_App
begin

text \<open>
  The test program of the application framework (\<open>test_generated_app_framework.cpp\<close>): its service and
  client, and \<open>main\<close> as a function from the two fields of the event it leaves uninitialised to the
  values of its assertions, in order. What the client object remembers is the application's state.
\<close>

section \<open>The objects\<close>

record client_memory =
  last_sequence :: u32
  last_speed :: u16

text \<open>The response of the service is not value-initialised, but the test sets its integers, and the rest
  of it are empty containers.\<close>

definition test_vehicle_impl :: "nat \<Rightarrow> client_memory vehicle_impl" where
  "test_vehicle_impl this = \<lparr>
     HandleGetVehicleInfo = (\<lambda>request u.
       (\<lparr> gir_requestId = gi_requestId request,
          gir_status = zero_status\<lparr> vin := gi_targetVin request, speedKph := 88, engineRpm := 2300, doorOpen := False \<rparr> \<rparr>,
        u)),
     HandleSetCruiseSpeed = (\<lambda>request u. (\<lparr> accepted = (targetSpeedKph request > 0) \<rparr>, u)),
     OnVehicleInfoChanged = (\<lambda>event u. u\<lparr> last_sequence := vic_eventSequence event,
       last_speed := speedKph (vic_status event) \<rparr>) \<rparr>"

section \<open>The program\<close>

definition framework_test_main :: "u32 \<Rightarrow> bool \<Rightarrow> bool list" where
  "framework_test_main rpm door =
     (let service = 0; client_this = 1;
          w = \<lparr> mock_offered = Map.empty, mock_methods = Map.empty, mock_events = Map.empty,
                mock_user = \<lparr> last_sequence = 0, last_speed = 0 \<rparr> \<rparr>;
          app = new_VehicleNodeApplication (Some (mock_runtime test_vehicle_impl));
          (attached, app, store, w) = AttachVehicleInfoService (Some service) app
            (\<lambda>_. \<lparr> svc_runtime = None, svc_instance_id = 0 \<rparr>) w;
          client = CreateVehicleInfoClientMain app;
          (discovered, w) = client_Discover client w;
          request = \<lparr> gi_requestId = 7, gi_targetVin = ''VIN-123'' \<rparr>;
          (response, w) = GetVehicleInfo client request w;
          cruise_client = CreateCruiseControlClientMain app;
          (set_response, w) = SetCruiseSpeed cruise_client \<lparr> targetSpeedKph = 100 \<rparr> w;
          (subscribed, w) = SubscribeVehicleInfoChanged client_this client w;
          event = \<lparr> vic_eventSequence = 5,
                    vic_status = zero_status\<lparr> speedKph := 99, engineRpm := rpm, doorOpen := door \<rparr> \<rparr>;
          (published, w) = PublishVehicleInfoChanged (store service) event w;
          seen = mock_user w;
          (unsubscribed, w) = UnsubscribeVehicleInfoChanged client w;
          (detached, app, w) = DetachVehicleInfoService app store w
      in [attached, discovered, gir_requestId response = 7, vin (gir_status response) = ''VIN-123'',
          speedKph (gir_status response) = 88, accepted set_response, subscribed, published,
          last_sequence seen = 5, last_speed seen = 99, unsubscribed, detached])"

section \<open>A call of the second method\<close>

context vehicle_backend
begin

lemma cruise_call:
  assumes "av_methods (view w) (method_key i 3) = Some (SetCruiseSpeedClosure this)"
    and "HandleSetCruiseSpeed (impl this) request (av_user (view w)) = (response, u)"
  obtains w' where "SetCruiseSpeed \<lparr> cc_runtime = Some rt, cc_instance_id = i \<rparr> request w = (response, w')"
    and "view w' = (view w)\<lparr> av_user := u \<rparr>"
proof -
  let ?req = "serialize serialize_SetCruiseSpeedRequest request"
  let ?resp = "serialize serialize_SetCruiseSpeedResponse response"
  have "run_vehicle_method impl (SetCruiseSpeedClosure this) ?req [] (av_user (view w)) = (True, ?resp, u)"
    using assms by (simp add: SetCruiseSpeedRequest.round_trip)
  from run_registered [OF assms(1) this] obtain w' where
    w': "InvokeMethod rt (method_key i 3) ?req [] w = (True, ?resp, w')" "view w' = (view w)\<lparr> av_user := u \<rparr>" .
  with that [of w'] show thesis by (simp add: SetCruiseSpeed_def SetCruiseSpeedResponse.round_trip)
qed

end

section \<open>Property\<close>

text \<open>Every assertion of the framework's test holds, whatever values the uninitialised fields of its
  event happen to have: the service is attached and discovered, both of its methods answer, the event
  reaches the client, and everything can be taken back.\<close>

theorem framework_test_passes:
  "framework_test_main rpm door = replicate 12 True"
proof -
  let ?rt = "mock_runtime test_vehicle_impl"
  let ?w = "\<lparr> mock_offered = Map.empty, mock_methods = Map.empty, mock_events = Map.empty,
      mock_user = \<lparr> last_sequence = 0, last_speed = 0 \<rparr> \<rparr>"
  let ?app = "new_VehicleNodeApplication (Some ?rt)"
  let ?app1 = "?app\<lparr> app_service_instance := Some 0 \<rparr>"
  let ?store = "(\<lambda>_. \<lparr> svc_runtime = None, svc_instance_id = 0 \<rparr>)"
  let ?store1 = "?store(0 := AttachRuntime (Some ?rt) 1 (?store 0))"
  let ?client = "\<lparr> cl_runtime = Some ?rt, cl_instance_id = 1 \<rparr>"
  let ?request = "\<lparr> gi_requestId = 7, gi_targetVin = ''VIN-123'' \<rparr>"
  let ?event = "\<lparr> vic_eventSequence = 5, vic_status = zero_status\<lparr> speedKph := 99, engineRpm := rpm, doorOpen := door \<rparr> \<rparr>"
  obtain w1 where a: "AttachVehicleInfoService (Some 0) ?app ?store ?w = (True, ?app1, ?store1, w1)"
    and v1: "mock_view w1 = vehicle_registered 0 (mock_view ?w)"
    using mock_vehicle.attach [of ?app test_vehicle_impl 0 ?store ?w]
    by (auto simp: mock_runtime_def new_VehicleNodeApplication_def)
  obtain w2 where d: "client_Discover ?client w1 = (True, w2)" and v2: "mock_view w2 = mock_view w1"
    using mock_vehicle.op_view(3) [of test_vehicle_impl "svc_key 1" w1] v1
    by (auto simp: client_Discover_def mock_runtime_def vehicle_registered_def)
  have m: "av_methods (mock_view w2) (method_key 1 1) = Some (GetVehicleInfoClosure 0)"
    "av_methods (mock_view w2) (method_key 1 3) = Some (SetCruiseSpeedClosure 0)"
    unfolding v2 v1 by (simp_all add: vehicle_registered_def method_key_def)
  let ?response = "\<lparr> gir_requestId = 7, gir_status =
      zero_status\<lparr> vin := ''VIN-123'', speedKph := 88, engineRpm := 2300, doorOpen := False \<rparr> \<rparr>"
  have "GetVehicleInfoRequest_ok ?request" "GetVehicleInfoResponse_ok ?response" "VehicleInfoChangedEvent_ok ?event"
    by (simp_all add: GetVehicleInfoRequest_ok_def GetVehicleInfoResponse_ok_def VehicleInfoChangedEvent_ok_def
        VehicleStatus_ok_def zero_status_def)
  note ok = this
  obtain w3 where g: "GetVehicleInfo ?client ?request w2 = (?response, w3)"
    and v3: "mock_view w3 = (mock_view w2)\<lparr> av_user := av_user (mock_view w2) \<rparr>"
    using mock_vehicle.call [OF m(1) ok(1), of test_vehicle_impl ?response "av_user (mock_view w2)"] ok(2)
    by (auto simp: test_vehicle_impl_def mock_runtime_def)
  have m3: "av_methods (mock_view w3) (method_key 1 3) = Some (SetCruiseSpeedClosure 0)" using m(2) v3 by simp
  obtain w4 where c: "SetCruiseSpeed \<lparr> cc_runtime = Some ?rt, cc_instance_id = 1 \<rparr> \<lparr> targetSpeedKph = 100 \<rparr> w3
      = (\<lparr> accepted = True \<rparr>, w4)"
    and v4: "mock_view w4 = (mock_view w3)\<lparr> av_user := av_user (mock_view w3) \<rparr>"
    using mock_vehicle.cruise_call [OF m3, of test_vehicle_impl "\<lparr> targetSpeedKph = 100 \<rparr>" "\<lparr> accepted = True \<rparr>"
        "av_user (mock_view w3)"]
    by (auto simp: test_vehicle_impl_def mock_runtime_def)
  obtain w5 where s: "SubscribeVehicleInfoChanged 1 ?client w4 = (True, w5)"
    and v5: "mock_view w5 = (mock_view w4)\<lparr> av_events :=
        (av_events (mock_view w4))(event_key 1 := Some (VehicleInfoChangedClosure 1)) \<rparr>"
    using mock_vehicle.op_view(6) [of test_vehicle_impl "event_key 1" "VehicleInfoChangedClosure 1" w4]
    by (auto simp: SubscribeVehicleInfoChanged_def mock_runtime_def)
  have "av_events (mock_view w5) (event_key 1) = Some (VehicleInfoChangedClosure 1)" using v5 by simp
  then obtain w6 where p: "PublishVehicleInfoChanged \<lparr> svc_runtime = Some ?rt, svc_instance_id = 1 \<rparr> ?event w5 = (True, w6)"
    and v6: "mock_view w6 = (mock_view w5)\<lparr> av_user :=
        OnVehicleInfoChanged (test_vehicle_impl 1) ?event (av_user (mock_view w5)) \<rparr>"
    using mock_vehicle.publish_subscribed [of w5 1 1 test_vehicle_impl ?event] ok(3)
    by (auto simp: mock_runtime_def)
  have seen: "mock_user w6 = \<lparr> last_sequence = 5, last_speed = 99 \<rparr>"
    using arg_cong [OF v6, of av_user] by (simp add: mock_view_def test_vehicle_impl_def)
  obtain w7 where u: "UnsubscribeVehicleInfoChanged ?client w6 = (True, w7)"
    using mock_vehicle.op_view(7) [of test_vehicle_impl "event_key 1" w6]
    by (auto simp: UnsubscribeVehicleInfoChanged_def mock_runtime_def)
  have own: "app_service_instance ?app1 = Some 0" "svc_instance_id (?store1 0) = 1"
    "svc_runtime (?store1 0) = Some \<lparr> rt_backend = Some (MockBackend (run_vehicle_method test_vehicle_impl)
       (run_vehicle_event test_vehicle_impl)) \<rparr>"
    by (simp_all add: AttachRuntime_def mock_runtime_def)
  obtain w8 where t: "DetachVehicleInfoService ?app1 ?store1 w7
      = (True, ?app1\<lparr> app_service_instance := None \<rparr>, w8)"
    using mock_vehicle.detach [where store = ?store1 and w = w7, OF own(1,3,2)] .
  have clients: "CreateVehicleInfoClientMain ?app1 = ?client"
    "CreateCruiseControlClientMain ?app1 = \<lparr> cc_runtime = Some ?rt, cc_instance_id = 1 \<rparr>"
    by (simp_all add: CreateVehicleInfoClientMain_def CreateCruiseControlClientMain_def new_VehicleNodeApplication_def)
  have svc: "?store1 0 = \<lparr> svc_runtime = Some ?rt, svc_instance_id = 1 \<rparr>" by (simp add: AttachRuntime_def)
  have twelve: "replicate 12 True = [True, True, True, True, True, True, True, True, True, True, True, True]"
    by (simp add: numeral_eq_Suc)
  show ?thesis
    unfolding framework_test_main_def Let_def a d g c s p u t clients svc prod.case twelve seen by simp
qed

end
