(* ===== verification/Params_Test.thy ===== *)
theory Params_Test
  imports Vehicle_Params
begin

text \<open>
  The test program of the generated types (\<open>test_generated_params.cpp\<close>), one function for each of its
  tests, from the contents of the uninitialised objects it decodes into to the values of its
  assertions. Floats are their 32 bits, and the test's tolerance is equality of the bits here, which is
  stronger for the four finite numbers of the test.
\<close>

section \<open>The tests\<close>

definition makeWheel :: "u8 \<Rightarrow> u16 \<Rightarrow> u16 \<Rightarrow> WheelInfo" where
  "makeWheel i pressure temp = \<lparr> wheelId = i, pressureKpa = pressure, temperatureC = temp \<rparr>"

definition makeStatus :: VehicleStatus where
  "makeStatus = \<lparr> vin = ''LINUX-SOMEIP-0001'', speedKph = 88, engineRpm = 2450, doorOpen = True,
     wheels = [makeWheel 0 235 35, makeWheel 1 236 34, makeWheel 2 237 36, makeWheel 3 234 33],
     accelHistory = [0x3DCCCCCD, 0x3E4CCCCD, 0xBE99999A, 0x3FC00000] \<rparr>"

definition testRequestRoundTrip :: "GetVehicleStatusRequest \<Rightarrow> bool list" where
  "testRequestRoundTrip parsed =
     (let req = \<lparr> gs_requestId = 0x01020304, gs_targetVin = ''VIN123'' \<rparr>;
          bytes = serialize serialize_GetVehicleStatusRequest req;
          (ok, parsed) = deserialize read_GetVehicleStatusRequest parsed bytes
      in [bytes \<noteq> [], ok, gs_requestId parsed = gs_requestId req, gs_targetVin parsed = gs_targetVin req])"

definition testResponseRoundTrip :: "GetVehicleStatusResponse \<Rightarrow> bool list" where
  "testResponseRoundTrip parsed =
     (let resp = \<lparr> gsr_requestId = 42, gsr_status = makeStatus \<rparr>;
          bytes = serialize serialize_GetVehicleStatusResponse resp;
          (ok, parsed) = deserialize read_GetVehicleStatusResponse parsed bytes;
          p = gsr_status parsed; r = gsr_status resp
      in [bytes \<noteq> [], ok, gsr_requestId parsed = gsr_requestId resp, vin p = vin r, speedKph p = speedKph r,
          engineRpm p = engineRpm r, doorOpen p = doorOpen r, length (wheels p) = length (wheels r),
          length (accelHistory p) = length (accelHistory r)]
         @ map (\<lambda>(a, b). wheelId a = wheelId b \<and> pressureKpa a = pressureKpa b \<and> temperatureC a = temperatureC b)
             (zip (wheels p) (wheels r))
         @ map (\<lambda>(a, b). a = b) (zip (accelHistory p) (accelHistory r)))"

definition testEventRoundTripAndTrailingBytesReject :: "VehicleStatusEvent \<Rightarrow> VehicleStatusEvent \<Rightarrow> bool list" where
  "testEventRoundTripAndTrailingBytesReject parsed shouldFail =
     (let evt = \<lparr> vse_eventSequence = 7, vse_status = makeStatus \<rparr>;
          bytes = serialize serialize_VehicleStatusEvent evt;
          (ok, parsed) = deserialize read_VehicleStatusEvent parsed bytes
      in [bytes \<noteq> [], ok, vse_eventSequence parsed = vse_eventSequence evt,
          vin (vse_status parsed) = vin (vse_status evt),
          \<not> fst (deserialize read_VehicleStatusEvent shouldFail (bytes @ [0xAA] @ [0xBB]))])"

definition testTruncatedPayloadReject :: "GetVehicleStatusResponse \<Rightarrow> bool list" where
  "testTruncatedPayloadReject parsed =
     (let resp = \<lparr> gsr_requestId = 9, gsr_status = makeStatus \<rparr>;
          bytes = serialize serialize_GetVehicleStatusResponse resp
      in [length bytes > 5, \<not> fst (deserialize read_GetVehicleStatusResponse parsed (butlast bytes))])"

definition testArrayLengthOverflowProtection :: "WheelInfo \<Rightarrow> bool list" where
  "testArrayLengthOverflowProtection filler =
     (let s = makeStatus\<lparr> wheels := wheels makeStatus @ replicate (300 - length (wheels makeStatus)) filler \<rparr>
      in [\<not> fst (serialize_VehicleStatus s [])])"

definition params_test_main ::
    "GetVehicleStatusRequest \<Rightarrow> GetVehicleStatusResponse \<Rightarrow> VehicleStatusEvent \<Rightarrow> WheelInfo \<Rightarrow> bool list" where
  "params_test_main req resp evt filler =
     testRequestRoundTrip req @ testResponseRoundTrip resp @ testEventRoundTripAndTrailingBytesReject evt evt
       @ testTruncatedPayloadReject resp @ testArrayLengthOverflowProtection filler"

section \<open>Property\<close>

lemma makeStatus_ok: "VehicleStatus_ok makeStatus"
  by (simp add: VehicleStatus_ok_def makeStatus_def)

text \<open>Every assertion of the test of the generated types holds, whatever the objects it decodes into
  contained before.\<close>

theorem params_test_passes:
  "list_all (\<lambda>b. b) (params_test_main req resp evt filler)"
proof -
  let ?req = "\<lparr> gs_requestId = 0x01020304, gs_targetVin = ''VIN123'' \<rparr>"
  let ?resp = "\<lambda>i. \<lparr> gsr_requestId = i, gsr_status = makeStatus \<rparr>"
  let ?evt = "\<lparr> vse_eventSequence = 7, vse_status = makeStatus \<rparr>"
  have ok: "GetVehicleStatusRequest_ok ?req" "GetVehicleStatusResponse_ok (?resp i)" "VehicleStatusEvent_ok ?evt" for i
    using makeStatus_ok
    by (simp_all add: GetVehicleStatusRequest_ok_def GetVehicleStatusResponse_ok_def VehicleStatusEvent_ok_def)
  have bytes: "serialize serialize_GetVehicleStatusRequest ?req \<noteq> []"
    "serialize serialize_GetVehicleStatusResponse (?resp i) \<noteq> []"
    "5 < length (serialize serialize_GetVehicleStatusResponse (?resp i))"
    "serialize serialize_VehicleStatusEvent ?evt \<noteq> []" for i
    using length_be_bytes
    by (simp_all add: GetVehicleStatusRequest.serialize_ok [OF ok(1)] GetVehicleStatusResponse.serialize_ok [OF ok(2)]
        VehicleStatusEvent.serialize_ok [OF ok(3)] image_GetVehicleStatusRequest_def
        image_GetVehicleStatusResponse_def image_VehicleStatusEvent_def image_VehicleStatus_def image_string_def)
  have "list_all (\<lambda>b. b) (testRequestRoundTrip req)"
    unfolding testRequestRoundTrip_def Let_def GetVehicleStatusRequest.round_trip [OF ok(1)] by (simp add: bytes)
  moreover have "list_all (\<lambda>b. b) (testResponseRoundTrip resp)"
    unfolding testResponseRoundTrip_def Let_def GetVehicleStatusResponse.round_trip [OF ok(2)]
    by (auto simp: bytes list_all_iff zip_same_conv_map)
  moreover have "\<not> fst (deserialize read_VehicleStatusEvent evt
      (serialize serialize_VehicleStatusEvent ?evt @ [0xAA] @ [0xBB]))"
    unfolding VehicleStatusEvent.serialize_ok [OF ok(3)] by (rule VehicleStatusEvent.refuses_longer [OF ok(3)]) simp
  then have "list_all (\<lambda>b. b) (testEventRoundTripAndTrailingBytesReject evt evt)"
    unfolding testEventRoundTripAndTrailingBytesReject_def Let_def VehicleStatusEvent.round_trip [OF ok(3)]
    by (simp add: bytes)
  moreover have "\<not> fst (deserialize read_GetVehicleStatusResponse resp
      (butlast (serialize serialize_GetVehicleStatusResponse (?resp 9))))"
    by (rule GetVehicleStatusResponse.refuses_shorter [where x = "?resp 9" and
        rest = "[last (serialize serialize_GetVehicleStatusResponse (?resp 9))]", OF ok(2)])
      (use bytes(2) [of 9] in \<open>simp_all add: GetVehicleStatusResponse.serialize_ok [OF ok(2)] del: One_nat_def\<close>)
  then have "list_all (\<lambda>b. b) (testTruncatedPayloadReject resp)"
    unfolding testTruncatedPayloadReject_def Let_def by (simp add: bytes)
  moreover have "list_all (\<lambda>b. b) (testArrayLengthOverflowProtection filler)"
    by (simp add: testArrayLengthOverflowProtection_def Let_def VehicleStatus.refuses VehicleStatus_ok_def makeStatus_def)
  ultimately show ?thesis by (simp add: params_test_main_def)
qed

end
