(* ===== verification/Gen_Idl.thy ===== *)
theory Gen_Idl
  imports Prelude Complex_Main "HOL-Library.Sublist"
begin

text \<open>
  The front end of the generator of the parameter types (\<open>generate_someip_params.py\<close>): from the
  JSON documents of an interface description to its field and type definitions. Finding the files
  and \<open>json.loads\<close> are library code, so the documents are values of \<open>json\<close>. A value that is no
  string where the code expects one is treated as Python treats it, with the exception Python raises.
  Strings are lists of code points below 256.
\<close>

section \<open>JSON values in Python\<close>

datatype json =
    JNull
  | JBool bool
  | JNum rat
  | JStr string
  | JList "json list"
  | JDict "(string \<times> json) list"

text \<open>Truth, equality (a \<open>bool\<close> is an \<open>int\<close>), hashability, and \<open>dict.get\<close> with a default.\<close>

fun truthy :: "json \<Rightarrow> bool" where
  "truthy JNull = False"
| "truthy (JBool b) = b"
| "truthy (JNum q) = (q \<noteq> 0)"
| "truthy (JStr s) = (s \<noteq> [])"
| "truthy (JList xs) = (xs \<noteq> [])"
| "truthy (JDict d) = (d \<noteq> [])"

fun py_eq :: "json \<Rightarrow> json \<Rightarrow> bool" where
  "py_eq JNull JNull = True"
| "py_eq (JBool a) (JBool b) = (a = b)"
| "py_eq (JBool a) (JNum q) = (q = of_bool a)"
| "py_eq (JNum p) (JBool b) = (p = of_bool b)"
| "py_eq (JNum p) (JNum q) = (p = q)"
| "py_eq (JStr s) (JStr t) = (s = t)"
| "py_eq (JList xs) (JList ys) = list_all2 py_eq xs ys"
| "py_eq (JDict d) (JDict e) =
     (length d = length e
      \<and> list_all (\<lambda>(k, v). case map_of e k of None \<Rightarrow> False | Some w \<Rightarrow> py_eq v w) d)"
| "py_eq _ _ = False"

fun hashable :: "json \<Rightarrow> bool" where
  "hashable (JList xs) = False"
| "hashable (JDict d) = False"
| "hashable _ = True"

definition dict_get :: "(string \<times> json) list \<Rightarrow> string \<Rightarrow> json \<Rightarrow> json" where
  "dict_get d k v = (case map_of d k of None \<Rightarrow> v | Some w \<Rightarrow> w)"

section \<open>Errors\<close>

datatype idl_error =
    FieldIncomplete string
  | NotIdentifier json
  | ArrayWithoutElement string
  | UnknownElement string
  | BadLengthType string
  | BadStringLength string
  | UnknownType string
  | NamespaceMismatch json json
  | NotAnArray string
  | NameMissing
  | DuplicateName string
  | FieldsEmpty string
  | PyTypeError
  | PyAttributeError
  | PyAssertionError

type_synonym 'a parsed = "idl_error + 'a"

definition bindE :: "'a parsed \<Rightarrow> ('a \<Rightarrow> 'b parsed) \<Rightarrow> 'b parsed" where
  "bindE m f = (case m of Inl e \<Rightarrow> Inl e | Inr x \<Rightarrow> f x)"

primrec foldE :: "('s \<Rightarrow> 'a \<Rightarrow> 's parsed) \<Rightarrow> 's \<Rightarrow> 'a list \<Rightarrow> 's parsed" where
  "foldE f s [] = Inr s"
| "foldE f s (x # xs) = bindE (f s x) (\<lambda>s'. foldE f s' xs)"

primrec mapE :: "('a \<Rightarrow> 'b parsed) \<Rightarrow> 'a list \<Rightarrow> 'b list parsed" where
  "mapE f [] = Inr []"
| "mapE f (x # xs) = bindE (f x) (\<lambda>y. bindE (mapE f xs) (\<lambda>ys. Inr (y # ys)))"

lemma bindE_simps [simp]: "bindE (Inl e) f = Inl e" "bindE (Inr x) f = f x"
  by (simp_all add: bindE_def)

lemma bindE_Inr: "bindE m f = Inr y \<longleftrightarrow> (\<exists>x. m = Inr x \<and> f x = Inr y)"
  by (cases m) auto

lemma mapE_Inr: "mapE f xs = Inr ys \<longleftrightarrow> list_all2 (\<lambda>x y. f x = Inr y) xs ys"
  by (induction xs arbitrary: ys) (auto simp: bindE_Inr list_all2_Cons1)

lemma foldE_append: "foldE f s (xs @ ys) = bindE (foldE f s xs) (\<lambda>s'. foldE f s' ys)"
  by (induction xs arbitrary: s) (auto simp: bindE_def split: sum.split)

text \<open>An invariant of a fold of fallible steps.\<close>

lemma foldE_invariant:
  assumes "foldE f s xs = Inr t" and "I s" and "\<And>s x t. x \<in> set xs \<Longrightarrow> I s \<Longrightarrow> f s x = Inr t \<Longrightarrow> I t"
  shows "I t"
  using assms by (induction xs arbitrary: s) (auto simp: bindE_Inr)

section \<open>Definitions of an interface description\<close>

definition PRIMITIVE_CPP_TYPES :: "(string \<times> string) list" where
  "PRIMITIVE_CPP_TYPES =
    [(''u8'', ''std::uint8_t''),
     (''u16'', ''std::uint16_t''),
     (''u32'', ''std::uint32_t''),
     (''u64'', ''std::uint64_t''),
     (''i8'', ''std::int8_t''),
     (''i16'', ''std::int16_t''),
     (''i32'', ''std::int32_t''),
     (''i64'', ''std::int64_t''),
     (''f32'', ''float''),
     (''f64'', ''double''),
     (''bool'', ''bool''),
     (''string'', ''std::string'')]"

definition LENGTH_TYPES :: "string list" where
  "LENGTH_TYPES = [''u8'', ''u16'', ''u32'']"

definition is_primitive :: "string \<Rightarrow> bool" where
  "is_primitive t \<longleftrightarrow> t \<in> set (map fst PRIMITIVE_CPP_TYPES)"

datatype field_kind = Kprimitive | Kcustom | Karray

record FieldDef =
  fd_name :: string
  fd_kind :: field_kind
  fd_type_name :: "string option"
  fd_element_type :: "string option"
  fd_length_type :: json

record TypeDef =
  td_name :: string
  td_fields :: "FieldDef list"
  td_category :: string

section \<open>Identifiers\<close>

text \<open>\<open>str.isalnum\<close> and \<open>str.isdigit\<close> on code points below 256.\<close>

definition alnum_char :: "char \<Rightarrow> bool" where
  "alnum_char c = (let n = of_char c :: nat in
     48 \<le> n \<and> n \<le> 57 \<or> 65 \<le> n \<and> n \<le> 90 \<or> 97 \<le> n \<and> n \<le> 122
     \<or> n \<in> {170, 178, 179, 181, 185, 186, 188, 189, 190}
     \<or> 192 \<le> n \<and> n \<le> 214 \<or> 216 \<le> n \<and> n \<le> 246 \<or> 248 \<le> n)"

definition digit_code_point :: "char \<Rightarrow> bool" where
  "digit_code_point c = (let n = of_char c :: nat in 48 \<le> n \<and> n \<le> 57 \<or> n \<in> {178, 179, 185})"

definition isalnum :: "string \<Rightarrow> bool" where
  "isalnum s \<longleftrightarrow> s \<noteq> [] \<and> list_all alnum_char s"

definition valid_identifier :: "string \<Rightarrow> bool" where
  "valid_identifier s \<longleftrightarrow> s \<noteq> [] \<and> isalnum (map (\<lambda>c. if c = CHR ''_'' then CHR ''a'' else c) s)
     \<and> \<not> digit_code_point (hd s)"

definition must_be_identifier :: "json \<Rightarrow> string parsed" where
  "must_be_identifier name =
     (if \<not> truthy name then Inl (NotIdentifier name)
      else case name of
        JStr s \<Rightarrow> if valid_identifier s then Inr s else Inl (NotIdentifier name)
      | _ \<Rightarrow> Inl PyAttributeError)"

section \<open>Fields\<close>

text \<open>\<open>k in raw\<close> and \<open>raw[k]\<close> for a string \<open>k\<close>.\<close>

fun py_contains :: "string \<Rightarrow> json \<Rightarrow> bool parsed" where
  "py_contains k (JDict d) = Inr (k \<in> set (map fst d))"
| "py_contains k (JStr s) = Inr (sublist k s)"
| "py_contains k (JList xs) = Inr (list_ex (\<lambda>x. py_eq x (JStr k)) xs)"
| "py_contains k _ = Inl PyTypeError"

text \<open>\<open>x in D\<close> for a \<open>dict\<close> or a \<open>set\<close> of strings.\<close>

definition in_strings :: "json \<Rightarrow> (string \<Rightarrow> bool) \<Rightarrow> bool parsed" where
  "in_strings x D = (if \<not> hashable x then Inl PyTypeError else Inr (case x of JStr s \<Rightarrow> D s | _ \<Rightarrow> False))"

definition parse_array_field ::
    "(string \<times> json) list \<Rightarrow> (string \<Rightarrow> bool) \<Rightarrow> string \<Rightarrow> FieldDef parsed" where
  "parse_array_field d known field_name =
     (let elem = dict_get d ''elementType'' JNull in
      if \<not> truthy elem then Inl (ArrayWithoutElement field_name)
      else bindE (in_strings elem (\<lambda>s. is_primitive s \<or> known s)) (\<lambda>known_elem.
        if \<not> known_elem then Inl (UnknownElement field_name)
        else let length_type = dict_get d ''lengthType'' (JStr ''u32'') in
          bindE (in_strings length_type (\<lambda>s. s \<in> set LENGTH_TYPES)) (\<lambda>ok.
            if \<not> ok then Inl (BadLengthType field_name)
            else Inr \<lparr> fd_name = field_name, fd_kind = Karray, fd_type_name = None,
                       fd_element_type = (case elem of JStr e \<Rightarrow> Some e | _ \<Rightarrow> None),
                       fd_length_type = length_type \<rparr>)))"

definition parse_named_field ::
    "(string \<times> json) list \<Rightarrow> (string \<Rightarrow> bool) \<Rightarrow> string \<Rightarrow> json \<Rightarrow> FieldDef parsed" where
  "parse_named_field d known field_name ftype =
     bindE (in_strings ftype is_primitive) (\<lambda>prim.
       if prim then
         (let length_type = dict_get d ''lengthType'' (JStr ''u32'') in
          bindE (if ftype = JStr ''string'' then in_strings length_type (\<lambda>s. s \<in> set LENGTH_TYPES) else Inr True)
            (\<lambda>ok. if \<not> ok then Inl (BadStringLength field_name)
              else Inr \<lparr> fd_name = field_name, fd_kind = Kprimitive,
                         fd_type_name = (case ftype of JStr t \<Rightarrow> Some t | _ \<Rightarrow> None),
                         fd_element_type = None, fd_length_type = length_type \<rparr>))
       else bindE (in_strings ftype known) (\<lambda>custom.
         if custom then
           Inr \<lparr> fd_name = field_name, fd_kind = Kcustom,
                 fd_type_name = (case ftype of JStr t \<Rightarrow> Some t | _ \<Rightarrow> None),
                 fd_element_type = None, fd_length_type = JStr ''u32'' \<rparr>
         else Inl (UnknownType field_name)))"

definition parse_field :: "json \<Rightarrow> (string \<Rightarrow> bool) \<Rightarrow> string \<Rightarrow> FieldDef parsed" where
  "parse_field raw known context =
     bindE (py_contains ''name'' raw) (\<lambda>has_name.
     bindE (if has_name then py_contains ''type'' raw else Inr False) (\<lambda>complete.
       if \<not> complete then Inl (FieldIncomplete context)
       else case raw of
         JDict d \<Rightarrow>
           bindE (must_be_identifier (dict_get d ''name'' JNull)) (\<lambda>field_name.
             let ftype = dict_get d ''type'' JNull in
             if ftype = JStr ''array'' then parse_array_field d known field_name
             else parse_named_field d known field_name ftype)
       | _ \<Rightarrow> Inl PyTypeError))"

section \<open>Documents\<close>

text \<open>The state of the loop over the files: the namespace, \<open>JNull\<close> for \<open>None\<close>; the definitions whose fields
  are not yet parsed, with category and name; and the known names.\<close>

record idl_state =
  is_namespace :: json
  is_pending :: "(string \<times> string \<times> json list) list"
  is_known :: "string list"

definition collect_item :: "string \<Rightarrow> idl_state \<Rightarrow> json \<Rightarrow> idl_state parsed" where
  "collect_item category st item =
     (case item of
        JDict d \<Rightarrow>
          (let name = dict_get d ''name'' JNull in
           if \<not> truthy name then Inl NameMissing
           else bindE (must_be_identifier name) (\<lambda>n.
             if n \<in> set (is_known st) then Inl (DuplicateName n)
             else case dict_get d ''fields'' (JList []) of
                 JList (f # fs) \<Rightarrow>
                   Inr (st\<lparr> is_known := n # is_known st, is_pending := is_pending st @ [(category, n, f # fs)] \<rparr>)
               | _ \<Rightarrow> Inl (FieldsEmpty n)))
      | _ \<Rightarrow> Inl PyAttributeError)"

definition collect_items :: "string \<Rightarrow> json \<Rightarrow> idl_state \<Rightarrow> idl_state parsed" where
  "collect_items category items st =
     (case items of JList xs \<Rightarrow> foldE (collect_item category) st xs | _ \<Rightarrow> Inl (NotAnArray category))"

definition collect_file :: "idl_state \<Rightarrow> json \<Rightarrow> idl_state parsed" where
  "collect_file st data =
     (case data of
        JDict d \<Rightarrow>
          (let ns = dict_get d ''namespace'' (JStr ''someip::generated'') in
           bindE (if is_namespace st = JNull then Inr (st\<lparr> is_namespace := ns \<rparr>)
                  else if \<not> py_eq ns (is_namespace st) then Inl (NamespaceMismatch ns (is_namespace st))
                  else Inr st)
             (\<lambda>st. bindE (collect_items ''type'' (dict_get d ''types'' (JList [])) st)
               (collect_items ''message'' (dict_get d ''messages'' (JList [])))))
      | _ \<Rightarrow> Inl PyAttributeError)"

definition parse_pending :: "string list \<Rightarrow> string \<times> string \<times> json list \<Rightarrow> TypeDef parsed" where
  "parse_pending known p =
     (case p of (category, name, raw_fields) \<Rightarrow>
        bindE (mapE (\<lambda>field. parse_field field (\<lambda>s. s \<in> set known) name) raw_fields)
          (\<lambda>fields. Inr \<lparr> td_name = name, td_fields = fields, td_category = category \<rparr>))"

definition parse_idl_sources :: "json list \<Rightarrow> (json \<times> TypeDef list) parsed" where
  "parse_idl_sources files =
     bindE (foldE collect_file \<lparr> is_namespace = JNull, is_pending = [], is_known = [] \<rparr> files) (\<lambda>st.
       if is_namespace st = JNull then Inl PyAssertionError
       else bindE (mapE (parse_pending (is_known st)) (is_pending st))
              (\<lambda>types. Inr (is_namespace st, types)))"

section \<open>What the parser accepts\<close>

text \<open>A field that a header can be generated for.\<close>

definition length_ok :: "FieldDef \<Rightarrow> bool" where
  "length_ok f \<longleftrightarrow> (\<exists>l \<in> set LENGTH_TYPES. fd_length_type f = JStr l)"

definition field_wf :: "(string \<Rightarrow> bool) \<Rightarrow> FieldDef \<Rightarrow> bool" where
  "field_wf known f \<longleftrightarrow> valid_identifier (fd_name f) \<and>
     (case fd_kind f of
        Kprimitive \<Rightarrow> fd_element_type f = None
          \<and> (case fd_type_name f of None \<Rightarrow> False | Some t \<Rightarrow> is_primitive t \<and> (t = ''string'' \<longrightarrow> length_ok f))
      | Kcustom \<Rightarrow> fd_element_type f = None \<and> fd_length_type f = JStr ''u32''
          \<and> (case fd_type_name f of None \<Rightarrow> False | Some t \<Rightarrow> known t \<and> \<not> is_primitive t \<and> t \<noteq> ''array'')
      | Karray \<Rightarrow> fd_type_name f = None \<and> length_ok f
          \<and> (case fd_element_type f of None \<Rightarrow> False | Some e \<Rightarrow> e \<noteq> [] \<and> (is_primitive e \<or> known e)))"

definition type_wf :: "(string \<Rightarrow> bool) \<Rightarrow> TypeDef \<Rightarrow> bool" where
  "type_wf known t \<longleftrightarrow> valid_identifier (td_name t) \<and> td_fields t \<noteq> []
     \<and> list_all (field_wf known) (td_fields t) \<and> td_category t \<in> {''type'', ''message''}"

definition idl_wf :: "TypeDef list \<Rightarrow> bool" where
  "idl_wf types \<longleftrightarrow> distinct (map td_name types)
     \<and> list_all (type_wf (\<lambda>s. s \<in> set (map td_name types))) types"

lemma in_strings_Inr: "in_strings x D = Inr b \<longleftrightarrow> hashable x \<and> b = (case x of JStr s \<Rightarrow> D s | _ \<Rightarrow> False)"
  by (auto simp: in_strings_def)

lemma in_strings_True: "in_strings x D = Inr True \<longleftrightarrow> (\<exists>s. x = JStr s \<and> D s)"
  by (cases x) (auto simp: in_strings_def)

lemma must_be_identifier_Inr: "must_be_identifier j = Inr s \<longleftrightarrow> j = JStr s \<and> valid_identifier s"
  by (cases j) (auto simp: must_be_identifier_def valid_identifier_def)

lemmas parse_Inr = bindE_Inr in_strings_Inr in_strings_True must_be_identifier_Inr

lemma not_primitive_array: "\<not> is_primitive ''array''"
  by (simp add: is_primitive_def PRIMITIVE_CPP_TYPES_def)

lemma parse_array_field_wf:
  "parse_array_field d known x = Inr f \<Longrightarrow> valid_identifier x \<Longrightarrow> field_wf known f"
  by (auto simp: parse_array_field_def parse_Inr Let_def field_wf_def length_ok_def
      split: if_splits json.splits)

lemma parse_named_field_wf:
  "parse_named_field d known x ftype = Inr f \<Longrightarrow> ftype \<noteq> JStr ''array'' \<Longrightarrow> valid_identifier x \<Longrightarrow> field_wf known f"
  by (auto simp: parse_named_field_def parse_Inr Let_def field_wf_def length_ok_def split: if_splits json.splits)

lemma parse_field_wf: "parse_field raw known context = Inr f \<Longrightarrow> field_wf known f"
  by (auto simp: parse_field_def parse_Inr Let_def split: if_splits json.splits
      intro: parse_array_field_wf parse_named_field_wf)

text \<open>Every accepted definition: the names collected so far are those of the pending definitions.\<close>

definition pending_ok :: "idl_state \<Rightarrow> bool" where
  "pending_ok st \<longleftrightarrow> distinct (map (fst \<circ> snd) (is_pending st))
     \<and> set (is_known st) = set (map (fst \<circ> snd) (is_pending st))
     \<and> (\<forall>(c, n, fs) \<in> set (is_pending st). c \<in> {''type'', ''message''} \<and> valid_identifier n \<and> fs \<noteq> [])"

lemma collect_item_Inr:
  assumes "collect_item category st item = Inr st'"
  shows "\<exists>n f fs. valid_identifier n \<and> n \<notin> set (is_known st)
     \<and> st' = st\<lparr> is_known := n # is_known st, is_pending := is_pending st @ [(category, n, f # fs)] \<rparr>"
proof -
  from assms obtain d where d: "item = JDict d" by (auto simp: collect_item_def split: json.split_asm)
  from assms obtain n where n: "valid_identifier n" "n \<notin> set (is_known st)"
    and st': "(case dict_get d ''fields'' (JList []) of
        JList (f # fs) \<Rightarrow>
          Inr (st\<lparr> is_known := n # is_known st, is_pending := is_pending st @ [(category, n, f # fs)] \<rparr>)
      | _ \<Rightarrow> Inl (FieldsEmpty n)) = Inr st'"
    by (auto simp: d collect_item_def parse_Inr Let_def split: if_split_asm)
  from st' obtain f fs where
    "st' = st\<lparr> is_known := n # is_known st, is_pending := is_pending st @ [(category, n, f # fs)] \<rparr>"
    by (auto split: json.split_asm list.split_asm)
  with n show ?thesis by blast
qed

lemma pending_ok_namespace [simp]: "pending_ok (st\<lparr> is_namespace := ns \<rparr>) = pending_ok st"
  by (simp add: pending_ok_def)

lemma collect_item_ok:
  assumes "collect_item category st item = Inr st'" and "pending_ok st" and "category \<in> {''type'', ''message''}"
  shows "pending_ok st'"
proof -
  from collect_item_Inr [OF assms(1)] obtain n f fs where "valid_identifier n" "n \<notin> set (is_known st)"
    "st' = st\<lparr> is_known := n # is_known st, is_pending := is_pending st @ [(category, n, f # fs)] \<rparr>" by blast
  with assms(2,3) show ?thesis unfolding pending_ok_def by simp
qed

lemma collect_items_ok:
  "collect_items category items st = Inr st' \<Longrightarrow> pending_ok st \<Longrightarrow> category \<in> {''type'', ''message''} \<Longrightarrow> pending_ok st'"
  by (auto simp: collect_items_def split: json.splits elim: foldE_invariant intro: collect_item_ok)

lemma collect_file_ok:
  assumes "collect_file st data = Inr st'" and "pending_ok st"
  shows "pending_ok st'"
proof -
  from assms(1) obtain d s1 s2 where "data = JDict d" "s1 = st \<or> (\<exists>ns. s1 = st\<lparr> is_namespace := ns \<rparr>)"
    "collect_items ''type'' (dict_get d ''types'' (JList [])) s1 = Inr s2"
    "collect_items ''message'' (dict_get d ''messages'' (JList [])) s2 = Inr st'"
    by (auto simp: collect_file_def bindE_Inr Let_def split: json.splits if_splits)
  with assms(2) show ?thesis by (metis collect_items_ok insertI1 insertI2 pending_ok_namespace)
qed

lemma parse_pending_wf:
  assumes "parse_pending known p = Inr t" and "p = (c, n, raw)"
    and "c \<in> {''type'', ''message''}" and "valid_identifier n" and "raw \<noteq> []"
  shows "type_wf (\<lambda>s. s \<in> set known) t \<and> td_name t = n"
proof -
  from assms obtain fs where t: "t = \<lparr> td_name = n, td_fields = fs, td_category = c \<rparr>"
    and fs: "list_all2 (\<lambda>r f. parse_field r (\<lambda>s. s \<in> set known) n = Inr f) raw fs"
    by (auto simp: parse_pending_def bindE_Inr mapE_Inr)
  from fs have "list_all (field_wf (\<lambda>s. s \<in> set known)) fs"
    by (auto simp: list_all2_conv_all_nth list_all_length intro: parse_field_wf)
  moreover from fs assms(5) have "fs \<noteq> []" by auto
  ultimately show ?thesis using assms t by (simp add: type_wf_def)
qed

lemma accepted_idl_wf:
  assumes "parse_idl_sources files = Inr (ns, types)"
  shows "idl_wf types" and "ns \<noteq> JNull"
proof -
  from assms obtain st where st: "foldE collect_file \<lparr> is_namespace = JNull, is_pending = [], is_known = [] \<rparr> files = Inr st"
    and ns: "ns = is_namespace st" "is_namespace st \<noteq> JNull"
    and types: "list_all2 (\<lambda>p t. parse_pending (is_known st) p = Inr t) (is_pending st) types"
    by (auto simp: parse_idl_sources_def bindE_Inr mapE_Inr split: if_splits)
  have "pending_ok st" using st
  proof (rule foldE_invariant)
    show "pending_ok \<lparr> is_namespace = JNull, is_pending = [], is_known = [] \<rparr>" by (simp add: pending_ok_def)
  qed (rule collect_file_ok)
  then have wf: "type_wf (\<lambda>s. s \<in> set (is_known st)) (types ! i) \<and> td_name (types ! i) = fst (snd (is_pending st ! i))"
    if "i < length types" for i
  proof -
    obtain c n raw where p: "is_pending st ! i = (c, n, raw)" by (rule prod_cases3)
    from that types have i: "i < length (is_pending st)" and
      parsed: "parse_pending (is_known st) (is_pending st ! i) = Inr (types ! i)"
      by (simp_all add: list_all2_conv_all_nth)
    from nth_mem [OF i] \<open>pending_ok st\<close> p
    have "c \<in> {''type'', ''message''} \<and> valid_identifier n \<and> raw \<noteq> []" unfolding pending_ok_def by fastforce
    with parse_pending_wf [OF parsed p] p show ?thesis by simp
  qed
  have names: "map td_name types = map (fst \<circ> snd) (is_pending st)"
    using wf types by (auto simp: list_all2_conv_all_nth intro: nth_equalityI)
  with \<open>pending_ok st\<close> have "distinct (map td_name types)" and "set (is_known st) = set (map td_name types)"
    by (simp_all add: pending_ok_def)
  with wf show "idl_wf types" by (simp add: idl_wf_def list_all_length)
  show "ns \<noteq> JNull" using ns by simp
qed

section \<open>Documents for given definitions\<close>

definition field_json :: "FieldDef \<Rightarrow> json" where
  "field_json f =
     (case fd_kind f of
        Kprimitive \<Rightarrow> JDict [(''name'', JStr (fd_name f)), (''type'', JStr (the (fd_type_name f))),
                             (''lengthType'', fd_length_type f)]
      | Kcustom \<Rightarrow> JDict [(''name'', JStr (fd_name f)), (''type'', JStr (the (fd_type_name f)))]
      | Karray \<Rightarrow> JDict [(''name'', JStr (fd_name f)), (''type'', JStr ''array''),
                         (''elementType'', JStr (the (fd_element_type f))), (''lengthType'', fd_length_type f)])"

definition type_json :: "TypeDef \<Rightarrow> json" where
  "type_json t = JDict [(''name'', JStr (td_name t)), (''fields'', JList (map field_json (td_fields t)))]"

definition of_category :: "string \<Rightarrow> TypeDef list \<Rightarrow> TypeDef list" where
  "of_category c = filter (\<lambda>t. td_category t = c)"

definition document_json :: "string \<Rightarrow> TypeDef list \<Rightarrow> json" where
  "document_json ns types = JDict [(''namespace'', JStr ns),
     (''types'', JList (map type_json (of_category ''type'' types))),
     (''messages'', JList (map type_json (of_category ''message'' types)))]"

text \<open>The parser takes the types of a document before its messages.\<close>

definition in_order :: "TypeDef list \<Rightarrow> TypeDef list" where
  "in_order types = of_category ''type'' types @ of_category ''message'' types"

lemma dict_get_Cons: "dict_get ((k, v) # d) k' w = (if k = k' then v else dict_get d k' w)"
  by (simp add: dict_get_def)

lemma dict_get_Nil: "dict_get [] k w = w"
  by (simp add: dict_get_def)

lemmas dict_get_simps = dict_get_Cons dict_get_Nil

lemma identifier_parsed: "valid_identifier s \<Longrightarrow> must_be_identifier (JStr s) = Inr s"
  by (simp add: must_be_identifier_Inr)

lemma in_strings_JStr [simp]: "in_strings (JStr s) D = Inr (D s)"
  by (simp add: in_strings_def)

lemma parse_field_json: "field_wf known f \<Longrightarrow> parse_field (field_json f) known context = Inr f"
  by (cases f)
    (auto simp: field_wf_def field_json_def parse_field_def parse_array_field_def parse_named_field_def
      dict_get_simps identifier_parsed Let_def length_ok_def not_primitive_array
      split: field_kind.splits option.splits)

definition raw_pending :: "TypeDef \<Rightarrow> string \<times> string \<times> json list" where
  "raw_pending t = (td_category t, td_name t, map field_json (td_fields t))"

lemma collect_type_json:
  assumes "valid_identifier (td_name t)" and "td_name t \<notin> set (is_known st)" and "td_fields t \<noteq> []"
    and "td_category t = c"
  shows "collect_item c st (type_json t)
    = Inr (st\<lparr> is_known := td_name t # is_known st, is_pending := is_pending st @ [raw_pending t] \<rparr>)"
proof -
  from assms(1) have "td_name t \<noteq> []" by (simp add: valid_identifier_def)
  moreover from assms(3) obtain f fs where "td_fields t = f # fs" by (cases "td_fields t") auto
  ultimately show ?thesis using assms
    by (simp add: collect_item_def type_json_def dict_get_simps Let_def identifier_parsed raw_pending_def)
qed

lemma collect_types_json:
  assumes "list_all (\<lambda>t. valid_identifier (td_name t) \<and> td_fields t \<noteq> [] \<and> td_category t = c) types"
    and "distinct (map td_name types)" and "set (map td_name types) \<inter> set (is_known st) = {}"
  shows "foldE (collect_item c) st (map type_json types)
    = Inr (st\<lparr> is_known := rev (map td_name types) @ is_known st,
               is_pending := is_pending st @ map raw_pending types \<rparr>)"
  using assms by (induction types arbitrary: st) (simp_all add: collect_type_json)

lemma collect_category:
  assumes "list_all (type_wf known) types" and "distinct (map td_name types)"
    and "set (map td_name (of_category c types)) \<inter> set (is_known st) = {}"
  shows "collect_items c (JList (map type_json (of_category c types))) st
    = Inr (st\<lparr> is_known := rev (map td_name (of_category c types)) @ is_known st,
               is_pending := is_pending st @ map raw_pending (of_category c types) \<rparr>)"
proof -
  have "list_all (\<lambda>t. valid_identifier (td_name t) \<and> td_fields t \<noteq> [] \<and> td_category t = c) (of_category c types)"
    using assms(1) by (auto simp: of_category_def list_all_iff type_wf_def)
  moreover have "distinct (map td_name (of_category c types))"
    using assms(2) by (auto simp: of_category_def distinct_map inj_on_def)
  ultimately show ?thesis using assms(3) by (simp add: collect_items_def collect_types_json)
qed

lemma collect_document:
  assumes "list_all (type_wf known) types" and "distinct (map td_name types)"
    and "set (map td_name types) \<inter> set (is_known st) = {}" and "is_namespace st \<in> {JNull, JStr ns}"
  shows "collect_file st (document_json ns types)
    = Inr (st\<lparr> is_namespace := JStr ns, is_known := rev (map td_name (in_order types)) @ is_known st,
               is_pending := is_pending st @ map raw_pending (in_order types) \<rparr>)"
proof -
  let ?T = "of_category ''type'' types" and ?M = "of_category ''message'' types"
  let ?st = "st\<lparr> is_namespace := JStr ns \<rparr>"
  let ?st' = "?st\<lparr> is_known := rev (map td_name ?T) @ is_known st, is_pending := is_pending st @ map raw_pending ?T \<rparr>"
  have disj: "set (map td_name ?T) \<inter> set (map td_name ?M) = {}"
  proof (rule Int_emptyI)
    fix n assume "n \<in> set (map td_name ?T)" and "n \<in> set (map td_name ?M)"
    then obtain t m where "t \<in> set types" "m \<in> set types" "td_name t = td_name m"
      "td_category t = ''type''" "td_category m = ''message''" by (auto simp: of_category_def)
    with assms(2) show False by (auto simp: distinct_map inj_on_def)
  qed
  have fresh: "set (map td_name (of_category c types)) \<inter> set (is_known st) = {}" for c
    using assms(3) by (auto simp: of_category_def)
  have ns: "(if is_namespace st = JNull then Inr ?st
      else if \<not> py_eq (JStr ns) (is_namespace st) then Inl (NamespaceMismatch (JStr ns) (is_namespace st)) else Inr st)
    = Inr ?st" using assms(4) by (cases st) (auto simp del: split_paired_All)
  have "collect_items ''type'' (JList (map type_json ?T)) ?st = Inr ?st'"
    using collect_category [OF assms(1,2), of "''type''" ?st] fresh by simp
  then have "collect_items ''type'' (JList (map type_json ?T)) ?st = Inr ?st'" .
  moreover have "collect_items ''message'' (JList (map type_json ?M)) ?st'
    = Inr (?st'\<lparr> is_known := rev (map td_name ?M) @ is_known ?st', is_pending := is_pending ?st' @ map raw_pending ?M \<rparr>)"
  proof (rule collect_category [OF assms(1,2)])
    have "set (is_known ?st') = set (map td_name ?T) \<union> set (is_known st)" by simp
    with disj fresh show "set (map td_name ?M) \<inter> set (is_known ?st') = {}" by blast
  qed
  ultimately show ?thesis
    by (simp add: collect_file_def document_json_def dict_get_simps Let_def ns in_order_def)
qed

lemma collect_documents:
  assumes "list_all (list_all (type_wf known)) docs" and "distinct (map td_name (concat docs))"
    and "set (map td_name (concat docs)) \<inter> set (is_known st) = {}" and "is_namespace st \<in> {JNull, JStr ns}"
    and "docs \<noteq> []"
  shows "foldE collect_file st (map (document_json ns) docs)
    = Inr (st\<lparr> is_namespace := JStr ns, is_known := rev (map td_name (concat (map in_order docs))) @ is_known st,
               is_pending := is_pending st @ map raw_pending (concat (map in_order docs)) \<rparr>)"
  using assms
proof (induction docs arbitrary: st)
  case (Cons doc docs)
  have names: "set (map td_name (in_order doc)) \<subseteq> set (map td_name doc)"
    by (auto simp: in_order_def of_category_def)
  have here: "collect_file st (document_json ns doc)
    = Inr (st\<lparr> is_namespace := JStr ns, is_known := rev (map td_name (in_order doc)) @ is_known st,
               is_pending := is_pending st @ map raw_pending (in_order doc) \<rparr>)"
    by (rule collect_document) (use Cons.prems in auto)
  show ?case
  proof (cases "docs = []")
    case True
    with here show ?thesis by simp
  next
    case False
    have "set (map td_name (concat docs)) \<inter> (set (map td_name doc) \<union> set (is_known st)) = {}"
      using Cons.prems(2,3) by auto
    with names have "set (map td_name (concat docs)) \<inter> (set (map td_name (in_order doc)) \<union> set (is_known st)) = {}"
      by blast
    then have "set (map td_name (concat docs)) \<inter> set (rev (map td_name (in_order doc)) @ is_known st) = {}"
      by simp
    with False Cons.prems(1,2) here show ?thesis by (subst list.map(2), subst foldE.simps(2), subst here) (simp add: Cons.IH)
  qed
qed simp

lemma in_order_same_set: "list_all (type_wf known) types \<Longrightarrow> set (in_order types) = set types"
  by (auto simp: in_order_def of_category_def list_all_iff type_wf_def)

lemma parse_raw_pending:
  assumes "list_all (field_wf (\<lambda>s. s \<in> set known)) (td_fields t)"
  shows "parse_pending known (raw_pending t) = Inr t"
proof -
  have "mapE (\<lambda>field. parse_field field (\<lambda>s. s \<in> set known) (td_name t)) (map field_json (td_fields t)) = Inr (td_fields t)"
    using assms by (auto simp: mapE_Inr list_all2_map1 list_all2_same list_all_iff parse_field_json)
  then show ?thesis by (simp add: parse_pending_def raw_pending_def)
qed

section \<open>Properties\<close>

text \<open>What the parser accepts is well-formed: the type names are distinct identifiers, every type has at
  least one field, every field an identifier for its name, a type that is primitive or defined in one of the
  documents, and a length type where one is needed.\<close>

theorem accepted_idl:
  assumes "parse_idl_sources files = Inr (ns, types)"
  shows "idl_wf types \<and> ns \<noteq> JNull"
  using accepted_idl_wf [OF assms] by simp

definition sample_idl :: "TypeDef list" where
  "sample_idl =
    [\<lparr> td_name = ''Node'',
       td_fields = [\<lparr> fd_name = ''id'', fd_kind = Kprimitive, fd_type_name = Some ''u16'', fd_element_type = None,
                      fd_length_type = JStr ''u32'' \<rparr>,
                    \<lparr> fd_name = ''next'', fd_kind = Karray, fd_type_name = None, fd_element_type = Some ''Node'',
                      fd_length_type = JStr ''u8'' \<rparr>],
       td_category = ''type'' \<rparr>]"

theorem accepted_idl_witness: "idl_wf sample_idl \<and> JStr ''a::b'' \<noteq> JNull"
proof -
  have "parse_idl_sources [document_json ''a::b'' sample_idl] = Inr (JStr ''a::b'', sample_idl)" by code_simp
  then show ?thesis by (rule accepted_idl)
qed

text \<open>The parser accepts every well-formed description, however it is divided into documents, and returns
  its definitions: of each document first the types, then the messages. References may go forward and to
  other documents.\<close>

theorem documents_parsed:
  assumes "idl_wf (concat docs)" and "docs \<noteq> []"
  shows "parse_idl_sources (map (document_json ns) docs) = Inr (JStr ns, concat (map in_order docs))"
proof -
  let ?names = "set (map td_name (concat docs))" and ?all = "concat (map in_order docs)"
  have wf: "list_all (list_all (type_wf (\<lambda>s. s \<in> ?names))) docs"
    using assms(1) by (auto simp: idl_wf_def list_all_iff)
  have "set ?all = (\<Union>doc \<in> set docs. set (in_order doc))" by simp
  also have "\<dots> = (\<Union>doc \<in> set docs. set doc)"
    using wf by (intro SUP_cong refl in_order_same_set [of "\<lambda>s. s \<in> ?names"]) (simp add: list_all_iff)
  finally have same: "set ?all = set (concat docs)" by simp
  let ?known = "rev (map td_name ?all)"
  have known: "(\<lambda>s. s \<in> set ?known) = (\<lambda>s. s \<in> ?names)"
    using same by (simp only: set_rev set_map)
  have "parse_pending ?known (raw_pending t) = Inr t" if "t \<in> set ?all" for t
  proof (rule parse_raw_pending)
    from that have "t \<in> set (concat docs)" unfolding same .
    then show "list_all (field_wf (\<lambda>s. s \<in> set ?known)) (td_fields t)"
      using wf unfolding known by (auto simp: list_all_iff type_wf_def)
  qed
  then have "mapE (parse_pending ?known) (map raw_pending ?all) = Inr ?all"
    by (simp add: mapE_Inr list_all2_map1 list_all2_same del: set_concat set_rev)
  moreover have "foldE collect_file \<lparr> is_namespace = JNull, is_pending = [], is_known = [] \<rparr> (map (document_json ns) docs)
    = Inr \<lparr> is_namespace = JStr ns, is_pending = map raw_pending ?all, is_known = ?known \<rparr>"
    using collect_documents [OF wf, of "\<lparr> is_namespace = JNull, is_pending = [], is_known = [] \<rparr>" ns] assms
    by (simp add: idl_wf_def)
  ultimately show ?thesis by (simp add: parse_idl_sources_def)
qed

theorem documents_parsed_witness:
  "parse_idl_sources (map (document_json ''a::b'') [sample_idl]) = Inr (JStr ''a::b'', concat (map in_order [sample_idl]))"
proof (rule documents_parsed)
  show "idl_wf (concat [sample_idl])" by code_simp
qed simp

end
