(* ===== verification/Gen_Emit.thy ===== *)
theory Gen_Emit
  imports Gen_Idl "HOL-Library.Char_ord" "HOL-Library.List_Lexorder"
begin

text \<open>
  The back end of the generator of the parameter types: the text of the headers, line by line as the
  Python code appends them, and the C++ statements these lines are. The statements are the syntax that
  theory \<open>Gen_Semantics\<close> executes; \<open>serialize_text\<close> and \<open>deserialize_text\<close> show that printing them gives
  the emitted lines.
\<close>

section \<open>Types of the emitted code\<close>

text \<open>\<open>PRIMITIVE_CPP_TYPES[t]\<close>; the parser lets only its keys through.\<close>

definition prim_cpp :: "string \<Rightarrow> string" where
  "prim_cpp t = the (map_of PRIMITIVE_CPP_TYPES t)"

definition length_type :: "FieldDef \<Rightarrow> string" where
  "length_type f = (case fd_length_type f of JStr s \<Rightarrow> s | _ \<Rightarrow> '''')"

definition cpp_type :: "FieldDef \<Rightarrow> string" where
  "cpp_type f =
     (case fd_kind f of
        Kprimitive \<Rightarrow> prim_cpp (the (fd_type_name f))
      | Kcustom \<Rightarrow> the (fd_type_name f)
      | Karray \<Rightarrow>
          (let e = the (fd_element_type f);
               elem = (case map_of PRIMITIVE_CPP_TYPES e of Some c \<Rightarrow> c | None \<Rightarrow> e)
           in ''std::vector<'' @ elem @ ''>''))"

section \<open>The emitted lines\<close>

text \<open>One line each, for the type names and variables it is given.\<close>

definition check_size_line :: "string \<Rightarrow> string \<Rightarrow> string" where
  "check_size_line x lt = ''if ('' @ x @ ''.size() > static_cast<std::size_t>(std::numeric_limits<'' @ lt @ ''>::max())) return false;''"

definition write_size_line :: "string \<Rightarrow> string \<Rightarrow> string" where
  "write_size_line x lt = ''if (!writer.writeIntegralBE<'' @ lt @ ''>(static_cast<'' @ lt @ ''>('' @ x @ ''.size()))) return false;''"

definition append_line :: "string \<Rightarrow> string" where
  "append_line x = ''bytes.insert(bytes.end(), '' @ x @ ''.begin(), '' @ x @ ''.end());''"

definition write_float_line :: "string \<Rightarrow> string \<Rightarrow> string" where
  "write_float_line bits x = ''if (!writer.writeFloat'' @ bits @ ''BE('' @ x @ '')) return false;''"

definition write_bool_line :: "string \<Rightarrow> string" where
  "write_bool_line x = ''if (!writer.writeIntegralBE<std::uint8_t>('' @ x @ '' ? 1u : 0u)) return false;''"

definition write_int_line :: "string \<Rightarrow> string \<Rightarrow> string" where
  "write_int_line t x = ''if (!writer.writeIntegralBE<'' @ t @ ''>('' @ x @ '')) return false;''"

definition write_object_line :: "string \<Rightarrow> string" where
  "write_object_line x = ''if (!'' @ x @ ''.serializeTo(bytes)) return false;''"

definition for_elements_line :: "string \<Rightarrow> string" where
  "for_elements_line x = ''for (const auto& elem : '' @ x @ '') {''"

definition zero_line :: "string \<Rightarrow> string \<Rightarrow> string" where
  "zero_line t x = t @ '' '' @ x @ '' = 0;''"

definition float_zero_line :: "string \<Rightarrow> string" where
  "float_zero_line x = ''float '' @ x @ '' = 0.0f;''"

definition double_zero_line :: "string \<Rightarrow> string" where
  "double_zero_line x = ''double '' @ x @ '' = 0.0;''"

definition object_line :: "string \<Rightarrow> string \<Rightarrow> string" where
  "object_line t x = t @ '' '' @ x @ '';''"

definition read_int_line :: "string \<Rightarrow> string \<Rightarrow> string" where
  "read_int_line t x = ''if (!reader.readIntegralBE<'' @ t @ ''>('' @ x @ '')) return false;''"

definition read_float_line :: "string \<Rightarrow> string \<Rightarrow> string" where
  "read_float_line bits x = ''if (!reader.readFloat'' @ bits @ ''BE('' @ x @ '')) return false;''"

definition read_bytes_line :: "string \<Rightarrow> string \<Rightarrow> string" where
  "read_bytes_line n x = ''if (!reader.readBytes(static_cast<std::size_t>('' @ n @ ''), '' @ x @ '')) return false;''"

definition read_object_line :: "string \<Rightarrow> string" where
  "read_object_line x = ''if (!'' @ x @ ''.deserializeFromReader(reader)) return false;''"

definition set_bool_line :: "string \<Rightarrow> string" where
  "set_bool_line x = x @ '' = (b != 0);''"

definition clear_line :: "string \<Rightarrow> string" where
  "clear_line x = x @ ''.clear();''"

definition reserve_line :: "string \<Rightarrow> string \<Rightarrow> string" where
  "reserve_line x n = x @ ''.reserve(static_cast<std::size_t>('' @ n @ ''));''"

definition for_count_line :: "string \<Rightarrow> string \<Rightarrow> string" where
  "for_count_line t n = ''for ('' @ t @ '' i = 0; i < '' @ n @ ''; ++i) {''"

definition push_line :: "string \<Rightarrow> string" where
  "push_line x = x @ ''.push_back(temp);''"

definition move_line :: "string \<Rightarrow> string" where
  "move_line x = x @ ''.push_back(std::move(temp));''"

definition push_bool_line :: "string \<Rightarrow> string" where
  "push_bool_line x = x @ ''.push_back(b != 0);''"

text \<open>The names of the length variables of a field.\<close>

definition LenVar :: "string \<Rightarrow> string" where
  "LenVar x = x @ ''Len''"

definition StrLenVar :: "string \<Rightarrow> string" where
  "StrLenVar x = x @ ''StrLen''"

definition ElemStrLenVar :: "string \<Rightarrow> string" where
  "ElemStrLenVar x = x @ ''ElemStrLen''"

definition write_value_line :: "string \<Rightarrow> string \<Rightarrow> string" where
  "write_value_line t x =
     (if t = ''f32'' then write_float_line ''32'' x
      else if t = ''f64'' then write_float_line ''64'' x
      else if t = ''bool'' then write_bool_line x
      else write_int_line (prim_cpp t) x)"

text \<open>The lines inside the braces of an element loop are indented four more.\<close>

definition deeper :: "string \<Rightarrow> string" where
  "deeper indent = indent @ ''    ''"

definition write_field_serialize :: "FieldDef \<Rightarrow> string list \<Rightarrow> string \<Rightarrow> string list" where
  "write_field_serialize f out indent =
     (let name = fd_name f; lt = prim_cpp (length_type f) in
      case fd_kind f of
        Kprimitive \<Rightarrow>
          (let t = the (fd_type_name f) in
           if t = ''string'' then
             out @ [indent @ check_size_line name lt,
                    indent @ write_size_line name lt,
                    indent @ append_line name]
           else out @ [indent @ write_value_line t name])
      | Kcustom \<Rightarrow> out @ [indent @ write_object_line name]
      | Karray \<Rightarrow>
          (let elem = the (fd_element_type f) in
           out @ [indent @ check_size_line name lt,
                  indent @ write_size_line name lt,
                  indent @ for_elements_line name]
           @ (if elem = ''string'' then
                [deeper indent @ check_size_line ''elem'' lt,
                 deeper indent @ write_size_line ''elem'' lt,
                 deeper indent @ append_line ''elem'']
              else if is_primitive elem then [deeper indent @ write_value_line elem ''elem'']
              else [deeper indent @ write_object_line ''elem''])
           @ [indent @ ''}'']))"

definition write_element_deserialize :: "string \<Rightarrow> string \<Rightarrow> string \<Rightarrow> string list" where
  "write_element_deserialize elem lt name =
     (if elem = ''string'' then
        [zero_line lt (ElemStrLenVar name),
         read_int_line lt (ElemStrLenVar name),
         object_line ''std::string'' ''temp'',
         read_bytes_line (ElemStrLenVar name) ''temp'',
         move_line name]
      else if elem = ''f32'' then
        [float_zero_line ''temp'', read_float_line ''32'' ''temp'', push_line name]
      else if elem = ''f64'' then
        [double_zero_line ''temp'', read_float_line ''64'' ''temp'', push_line name]
      else if elem = ''bool'' then
        [zero_line ''std::uint8_t'' ''b'', read_int_line ''std::uint8_t'' ''b'', push_bool_line name]
      else if is_primitive elem then
        [zero_line (prim_cpp elem) ''temp'', read_int_line (prim_cpp elem) ''temp'', push_line name]
      else
        [object_line elem ''temp'', read_object_line ''temp'', move_line name])"

definition write_field_deserialize :: "FieldDef \<Rightarrow> string list \<Rightarrow> string \<Rightarrow> string list" where
  "write_field_deserialize f out indent =
     (let name = fd_name f; lt = prim_cpp (length_type f) in
      case fd_kind f of
        Kprimitive \<Rightarrow>
          (let t = the (fd_type_name f) in
           if t = ''string'' then
             out @ [indent @ zero_line lt (StrLenVar name),
                    indent @ read_int_line lt (StrLenVar name),
                    indent @ read_bytes_line (StrLenVar name) name]
           else if t = ''f32'' then out @ [indent @ read_float_line ''32'' name]
           else if t = ''f64'' then out @ [indent @ read_float_line ''64'' name]
           else if t = ''bool'' then
             out @ [indent @ zero_line ''std::uint8_t'' ''b'',
                    indent @ read_int_line ''std::uint8_t'' ''b'',
                    indent @ set_bool_line name]
           else out @ [indent @ read_int_line (prim_cpp t) name])
      | Kcustom \<Rightarrow> out @ [indent @ read_object_line name]
      | Karray \<Rightarrow>
          (let elem = the (fd_element_type f) in
           out @ [indent @ zero_line lt (LenVar name),
                  indent @ read_int_line lt (LenVar name),
                  indent @ clear_line name,
                  indent @ reserve_line name (LenVar name),
                  indent @ for_count_line lt (LenVar name)]
           @ map (\<lambda>l. deeper indent @ l) (write_element_deserialize elem lt name)
           @ [indent @ ''}'']))"

section \<open>The emitted statements\<close>

text \<open>A variable is named as in the text, a type by its key in the interface description.\<close>

datatype write_stmt =
    CheckSize string string
  | WriteSize string string
  | AppendString string
  | WriteValue string string
  | WriteObject string

datatype write_block = Write write_stmt | ForElements string "write_stmt list"

datatype read_stmt =
    Declare string string
  | ReadValue string string
  | ReadString string string
  | ReadObject string
  | SetBool string
  | ClearVector string
  | Reserve string string
  | PushBack string
  | MoveBack string
  | PushBool string

datatype read_block = Read read_stmt | ForCount string string "read_stmt list"

definition emit_serialize :: "FieldDef \<Rightarrow> write_block list" where
  "emit_serialize f =
     (let x = fd_name f; lt = length_type f in
      case fd_kind f of
        Kprimitive \<Rightarrow>
          (let t = the (fd_type_name f) in
           if t = ''string'' then [Write (CheckSize x lt), Write (WriteSize x lt), Write (AppendString x)]
           else [Write (WriteValue t x)])
      | Kcustom \<Rightarrow> [Write (WriteObject x)]
      | Karray \<Rightarrow>
          (let e = the (fd_element_type f) in
           [Write (CheckSize x lt), Write (WriteSize x lt),
            ForElements x
              (if e = ''string'' then [CheckSize ''elem'' lt, WriteSize ''elem'' lt, AppendString ''elem'']
               else if is_primitive e then [WriteValue e ''elem''] else [WriteObject ''elem''])]))"

definition emit_element :: "string \<Rightarrow> string \<Rightarrow> string \<Rightarrow> read_stmt list" where
  "emit_element e lt x =
     (if e = ''string'' then
        [Declare lt (ElemStrLenVar x), ReadValue lt (ElemStrLenVar x), Declare e ''temp'',
         ReadString (ElemStrLenVar x) ''temp'', MoveBack x]
      else if e = ''bool'' then [Declare ''u8'' ''b'', ReadValue ''u8'' ''b'', PushBool x]
      else if is_primitive e then [Declare e ''temp'', ReadValue e ''temp'', PushBack x]
      else [Declare e ''temp'', ReadObject ''temp'', MoveBack x])"

definition emit_deserialize :: "FieldDef \<Rightarrow> read_block list" where
  "emit_deserialize f =
     (let x = fd_name f; lt = length_type f in
      case fd_kind f of
        Kprimitive \<Rightarrow>
          (let t = the (fd_type_name f) in
           if t = ''string'' then
             [Read (Declare lt (StrLenVar x)), Read (ReadValue lt (StrLenVar x)), Read (ReadString (StrLenVar x) x)]
           else if t = ''bool'' then [Read (Declare ''u8'' ''b''), Read (ReadValue ''u8'' ''b''), Read (SetBool x)]
           else [Read (ReadValue t x)])
      | Kcustom \<Rightarrow> [Read (ReadObject x)]
      | Karray \<Rightarrow>
          [Read (Declare lt (LenVar x)), Read (ReadValue lt (LenVar x)), Read (ClearVector x),
           Read (Reserve x (LenVar x)),
           ForCount lt (LenVar x) (emit_element (the (fd_element_type f)) lt x)])"

section \<open>Printing them\<close>

fun write_line :: "write_stmt \<Rightarrow> string" where
  "write_line (CheckSize x lt) = check_size_line x (prim_cpp lt)"
| "write_line (WriteSize x lt) = write_size_line x (prim_cpp lt)"
| "write_line (AppendString x) = append_line x"
| "write_line (WriteValue t x) = write_value_line t x"
| "write_line (WriteObject x) = write_object_line x"

fun write_lines :: "string \<Rightarrow> write_block \<Rightarrow> string list" where
  "write_lines indent (Write s) = [indent @ write_line s]"
| "write_lines indent (ForElements x body) =
     [indent @ for_elements_line x]
     @ map (\<lambda>s. deeper indent @ write_line s) body @ [indent @ ''}'']"

text \<open>\<open>float\<close>, \<open>double\<close> and the integers are initialised, \<open>std::string\<close> and the classes default-constructed.\<close>

definition decl_line :: "string \<Rightarrow> string \<Rightarrow> string" where
  "decl_line t x =
     (if t = ''string'' then object_line ''std::string'' x
      else if t = ''f32'' then float_zero_line x
      else if t = ''f64'' then double_zero_line x
      else if is_primitive t then zero_line (prim_cpp t) x
      else object_line t x)"

fun read_line :: "read_stmt \<Rightarrow> string" where
  "read_line (Declare t x) = decl_line t x"
| "read_line (ReadValue t x) =
     (if t = ''f32'' then read_float_line ''32'' x
      else if t = ''f64'' then read_float_line ''64'' x
      else read_int_line (prim_cpp t) x)"
| "read_line (ReadString n x) = read_bytes_line n x"
| "read_line (ReadObject x) = read_object_line x"
| "read_line (SetBool x) = set_bool_line x"
| "read_line (ClearVector x) = clear_line x"
| "read_line (Reserve x n) = reserve_line x n"
| "read_line (PushBack x) = push_line x"
| "read_line (MoveBack x) = move_line x"
| "read_line (PushBool x) = push_bool_line x"

fun read_lines :: "string \<Rightarrow> read_block \<Rightarrow> string list" where
  "read_lines indent (Read s) = [indent @ read_line s]"
| "read_lines indent (ForCount t n body) =
     [indent @ for_count_line (prim_cpp t) n]
     @ map (\<lambda>s. deeper indent @ read_line s) body @ [indent @ ''}'']"

lemma primitives [simp]:
  "is_primitive ''u8''" "is_primitive ''u16''" "is_primitive ''u32''" "is_primitive ''f32''" "is_primitive ''f64''"
  "is_primitive ''bool''" "is_primitive ''string''"
  by (simp_all add: is_primitive_def PRIMITIVE_CPP_TYPES_def)

lemma prim_cpp_u8 [simp]: "prim_cpp ''u8'' = ''std::uint8_t''"
  by (simp add: prim_cpp_def PRIMITIVE_CPP_TYPES_def)

definition length_key :: "string \<Rightarrow> bool" where
  "length_key l \<longleftrightarrow> l = ''u8'' \<or> l = ''u16'' \<or> l = ''u32''"

lemma length_types: "length_ok f \<Longrightarrow> length_key (length_type f)"
  by (auto simp: length_ok_def LENGTH_TYPES_def length_key_def length_type_def)

lemma declare_length: "length_key l \<Longrightarrow> decl_line l x = zero_line (prim_cpp l) x"
  by (auto simp: decl_line_def length_key_def)

lemma read_length: "length_key l \<Longrightarrow> read_line (ReadValue l x) = read_int_line (prim_cpp l) x"
  by (auto simp: length_key_def)

lemma serialize_lines:
  "write_field_serialize f out indent = out @ concat (map (write_lines indent) (emit_serialize f))"
  by (simp add: write_field_serialize_def emit_serialize_def Let_def split: field_kind.split)

lemma element_lines:
  "length_key l \<Longrightarrow> map read_line (emit_element e l x) = write_element_deserialize e (prim_cpp l) x"
  by (simp add: emit_element_def write_element_deserialize_def declare_length read_length del: read_line.simps(2))
    (simp add: decl_line_def)

lemma map_deeper: "map (\<lambda>s. deeper indent @ read_line s) body = map (\<lambda>l. deeper indent @ l) (map read_line body)"
  by simp

lemma deserialize_lines:
  assumes "field_wf known f"
  shows "write_field_deserialize f out indent = out @ concat (map (read_lines indent) (emit_deserialize f))"
proof (cases "fd_kind f")
  case Karray
  with assms have "length_key (length_type f)" by (intro length_types) (simp add: field_wf_def)
  with Karray show ?thesis
    by (simp add: write_field_deserialize_def emit_deserialize_def Let_def map_deeper element_lines
        declare_length read_length del: read_line.simps(2) map_map)
next
  case Kprimitive
  with assms obtain t where t: "fd_type_name f = Some t" "t = ''string'' \<longrightarrow> length_key (length_type f)"
    by (auto simp: field_wf_def length_types split: option.splits)
  consider "t = ''string''" | "t = ''bool''" | "t \<noteq> ''string''" "t \<noteq> ''bool''" by blast
  then show ?thesis
    by cases (use Kprimitive t in \<open>simp_all add: write_field_deserialize_def emit_deserialize_def Let_def
      declare_length read_length del: read_line.simps(2)\<close>,
      simp_all add: decl_line_def)
next
  case Kcustom
  then show ?thesis by (simp add: write_field_deserialize_def emit_deserialize_def Let_def)
qed

section \<open>Headers\<close>

definition quoted_include :: "string \<Rightarrow> string" where
  "quoted_include h = ''#include '' @ [CHR 0x22] @ h @ ''.hpp'' @ [CHR 0x22]"

text \<open>The classes a header depends on, sorted, each once.\<close>

definition field_dep :: "FieldDef \<Rightarrow> string list" where
  "field_dep f =
     (case fd_kind f of
        Kprimitive \<Rightarrow> []
      | Kcustom \<Rightarrow> [the (fd_type_name f)]
      | Karray \<Rightarrow> (let e = the (fd_element_type f) in if is_primitive e then [] else [e]))"

definition custom_deps :: "TypeDef \<Rightarrow> string list" where
  "custom_deps t = sort (remdups (concat (map field_dep (td_fields t))))"

definition type_header_lines :: "string \<Rightarrow> TypeDef \<Rightarrow> string list" where
  "type_header_lines ns t =
     [''#pragma once'', '''',
      ''#include <cstdint>'',
      ''#include <limits>'',
      ''#include <string>'',
      ''#include <utility>'',
      ''#include <vector>'', '''',
      quoted_include ''someip_codec_support'', '''']
     @ map quoted_include (filter (\<lambda>dep. dep \<noteq> td_name t) (custom_deps t))
     @ ['''', ''namespace '' @ ns @ '' {'', '''',
        ''struct '' @ td_name t @ '' : public someip_generated::SerializableObject {'']
     @ map (\<lambda>f. ''    '' @ cpp_type f @ '' '' @ fd_name f @ '';'') (td_fields t)
     @ ['''', ''    bool serializeTo(std::vector<std::uint8_t>& bytes) const override {'',
        ''        someip_generated::ByteWriter writer(bytes);'']
     @ foldl (\<lambda>out f. write_field_serialize f out ''        '') [] (td_fields t)
     @ [''        return true;'', ''    }'', '''',
        ''    bool deserializeFromReader(someip_generated::ByteReader& reader) override {'']
     @ foldl (\<lambda>out f. write_field_deserialize f out ''        '') [] (td_fields t)
     @ [''        return true;'', ''    }'', ''};'', '''', ''}  // namespace '' @ ns]"

definition aggregate_lines :: "string \<Rightarrow> TypeDef list \<Rightarrow> string list" where
  "aggregate_lines ns types =
     [''#pragma once'', '''', ''#include <cstdint>'', '''', quoted_include ''someip_codec_support'']
     @ map (\<lambda>t. quoted_include (td_name t)) types
     @ ['''', ''// Namespace: '' @ ns]"

definition file_text :: "string list \<Rightarrow> string" where
  "file_text lines = concat (map (\<lambda>l. l @ [CHR 0x0A]) lines)"

text \<open>The files in the order they are written; the support header has a fixed text.\<close>

definition generate_files :: "string \<Rightarrow> string \<Rightarrow> TypeDef list \<Rightarrow> (string \<times> string) list" where
  "generate_files support ns types =
     (''someip_codec_support.hpp'', support)
     # map (\<lambda>t. (td_name t @ ''.hpp'', file_text (type_header_lines ns t))) types
     @ [(''generated_someip_params.hpp'', file_text (aggregate_lines ns types))]"

text \<open>The bodies of the two member functions are the printed statements.\<close>

definition serialize_body :: "TypeDef \<Rightarrow> write_block list" where
  "serialize_body t = concat (map emit_serialize (td_fields t))"

definition deserialize_body :: "TypeDef \<Rightarrow> read_block list" where
  "deserialize_body t = concat (map emit_deserialize (td_fields t))"

lemma foldl_lines:
  "(\<And>f out. f \<in> set fs \<Longrightarrow> step out f = out @ g f) \<Longrightarrow> foldl step out fs = out @ concat (map g fs)"
  by (induction fs arbitrary: out) simp_all

lemma concat_map_concat: "concat (map g (concat xss)) = concat (map (\<lambda>xs. concat (map g xs)) xss)"
  by (induction xss) simp_all

lemma serialize_text:
  "foldl (\<lambda>out f. write_field_serialize f out indent) [] (td_fields t)
     = concat (map (write_lines indent) (serialize_body t))"
  by (subst foldl_lines [where g = "\<lambda>f. concat (map (write_lines indent) (emit_serialize f))"])
    (simp_all add: serialize_lines serialize_body_def concat_map_concat comp_def)

lemma deserialize_text:
  assumes "list_all (field_wf known) (td_fields t)"
  shows "foldl (\<lambda>out f. write_field_deserialize f out indent) [] (td_fields t)
     = concat (map (read_lines indent) (deserialize_body t))"
  using assms
  by (subst foldl_lines [where g = "\<lambda>f. concat (map (read_lines indent) (emit_deserialize f))"])
    (simp_all add: deserialize_lines [of known] list_all_iff deserialize_body_def concat_map_concat comp_def)

end
