(* ===== verification/Gen_Semantics.thy ===== *)
theory Gen_Semantics
  imports Gen_Emit Idl_Codec "HOL-Library.AList"
begin

text \<open>
  What the emitted C++ statements do. A member function runs on the members of its object, its local
  variables in block scopes, and the bytes that are written or the reader. A name means the innermost
  declaration of that name, else the member; the parameters and the \<open>ByteWriter\<close> are names without a
  value. The result is \<open>None\<close> where the text has no meaning: it does not compile (a variable is declared
  twice in a scope, a type does not fit in a statement that is reached) or a call nests deeper than the fuel. Otherwise it is the returned
  verdict with the state then. Integers are their bit patterns, floats as well.
\<close>

section \<open>Values\<close>

datatype val =
    VInt string nat
  | VFloat u32
  | VDouble u64
  | VBool bool
  | VStr string
  | VObj string "(string \<times> val) list"
  | VVec string "val list"

type_synonym fields = "(string \<times> val) list"

datatype ctype = Prim string | Class string | Vector string

definition ctype_of :: "string \<Rightarrow> ctype" where
  "ctype_of t = (if is_primitive t then Prim t else Class t)"

fun vtype :: "val \<Rightarrow> ctype" where
  "vtype (VInt t n) = Prim t"
| "vtype (VFloat u) = Prim ''f32''"
| "vtype (VDouble u) = Prim ''f64''"
| "vtype (VBool b) = Prim ''bool''"
| "vtype (VStr s) = Prim ''string''"
| "vtype (VObj t fs) = Class t"
| "vtype (VVec e vs) = Vector e"

definition int_bytes :: "string \<Rightarrow> nat option" where
  "int_bytes = map_of [(''u8'', 1), (''u16'', 2), (''u32'', 4), (''u64'', 8),
                       (''i8'', 1), (''i16'', 2), (''i32'', 4), (''i64'', 8)]"

definition is_int :: "string \<Rightarrow> bool" where
  "is_int t \<longleftrightarrow> int_bytes t \<noteq> None"

text \<open>\<open>std::numeric_limits<T>::max()\<close> of an unsigned type.\<close>

definition max_size :: "string \<Rightarrow> nat" where
  "max_size t = 256 ^ the (int_bytes t) - 1"

text \<open>The instances of \<open>writeIntegralBE\<close> and \<open>readIntegralBE\<close>.\<close>

definition write_int :: "string \<Rightarrow> nat \<Rightarrow> bytes \<Rightarrow> bytes" where
  "write_int t n out =
     (let w = the (int_bytes t) in
      if w = 1 then writeIntegralBE out (of_nat n :: u8)
      else if w = 2 then writeIntegralBE out (of_nat n :: u16)
      else if w = 4 then writeIntegralBE out (of_nat n :: u32)
      else writeIntegralBE out (of_nat n :: u64))"

definition read_int :: "string \<Rightarrow> ByteReader \<Rightarrow> (nat \<times> ByteReader) option" where
  "read_int t r =
     (let w = the (int_bytes t) in
      if w = 1 then map_option (apfst unat) (readIntegralBE r :: (u8 \<times> ByteReader) option)
      else if w = 2 then map_option (apfst unat) (readIntegralBE r :: (u16 \<times> ByteReader) option)
      else if w = 4 then map_option (apfst unat) (readIntegralBE r :: (u32 \<times> ByteReader) option)
      else map_option (apfst unat) (readIntegralBE r :: (u64 \<times> ByteReader) option))"

section \<open>Sequences of statements\<close>

type_synonym 's stepper = "'s \<Rightarrow> (bool \<times> 's) option"

primrec run_steps :: "'s stepper list \<Rightarrow> 's stepper" where
  "run_steps [] s = Some (True, s)"
| "run_steps (f # fs) s =
     (case f s of None \<Rightarrow> None | Some (ok, s') \<Rightarrow> if \<not> ok then Some (False, s') else run_steps fs s')"

lemma run_steps_append:
  "run_steps (fs @ gs) s =
     (case run_steps fs s of None \<Rightarrow> None | Some (ok, s') \<Rightarrow> if \<not> ok then Some (False, s') else run_steps gs s')"
  by (induction fs arbitrary: s) (auto split: option.splits)

section \<open>\<open>serializeTo\<close>\<close>

definition write_var :: "val option \<Rightarrow> fields \<Rightarrow> string \<Rightarrow> val option" where
  "write_var elem obj x =
     (if elem \<noteq> None \<and> x = ''elem'' then elem
      else if x = ''bytes'' \<or> x = ''writer'' then None
      else map_of obj x)"

fun size_of :: "val option \<Rightarrow> nat option" where
  "size_of (Some (VStr s)) = Some (length s)"
| "size_of (Some (VVec e vs)) = Some (length vs)"
| "size_of _ = None"

fun write_value :: "string \<Rightarrow> val \<Rightarrow> bytes \<Rightarrow> (bool \<times> bytes) option" where
  "write_value t (VInt t' n) out = (if t = t' then Some (True, write_int t n out) else None)"
| "write_value t (VFloat u) out = (if t = ''f32'' then Some (True, writeFloat32BE out u) else None)"
| "write_value t (VDouble u) out = (if t = ''f64'' then Some (True, writeFloat64BE out u) else None)"
| "write_value t (VBool b) out = (if t = ''bool'' then Some (True, write_int ''u8'' (if b then 1 else 0) out) else None)"
| "write_value t _ out = None"

fun exec_write ::
    "(string \<Rightarrow> fields \<Rightarrow> bytes stepper) \<Rightarrow> val option \<Rightarrow> fields \<Rightarrow> write_stmt \<Rightarrow> bytes stepper" where
  "exec_write call elem obj (CheckSize x lt) out =
     map_option (\<lambda>n. (n \<le> max_size lt, out)) (size_of (write_var elem obj x))"
| "exec_write call elem obj (WriteSize x lt) out =
     map_option (\<lambda>n. (True, write_int lt n out)) (size_of (write_var elem obj x))"
| "exec_write call elem obj (AppendString x) out =
     (case write_var elem obj x of Some (VStr s) \<Rightarrow> Some (True, out @ map char_byte s) | _ \<Rightarrow> None)"
| "exec_write call elem obj (WriteValue t x) out =
     (case write_var elem obj x of Some v \<Rightarrow> write_value t v out | None \<Rightarrow> None)"
| "exec_write call elem obj (WriteObject x) out =
     (case write_var elem obj x of Some (VObj tn fs) \<Rightarrow> call tn fs out | _ \<Rightarrow> None)"

fun exec_write_block :: "(string \<Rightarrow> fields \<Rightarrow> bytes stepper) \<Rightarrow> fields \<Rightarrow> write_block \<Rightarrow> bytes stepper" where
  "exec_write_block call obj (Write s) out = exec_write call None obj s out"
| "exec_write_block call obj (ForElements x body) out =
     (case write_var None obj x of
        Some (VVec e vs) \<Rightarrow> run_steps (map (\<lambda>v. run_steps (map (exec_write call (Some v) obj) body)) vs) out
      | _ \<Rightarrow> None)"

text \<open>A class compiles if its names are ASCII and no keywords, its members are distinct, hide no function and no
  class that the class uses, it does not hide the two namespaces its text names, it does not contain itself by
  value, and its reader declares no variable twice. (That the types fit is checked where a statement is executed.)\<close>

definition cpp_keywords :: "string list" where
  "cpp_keywords =
    [''alignas'', ''alignof'', ''and'', ''and_eq'', ''asm'', ''auto'', ''bitand'', ''bitor'', ''bool'', ''break'',
     ''case'', ''catch'', ''char'', ''char16_t'', ''char32_t'', ''class'', ''compl'', ''const'', ''constexpr'',
     ''const_cast'', ''continue'', ''decltype'', ''default'', ''delete'', ''do'', ''double'', ''dynamic_cast'',
     ''else'', ''enum'', ''explicit'', ''export'', ''extern'', ''false'', ''float'', ''for'', ''friend'', ''goto'',
     ''if'', ''inline'', ''int'', ''long'', ''mutable'', ''namespace'', ''new'', ''noexcept'', ''not'', ''not_eq'',
     ''nullptr'', ''operator'', ''or'', ''or_eq'', ''private'', ''protected'', ''public'', ''register'',
     ''reinterpret_cast'', ''return'', ''short'', ''signed'', ''sizeof'', ''static'', ''static_assert'',
     ''static_cast'', ''struct'', ''switch'', ''template'', ''this'', ''thread_local'', ''throw'', ''true'', ''try'',
     ''typedef'', ''typeid'', ''typename'', ''union'', ''unsigned'', ''using'', ''virtual'', ''void'', ''volatile'',
     ''wchar_t'', ''while'', ''xor'', ''xor_eq'']"

definition declared_vars :: "read_block list \<Rightarrow> string list" where
  "declared_vars bs = concat (map (\<lambda>b. case b of Read (Declare t x) \<Rightarrow> [x] | _ \<Rightarrow> []) bs)"

definition ascii_name :: "string \<Rightarrow> bool" where
  "ascii_name s \<longleftrightarrow> list_all (\<lambda>c. (of_char c :: nat) < 128) s \<and> s \<notin> set cpp_keywords"

definition class_compiles :: "TypeDef \<Rightarrow> bool" where
  "class_compiles t \<longleftrightarrow> distinct (map fd_name (td_fields t))
     \<and> ascii_name (td_name t) \<and> td_name t \<notin> {''std'', ''someip_generated''}
     \<and> distinct (''reader'' # declared_vars (deserialize_body t))
     \<and> list_all (\<lambda>f. ascii_name (fd_name f)
          \<and> fd_name f \<notin> {''serializeTo'', ''deserializeFromReader'', td_name t}
          \<and> fd_name f \<notin> set (concat (map field_dep (td_fields t)))
          \<and> \<not> (fd_kind f = Kcustom \<and> the (fd_type_name f) = td_name t)) (td_fields t)"

type_synonym class_env = "string \<Rightarrow> TypeDef option"

primrec gen_serialize :: "class_env \<Rightarrow> nat \<Rightarrow> string \<Rightarrow> fields \<Rightarrow> bytes stepper" where
  "gen_serialize env 0 tn obj out = None"
| "gen_serialize env (Suc n) tn obj out =
     (case env tn of
        None \<Rightarrow> None
      | Some t \<Rightarrow>
          if \<not> class_compiles t then None
          else run_steps (map (exec_write_block (gen_serialize env n) obj) (serialize_body t)) out)"

section \<open>\<open>deserializeFromReader\<close>\<close>

text \<open>Block scopes, innermost first; a name without a value is a parameter.\<close>

type_synonym scope = "(string \<times> val option) list"

record read_state =
  rs_scopes :: "scope list"
  rs_obj :: fields
  rs_reader :: ByteReader

fun find_local :: "scope list \<Rightarrow> string \<Rightarrow> val option option" where
  "find_local [] x = None"
| "find_local (sc # scs) x = (case map_of sc x of Some e \<Rightarrow> Some e | None \<Rightarrow> find_local scs x)"

fun set_local :: "scope list \<Rightarrow> string \<Rightarrow> val \<Rightarrow> scope list" where
  "set_local [] x v = []"
| "set_local (sc # scs) x v =
     (if map_of sc x \<noteq> None then AList.update x (Some v) sc # scs else sc # set_local scs x v)"

definition read_var :: "read_state \<Rightarrow> string \<Rightarrow> val option" where
  "read_var st x = (case find_local (rs_scopes st) x of Some e \<Rightarrow> e | None \<Rightarrow> map_of (rs_obj st) x)"

definition assign_var :: "string \<Rightarrow> val \<Rightarrow> read_state \<Rightarrow> read_state" where
  "assign_var x v st =
     (case find_local (rs_scopes st) x of
        Some e \<Rightarrow> st\<lparr> rs_scopes := set_local (rs_scopes st) x v \<rparr>
      | None \<Rightarrow> st\<lparr> rs_obj := AList.update x v (rs_obj st) \<rparr>)"

definition declare_var :: "string \<Rightarrow> val \<Rightarrow> read_state stepper" where
  "declare_var x v st =
     (case rs_scopes st of
        sc # scs \<Rightarrow> if map_of sc x \<noteq> None then None
                    else Some (True, st\<lparr> rs_scopes := ((x, Some v) # sc) # scs \<rparr>)
      | [] \<Rightarrow> None)"

text \<open>What a declaration initialises its variable to; \<open>new\<close> is the default-constructed object.\<close>

definition initial :: "(string \<Rightarrow> val option) \<Rightarrow> string \<Rightarrow> val option" where
  "initial new t =
     (if is_int t then Some (VInt t 0)
      else if t = ''f32'' then Some (VFloat 0)
      else if t = ''f64'' then Some (VDouble 0)
      else if t = ''bool'' then Some (VBool False)
      else if t = ''string'' then Some (VStr [])
      else new t)"

definition read_value :: "string \<Rightarrow> ByteReader \<Rightarrow> (val \<times> ByteReader) option" where
  "read_value t r =
     (if t = ''f32'' then map_option (apfst VFloat) (readFloat32BE r)
      else if t = ''f64'' then map_option (apfst VDouble) (readFloat64BE r)
      else map_option (apfst (VInt t)) (read_int t r))"

type_synonym reader_call = "string \<Rightarrow> fields \<Rightarrow> ByteReader \<Rightarrow> (bool \<times> fields \<times> ByteReader) option"

definition push_back :: "string \<Rightarrow> val option \<Rightarrow> read_state stepper" where
  "push_back x v st =
     (case (read_var st x, v) of
        (Some (VVec e vs), Some v) \<Rightarrow>
          if vtype v = ctype_of e then Some (True, assign_var x (VVec e (vs @ [v])) st) else None
      | _ \<Rightarrow> None)"

fun exec_read :: "reader_call \<Rightarrow> (string \<Rightarrow> val option) \<Rightarrow> read_stmt \<Rightarrow> read_state stepper" where
  "exec_read call new (Declare t x) st =
     (case initial new t of None \<Rightarrow> None | Some v \<Rightarrow> declare_var x v st)"
| "exec_read call new (ReadValue t x) st =
     (case read_var st x of
        None \<Rightarrow> None
      | Some v \<Rightarrow>
          if vtype v \<noteq> Prim t \<or> \<not> (is_int t \<or> t = ''f32'' \<or> t = ''f64'') then None
          else case read_value t (rs_reader st) of
            None \<Rightarrow> Some (False, st)
          | Some (v', r) \<Rightarrow> Some (True, assign_var x v' (st\<lparr> rs_reader := r \<rparr>)))"
| "exec_read call new (ReadString n x) st =
     (case (read_var st n, read_var st x) of
        (Some (VInt t k), Some (VStr s)) \<Rightarrow>
          (case readBytes k (rs_reader st) of
             None \<Rightarrow> Some (False, st)
           | Some (s', r) \<Rightarrow> Some (True, assign_var x (VStr s') (st\<lparr> rs_reader := r \<rparr>)))
      | _ \<Rightarrow> None)"
| "exec_read call new (ReadObject x) st =
     (case read_var st x of
        Some (VObj tn fs) \<Rightarrow>
          (case call tn fs (rs_reader st) of
             None \<Rightarrow> None
           | Some (ok, fs', r) \<Rightarrow> Some (ok, assign_var x (VObj tn fs') (st\<lparr> rs_reader := r \<rparr>)))
      | _ \<Rightarrow> None)"
| "exec_read call new (SetBool x) st =
     (case (read_var st ''b'', read_var st x) of
        (Some (VInt t k), Some (VBool c)) \<Rightarrow> Some (True, assign_var x (VBool (k \<noteq> 0)) st)
      | (Some (VInt t k), Some (VInt t' c)) \<Rightarrow> Some (True, assign_var x (VInt t' (if k \<noteq> 0 then 1 else 0)) st)
      | _ \<Rightarrow> None)"
| "exec_read call new (ClearVector x) st =
     (case read_var st x of Some (VVec e vs) \<Rightarrow> Some (True, assign_var x (VVec e []) st) | _ \<Rightarrow> None)"
| "exec_read call new (Reserve x n) st =
     (case (read_var st x, read_var st n) of
        (Some (VVec e vs), Some (VInt t k)) \<Rightarrow> Some (True, st)
      | _ \<Rightarrow> None)"
| "exec_read call new (PushBack x) st = push_back x (read_var st ''temp'') st"
| "exec_read call new (MoveBack x) st = push_back x (read_var st ''temp'') st"
| "exec_read call new (PushBool x) st =
     push_back x (case read_var st ''b'' of Some (VInt t k) \<Rightarrow> Some (VBool (k \<noteq> 0)) | _ \<Rightarrow> None) st"

text \<open>One round of the loop: the scope of its variable and the block.\<close>

definition loop_round :: "read_state stepper list \<Rightarrow> val \<Rightarrow> read_state stepper" where
  "loop_round body i st =
     map_option (\<lambda>(ok, st'). (ok, st'\<lparr> rs_scopes := drop 2 (rs_scopes st') \<rparr>))
       (run_steps body (st\<lparr> rs_scopes := [] # [(''i'', Some i)] # rs_scopes st \<rparr>))"

fun exec_read_block :: "reader_call \<Rightarrow> (string \<Rightarrow> val option) \<Rightarrow> read_block \<Rightarrow> read_state stepper" where
  "exec_read_block call new (Read s) st = exec_read call new s st"
| "exec_read_block call new (ForCount t n body) st =
     (case read_var st n of
        Some (VInt t' k) \<Rightarrow>
          if t' \<noteq> t then None
          else run_steps (map (\<lambda>i. loop_round (map (exec_read call new) body) (VInt t i)) [0..<k]) st
      | _ \<Rightarrow> None)"

text \<open>The default-constructed object: its integers are indeterminate in C++, here 0.\<close>

definition new_member :: "(string \<Rightarrow> val option) \<Rightarrow> FieldDef \<Rightarrow> (string \<times> val) option" where
  "new_member new f =
     map_option (Pair (fd_name f))
       (if fd_kind f = Karray then Some (VVec (the (fd_element_type f)) [])
        else initial new (the (fd_type_name f)))"

primrec all_some :: "'a option list \<Rightarrow> 'a list option" where
  "all_some [] = Some []"
| "all_some (x # xs) = (case x of None \<Rightarrow> None | Some y \<Rightarrow> map_option ((#) y) (all_some xs))"

primrec gen_new :: "class_env \<Rightarrow> nat \<Rightarrow> string \<Rightarrow> val option" where
  "gen_new env 0 tn = None"
| "gen_new env (Suc n) tn =
     (case env tn of
        None \<Rightarrow> None
      | Some t \<Rightarrow> map_option (VObj tn) (all_some (map (new_member (gen_new env n)) (td_fields t))))"

primrec gen_deserialize :: "class_env \<Rightarrow> nat \<Rightarrow> reader_call" where
  "gen_deserialize env 0 tn obj r = None"
| "gen_deserialize env (Suc n) tn obj r =
     (case env tn of
        None \<Rightarrow> None
      | Some t \<Rightarrow>
          if \<not> class_compiles t then None
          else map_option (\<lambda>(ok, st). (ok, rs_obj st, rs_reader st))
                 (run_steps (map (exec_read_block (gen_deserialize env n) (gen_new env n)) (deserialize_body t))
                    \<lparr> rs_scopes = [[(''reader'', None)]], rs_obj = obj, rs_reader = r \<rparr>))"

end
