(* ===== verification/Gen_Hygiene.thy ===== *)
theory Gen_Hygiene
  imports Gen_Semantics
begin

text \<open>
  The emitted readers without their local variables. \<open>hygienic\<close> says, field by field from the
  beginning, that the variables a field declares are new and do not hide a member that is read later.
  Under it, running the statements of a field is \<open>read_field\<close>, a function of the value of the field and
  the reader alone (\<open>exec_field\<close>), and a reader is the sequence of these (\<open>gen_deserialize_fields\<close>).
\<close>

section \<open>Names\<close>

definition locals_of :: "FieldDef \<Rightarrow> string list" where
  "locals_of f =
     (case fd_kind f of
        Kprimitive \<Rightarrow>
          (let t = the (fd_type_name f) in
           if t = ''string'' then [StrLenVar (fd_name f)] else if t = ''bool'' then [''b''] else [])
      | Kcustom \<Rightarrow> []
      | Karray \<Rightarrow> [LenVar (fd_name f)])"

definition loop_locals :: "FieldDef \<Rightarrow> string list" where
  "loop_locals f =
     (if fd_kind f = Karray then (if the (fd_element_type f) = ''bool'' then [''i'', ''b''] else [''i'', ''temp'']) else [])"

fun hygienic_from :: "string list \<Rightarrow> FieldDef list \<Rightarrow> bool" where
  "hygienic_from D [] = True"
| "hygienic_from D (f # fs) =
     (list_all (\<lambda>x. x \<notin> set D) (locals_of f) \<and> fd_name f \<notin> set (D @ locals_of f @ loop_locals f)
      \<and> hygienic_from (locals_of f @ D) fs)"

definition hygienic :: "FieldDef list \<Rightarrow> bool" where
  "hygienic fs \<longleftrightarrow> hygienic_from [''reader''] fs \<and> list_all (\<lambda>f. fd_name f \<notin> {''bytes'', ''writer''}) fs"

lemma length_vars_differ [simp]:
  "x \<noteq> LenVar x" "x \<noteq> StrLenVar x" "x \<noteq> ElemStrLenVar x" "LenVar x \<noteq> x" "StrLenVar x \<noteq> x" "ElemStrLenVar x \<noteq> x"
  "ElemStrLenVar x \<noteq> LenVar x" "LenVar x \<noteq> ElemStrLenVar x"
  by (simp_all add: LenVar_def StrLenVar_def ElemStrLenVar_def)

lemma length_vars_long [simp]:
  "ElemStrLenVar x \<noteq> ''temp''" "ElemStrLenVar x \<noteq> ''i''" "ElemStrLenVar x \<noteq> ''b''"
  "''temp'' \<noteq> ElemStrLenVar x" "''i'' \<noteq> ElemStrLenVar x" "''b'' \<noteq> ElemStrLenVar x"
  "LenVar x \<noteq> ''i''" "LenVar x \<noteq> ''temp''" "LenVar x \<noteq> ''b''"
proof -
  have len: "length (ElemStrLenVar x) \<noteq> n" if "n < 10" for n using that by (simp add: ElemStrLenVar_def)
  have len3: "length (LenVar x) \<noteq> n" if "n < 3" for n using that by (simp add: LenVar_def)
  show "ElemStrLenVar x \<noteq> ''temp''"
  proof
    assume "ElemStrLenVar x = ''temp''"
    with len [of "length ''temp''"] show False by simp
  qed
  then show "''temp'' \<noteq> ElemStrLenVar x" by (rule not_sym)
  show neq: "ElemStrLenVar x \<noteq> ''i''" "ElemStrLenVar x \<noteq> ''b''" using len [of 1] by auto
  show "''i'' \<noteq> ElemStrLenVar x" "''b'' \<noteq> ElemStrLenVar x" by (rule neq [THEN not_sym])+
  show "LenVar x \<noteq> ''i''" "LenVar x \<noteq> ''b''" using len3 [of 1] by auto
  show "LenVar x \<noteq> ''temp''"
  proof
    assume "LenVar x = ''temp''"
    then have "last (LenVar x) = last ''temp''" by simp
    then show False by (simp add: LenVar_def)
  qed
qed

section \<open>Reading one field\<close>

text \<open>An element: \<open>None\<close> for the value if the reader fails.\<close>

definition read_elem ::
    "reader_call \<Rightarrow> (string \<Rightarrow> val option) \<Rightarrow> string \<Rightarrow> string \<Rightarrow> ByteReader \<Rightarrow> (val option \<times> ByteReader) option" where
  "read_elem call new lt e r =
     (if e = ''string'' then
        (case read_int lt r of
           None \<Rightarrow> Some (None, r)
         | Some (k, r1) \<Rightarrow>
             (case readBytes k r1 of None \<Rightarrow> Some (None, r1) | Some (s, r2) \<Rightarrow> Some (Some (VStr s), r2)))
      else if e = ''bool'' then
        (case read_int ''u8'' r of None \<Rightarrow> Some (None, r) | Some (k, r1) \<Rightarrow> Some (Some (VBool (k \<noteq> 0)), r1))
      else if is_primitive e then
        (case read_value e r of None \<Rightarrow> Some (None, r) | Some (v, r1) \<Rightarrow> Some (Some v, r1))
      else
        (case new e of
           Some (VObj tn fs) \<Rightarrow>
             if tn \<noteq> e then None
             else map_option (\<lambda>(ok, fs', r1). (if ok then Some (VObj tn fs') else None, r1)) (call tn fs r)
         | _ \<Rightarrow> None))"

primrec read_elem_loop ::
    "(ByteReader \<Rightarrow> (val option \<times> ByteReader) option) \<Rightarrow> nat \<Rightarrow> val list \<Rightarrow> ByteReader
      \<Rightarrow> (bool \<times> val list \<times> ByteReader) option" where
  "read_elem_loop rd 0 vs r = Some (True, vs, r)"
| "read_elem_loop rd (Suc k) vs r =
     (case rd r of
        None \<Rightarrow> None
      | Some (None, r') \<Rightarrow> Some (False, vs, r')
      | Some (Some v, r') \<Rightarrow> read_elem_loop rd k (vs @ [v]) r')"

definition read_field ::
    "reader_call \<Rightarrow> (string \<Rightarrow> val option) \<Rightarrow> FieldDef \<Rightarrow> val \<Rightarrow> ByteReader \<Rightarrow> (bool \<times> val \<times> ByteReader) option" where
  "read_field call new f v r =
     (let lt = length_type f in
      case fd_kind f of
        Kprimitive \<Rightarrow>
          (let t = the (fd_type_name f) in
           if t = ''string'' then
             (case read_int lt r of
                None \<Rightarrow> Some (False, v, r)
              | Some (k, r1) \<Rightarrow>
                  (case readBytes k r1 of None \<Rightarrow> Some (False, v, r1) | Some (s, r2) \<Rightarrow> Some (True, VStr s, r2)))
           else if t = ''bool'' then
             (case read_int ''u8'' r of None \<Rightarrow> Some (False, v, r) | Some (k, r1) \<Rightarrow> Some (True, VBool (k \<noteq> 0), r1))
           else (case read_value t r of None \<Rightarrow> Some (False, v, r) | Some (v', r1) \<Rightarrow> Some (True, v', r1)))
      | Kcustom \<Rightarrow>
          (case v of
             VObj tn fs \<Rightarrow> map_option (\<lambda>(ok, fs', r1). (ok, VObj tn fs', r1)) (call tn fs r)
           | _ \<Rightarrow> None)
      | Karray \<Rightarrow>
          (case read_int lt r of
             None \<Rightarrow> Some (False, v, r)
           | Some (k, r1) \<Rightarrow>
               (let e = the (fd_element_type f) in
                map_option (\<lambda>(ok, vs, r2). (ok, VVec e vs, r2))
                  (read_elem_loop (read_elem call new lt e) k [] r1))))"

text \<open>A value of the right type for a field, as far as the reader of the field looks.\<close>

definition prim_shape :: "string \<Rightarrow> val \<Rightarrow> bool" where
  "prim_shape t v \<longleftrightarrow>
     (case v of
        VInt t' n \<Rightarrow> t' = t \<and> is_int t
      | VFloat u \<Rightarrow> t = ''f32''
      | VDouble u \<Rightarrow> t = ''f64''
      | VBool b \<Rightarrow> t = ''bool''
      | VStr s \<Rightarrow> t = ''string''
      | _ \<Rightarrow> False)"

definition fits :: "FieldDef \<Rightarrow> val \<Rightarrow> bool" where
  "fits f v \<longleftrightarrow>
     (case fd_kind f of
        Kprimitive \<Rightarrow> prim_shape (the (fd_type_name f)) v
      | Kcustom \<Rightarrow> (case v of VObj tn fs \<Rightarrow> tn = the (fd_type_name f) | _ \<Rightarrow> False)
      | Karray \<Rightarrow> (case v of
            VVec e vs \<Rightarrow> e = the (fd_element_type f) \<and> (is_primitive e \<longrightarrow> list_all (prim_shape e) vs)
          | _ \<Rightarrow> False))"

lemma is_int_keys:
  "is_int t \<longleftrightarrow> t \<in> {''u8'', ''u16'', ''u32'', ''u64'', ''i8'', ''i16'', ''i32'', ''i64''}"
  by (auto simp: is_int_def int_bytes_def)

lemma primitive_cases:
  "is_primitive t \<longleftrightarrow> is_int t \<or> t = ''f32'' \<or> t = ''f64'' \<or> t = ''bool'' \<or> t = ''string''"
  by (auto simp: is_primitive_def is_int_keys PRIMITIVE_CPP_TYPES_def)

lemma is_int_simps [simp]:
  "is_int ''u8''" "\<not> is_int ''f32''" "\<not> is_int ''f64''" "\<not> is_int ''bool''" "\<not> is_int ''string''"
  by (simp_all add: is_int_keys)

lemma prim_shape_simps:
  "prim_shape ''string'' v \<longleftrightarrow> (\<exists>s. v = VStr s)"
  "prim_shape ''bool'' v \<longleftrightarrow> (\<exists>b. v = VBool b)"
  "prim_shape ''f32'' v \<longleftrightarrow> (\<exists>u. v = VFloat u)"
  "prim_shape ''f64'' v \<longleftrightarrow> (\<exists>u. v = VDouble u)"
  "is_int t \<Longrightarrow> prim_shape t v \<longleftrightarrow> (\<exists>n. v = VInt t n)"
  by (cases v; force simp: prim_shape_def)+

lemma prim_shape_vtype: "prim_shape t v \<Longrightarrow> vtype v = Prim t"
  by (auto simp: prim_shape_def split: val.splits)

section \<open>Symbolic execution\<close>

lemma update_same: "map_of al x = Some v \<Longrightarrow> AList.update x v al = al"
  by (induction al) (auto split: if_splits)

lemma map_of_update [simp]: "map_of (AList.update x v al) y = (if y = x then Some v else map_of al y)"
  by (simp add: update_conv')

lemma find_local_Cons [simp]: "find_local ((p # sc) # scs) x = (if x = fst p then Some (snd p) else find_local (sc # scs) x)"
  by (cases p) simp

lemma read_value_int: "is_int t \<Longrightarrow> read_value t r = map_option (apfst (VInt t)) (read_int t r)"
  by (auto simp: read_value_def)

lemma read_value_shape: "read_value t r = Some (v, r') \<Longrightarrow> is_int t \<or> t = ''f32'' \<or> t = ''f64'' \<Longrightarrow> prim_shape t v"
  by (auto simp: read_value_def prim_shape_def split: if_splits)

lemma length_key_int: "length_key l \<Longrightarrow> is_int l"
  by (auto simp: length_key_def is_int_keys)

lemma initial_int: "is_int t \<Longrightarrow> initial new t = Some (VInt t 0)"
  by (simp add: initial_def)

lemma initial_temp:
  "initial new ''string'' = Some (VStr [])" "initial new ''f32'' = Some (VFloat 0)"
  "initial new ''f64'' = Some (VDouble 0)" "\<not> is_primitive t \<Longrightarrow> initial new t = new t"
  by (auto simp: initial_def primitive_cases)

lemmas var_defs = read_var_def assign_var_def declare_var_def push_back_def loop_round_def

lemma loop_round_elem:
  assumes "map_of obj x = Some (VVec e vs)" and "map_of sc x = None" and "length_key lt"
    and "x \<notin> set (if e = ''bool'' then [''i'', ''b''] else [''i'', ''temp''])"
    and "\<And>t v. new t = Some v \<Longrightarrow> \<exists>fs. v = VObj t fs"
  shows "loop_round (map (exec_read call new) (emit_element e lt x)) i
      \<lparr> rs_scopes = [sc], rs_obj = obj, rs_reader = r \<rparr>
    = (case read_elem call new lt e r of
         None \<Rightarrow> None
       | Some (None, r') \<Rightarrow> Some (False, \<lparr> rs_scopes = [sc], rs_obj = obj, rs_reader = r' \<rparr>)
       | Some (Some v, r') \<Rightarrow>
           Some (True, \<lparr> rs_scopes = [sc], rs_obj = AList.update x (VVec e (vs @ [v])) obj, rs_reader = r' \<rparr>))"
proof -
  note lt = length_key_int [OF assms(3)]
  consider "e = ''string''" | "e = ''bool''" | "is_int e" | "e = ''f32''" | "e = ''f64''" | "\<not> is_primitive e"
    by (auto simp: primitive_cases)
  then show ?thesis
  proof cases
    case 1
    with assms lt show ?thesis
      by (auto simp: emit_element_def var_defs initial_int initial_temp read_elem_def read_value_int ctype_of_def
          split: option.split)
  next
    case 2
    with assms lt show ?thesis
      by (auto simp: emit_element_def var_defs initial_int initial_temp read_elem_def read_value_int ctype_of_def
          split: option.split)
  next
    case 3
    then have "e \<noteq> ''string''" "e \<noteq> ''bool''" "is_primitive e" by (auto simp: primitive_cases)
    with 3 assms lt show ?thesis
      by (auto simp: emit_element_def var_defs initial_int initial_temp read_elem_def read_value_int ctype_of_def
          split: option.split)
  next
    case 4
    with assms lt show ?thesis
      by (auto simp: emit_element_def var_defs initial_int initial_temp read_elem_def read_value_def ctype_of_def
          split: option.split)
  next
    case 5
    with assms lt show ?thesis
      by (auto simp: emit_element_def var_defs initial_int initial_temp read_elem_def read_value_def ctype_of_def
          split: option.split)
  next
    case 6
    then have e: "e \<noteq> ''string''" "e \<noteq> ''bool''" by auto
    show ?thesis
    proof (cases "new e")
      case None
      with 6 e show ?thesis by (simp add: emit_element_def initial_temp read_elem_def loop_round_def)
    next
      case (Some v)
      with assms(5) obtain fs where "v = VObj e fs" by blast
      with Some 6 e assms(1-4) show ?thesis
        by (auto simp: emit_element_def var_defs initial_temp read_elem_def ctype_of_def split: option.split)
    qed
  qed
qed

text \<open>The loop over the elements.\<close>

lemma exec_elem_loop:
  assumes "map_of obj x = Some (VVec e vs)" and "map_of sc x = None" and "length_key lt"
    and "x \<notin> set (if e = ''bool'' then [''i'', ''b''] else [''i'', ''temp''])"
    and "\<And>t v. new t = Some v \<Longrightarrow> \<exists>fs. v = VObj t fs"
  shows "run_steps (map (\<lambda>i. loop_round (map (exec_read call new) (emit_element e lt x)) (VInt lt i)) ks)
      \<lparr> rs_scopes = [sc], rs_obj = obj, rs_reader = r \<rparr>
    = map_option (\<lambda>(ok, ws, r'). (ok, \<lparr> rs_scopes = [sc], rs_obj = AList.update x (VVec e ws) obj, rs_reader = r' \<rparr>))
        (read_elem_loop (read_elem call new lt e) (length ks) vs r)"
  using assms(1)
proof (induction ks arbitrary: obj vs r)
  case Nil
  then show ?case by (simp add: update_same)
next
  case (Cons i ks)
  note round = loop_round_elem [OF Cons.prems assms(2-5), where call = call and i = "VInt lt i" and r = r]
  show ?case
  proof (cases "read_elem call new lt e r")
    case None
    with round show ?thesis by simp
  next
    case (Some res)
    obtain v r' where res: "res = (v, r')" by fastforce
    show ?thesis
    proof (cases v)
      case None
      with Some res round Cons.prems show ?thesis by (simp add: update_same)
    next
      case (Some w)
      let ?obj = "AList.update x (VVec e (vs @ [w])) obj"
      have "map_of ?obj x = Some (VVec e (vs @ [w]))" by simp
      from Cons.IH [OF this, of r'] show ?thesis
        using Some res round \<open>read_elem call new lt e r = Some res\<close>
        by (simp add: option.map_comp comp_def case_prod_unfold)
    qed
  qed
qed

text \<open>How running the statements of a field compares with its reading function: the same verdict, member and
  reader, and on success no more local variables than the field declares.\<close>

definition agrees ::
    "scope \<Rightarrow> fields \<Rightarrow> FieldDef \<Rightarrow> (bool \<times> read_state) option \<Rightarrow> (bool \<times> val \<times> ByteReader) option \<Rightarrow> bool" where
  "agrees sc obj f run res \<longleftrightarrow>
     (case res of
        None \<Rightarrow> run = None
      | Some (ok, v, r) \<Rightarrow>
          (\<exists>sc'. run = Some (ok, \<lparr> rs_scopes = [sc'], rs_obj = AList.update (fd_name f) v obj, rs_reader = r \<rparr>)
             \<and> (ok \<longrightarrow> fst ` set sc' = set (locals_of f) \<union> fst ` set sc)))"

lemma exec_field:
  assumes wf: "field_wf known f" and v: "map_of obj (fd_name f) = Some v" "fits f v"
    and fresh: "list_all (\<lambda>x. map_of sc x = None) (locals_of f)" and visible: "map_of sc (fd_name f) = None"
    and name: "fd_name f \<notin> set (locals_of f @ loop_locals f)"
    and new: "\<And>t v. new t = Some v \<Longrightarrow> \<exists>fs. v = VObj t fs"
  shows "agrees sc obj f
    (run_steps (map (exec_read_block call new) (emit_deserialize f)) \<lparr> rs_scopes = [sc], rs_obj = obj, rs_reader = r \<rparr>)
    (read_field call new f v r)"
proof (cases "fd_kind f")
  case Kcustom
  with v obtain fs where "v = VObj (the (fd_type_name f)) fs" by (auto simp: fits_def split: val.splits)
  with Kcustom v visible show ?thesis
    by (auto simp: emit_deserialize_def read_field_def Let_def var_defs agrees_def locals_of_def split: option.split)
next
  case Kprimitive
  with wf obtain t where t: "fd_type_name f = Some t" "is_primitive t" "t = ''string'' \<longrightarrow> length_key (length_type f)"
    by (auto simp: field_wf_def length_types split: option.splits)
  from Kprimitive v(2) t(1) have shape: "prim_shape t v" by (simp add: fits_def)
  consider "t = ''string''" | "t = ''bool''" | "is_int t \<or> t = ''f32'' \<or> t = ''f64''"
    using t(2) by (auto simp: primitive_cases)
  then show ?thesis
  proof cases
    case 1
    with t have "is_int (length_type f)" by (auto simp: length_key_int)
    with 1 Kprimitive t(1) shape v(1) fresh visible show ?thesis
      by (auto simp: emit_deserialize_def read_field_def Let_def var_defs agrees_def locals_of_def initial_int
          read_value_int prim_shape_simps update_same split: option.split)
  next
    case 2
    with Kprimitive t(1) shape v(1) fresh visible name show ?thesis
      by (auto simp: emit_deserialize_def read_field_def Let_def var_defs agrees_def locals_of_def initial_int
          read_value_int prim_shape_simps update_same split: option.split)
  next
    case 3
    then have "t \<noteq> ''string''" "t \<noteq> ''bool''" by auto
    with 3 Kprimitive t(1) prim_shape_vtype [OF shape] v(1) visible show ?thesis
      by (auto simp: emit_deserialize_def read_field_def Let_def var_defs agrees_def locals_of_def update_same split: option.split)
  qed
next
  case Karray
  let ?e = "the (fd_element_type f)" and ?x = "fd_name f" and ?lt = "length_type f"
  from Karray wf have lt: "length_key ?lt" by (intro length_types) (simp add: field_wf_def)
  note int = length_key_int [OF lt]
  from Karray v obtain vs where vs: "v = VVec ?e vs" by (auto simp: fits_def split: val.splits)
  from Karray name have loop: "?x \<notin> set (if ?e = ''bool'' then [''i'', ''b''] else [''i'', ''temp''])"
    by (auto simp: loop_locals_def split: if_splits)
  from Karray fresh have len: "map_of sc (LenVar ?x) = None" by (simp add: locals_of_def)
  show ?thesis
  proof (cases "read_int ?lt r")
    case None
    with Karray vs v int visible len show ?thesis
      by (simp add: emit_deserialize_def read_field_def Let_def var_defs agrees_def initial_int read_value_int
          update_same)
  next
    case (Some kr)
    obtain k r1 where kr: "kr = (k, r1)" by fastforce
    let ?sc = "(LenVar ?x, Some (VInt ?lt k)) # sc"
    let ?obj = "AList.update ?x (VVec ?e []) obj"
    have "map_of ?obj ?x = Some (VVec ?e [])" "map_of ?sc ?x = None" using visible by simp_all
    note this lt loop new
    note loop = exec_elem_loop [OF this, where call = call and ks = "[0..<k]" and r = r1]
    from Some kr Karray vs v int visible len loop show ?thesis
      by (simp add: emit_deserialize_def read_field_def Let_def var_defs agrees_def locals_of_def initial_int
          read_value_int split: option.split)
  qed
qed

section \<open>Reading an object\<close>

primrec read_fields ::
    "reader_call \<Rightarrow> (string \<Rightarrow> val option) \<Rightarrow> FieldDef list \<Rightarrow> fields \<Rightarrow> ByteReader
      \<Rightarrow> (bool \<times> fields \<times> ByteReader) option" where
  "read_fields call new [] obj r = Some (True, obj, r)"
| "read_fields call new (f # fs) obj r =
     (case map_of obj (fd_name f) of
        None \<Rightarrow> None
      | Some v \<Rightarrow>
          (case read_field call new f v r of
             None \<Rightarrow> None
           | Some (ok, v', r') \<Rightarrow>
               if \<not> ok then Some (False, AList.update (fd_name f) v' obj, r')
               else read_fields call new fs (AList.update (fd_name f) v' obj) r'))"

definition fits_object :: "FieldDef list \<Rightarrow> fields \<Rightarrow> bool" where
  "fits_object fs obj \<longleftrightarrow> list_all (\<lambda>f. case map_of obj (fd_name f) of None \<Rightarrow> False | Some v \<Rightarrow> fits f v) fs"

lemma fits_object_update:
  "fits_object fs obj \<Longrightarrow> x \<notin> set (map fd_name fs) \<Longrightarrow> fits_object fs (AList.update x v obj)"
  by (auto simp: fits_object_def list_all_iff)

lemma scope_free: "map_of sc x = None \<longleftrightarrow> x \<notin> fst ` set sc"
  by (simp add: map_of_eq_None_iff)

lemma exec_fields:
  assumes "list_all (field_wf known) fs" and "hygienic_from D fs" and "fst ` set sc = set D"
    and "distinct (map fd_name fs)" and "fits_object fs obj"
    and "\<And>t v. new t = Some v \<Longrightarrow> \<exists>fs. v = VObj t fs"
  shows "map_option (\<lambda>(ok, st). (ok, rs_obj st, rs_reader st))
      (run_steps (map (exec_read_block call new) (concat (map emit_deserialize fs)))
        \<lparr> rs_scopes = [sc], rs_obj = obj, rs_reader = r \<rparr>)
    = read_fields call new fs obj r"
  using assms(1-5)
proof (induction fs arbitrary: D sc obj r)
  case Nil
  then show ?case by simp
next
  case (Cons f fs)
  from Cons.prems(5) obtain v where v: "map_of obj (fd_name f) = Some v" "fits f v"
    by (auto simp: fits_object_def split: option.splits)
  have free: "list_all (\<lambda>x. map_of sc x = None) (locals_of f)" "map_of sc (fd_name f) = None"
    using Cons.prems(2,3) by (auto simp: scope_free)
  have wf: "field_wf known f" and name: "fd_name f \<notin> set (locals_of f @ loop_locals f)"
    using Cons.prems(1,2) by auto
  let ?st = "\<lparr> rs_scopes = [sc], rs_obj = obj, rs_reader = r \<rparr>"
  from exec_field [OF wf v free name assms(6)]
  have agrees: "agrees sc obj f (run_steps (map (exec_read_block call new) (emit_deserialize f)) ?st)
      (read_field call new f v r)" by simp
  show ?case
  proof (cases "read_field call new f v r")
    case None
    with agrees v show ?thesis by (simp add: agrees_def run_steps_append)
  next
    case (Some res)
    obtain ok v' r' where res: "res = (ok, v', r')" by (rule prod_cases3)
    let ?obj = "AList.update (fd_name f) v' obj"
    from agrees Some res obtain sc' where
      run: "run_steps (map (exec_read_block call new) (emit_deserialize f)) ?st
        = Some (ok, \<lparr> rs_scopes = [sc'], rs_obj = ?obj, rs_reader = r' \<rparr>)"
      and sc': "ok \<Longrightarrow> fst ` set sc' = set (locals_of f) \<union> fst ` set sc" by (auto simp: agrees_def)
    show ?thesis
    proof (cases ok)
      case False
      with run Some res v show ?thesis by (simp add: run_steps_append)
    next
      case True
      have "fits_object (f # fs) obj \<Longrightarrow> fits_object fs obj" by (simp add: fits_object_def)
      with Cons.prems have "fits_object fs ?obj" by (intro fits_object_update) simp_all
      moreover have "fst ` set sc' = set (locals_of f @ D)" using sc' [OF True] Cons.prems(3) by simp
      ultimately have "map_option (\<lambda>(ok, st). (ok, rs_obj st, rs_reader st))
          (run_steps (map (exec_read_block call new) (concat (map emit_deserialize fs)))
            \<lparr> rs_scopes = [sc'], rs_obj = ?obj, rs_reader = r' \<rparr>) = read_fields call new fs ?obj r'"
        using Cons.prems by (intro Cons.IH [where D = "locals_of f @ D"]) simp_all
      with True run Some res v show ?thesis by (simp add: run_steps_append)
    qed
  qed
qed

lemma gen_new_class: "gen_new env n t = Some v \<Longrightarrow> \<exists>fs. v = VObj t fs"
  by (cases n) (auto split: option.splits)

lemma gen_deserialize_fields:
  assumes "env tn = Some t" and "class_compiles t" and "list_all (field_wf known) (td_fields t)"
    and "hygienic (td_fields t)" and "fits_object (td_fields t) obj"
  shows "gen_deserialize env (Suc n) tn obj r
    = read_fields (gen_deserialize env n) (gen_new env n) (td_fields t) obj r"
proof -
  have "hygienic_from [''reader''] (td_fields t)" "distinct (map fd_name (td_fields t))"
    using assms(2,4) by (simp_all add: hygienic_def class_compiles_def)
  from exec_fields [OF assms(3) this(1) _ this(2) assms(5) gen_new_class] assms(1,2)
  show ?thesis by (simp add: deserialize_body_def)
qed

section \<open>Writing\<close>

definition write_string :: "string \<Rightarrow> string \<Rightarrow> bytes stepper" where
  "write_string lt s out =
     (if length s > max_size lt then Some (False, out)
      else Some (True, write_int lt (length s) out @ map char_byte s))"

definition write_elem :: "(string \<Rightarrow> fields \<Rightarrow> bytes stepper) \<Rightarrow> string \<Rightarrow> string \<Rightarrow> val \<Rightarrow> bytes stepper" where
  "write_elem call lt e v out =
     (if e = ''string'' then (case v of VStr s \<Rightarrow> write_string lt s out | _ \<Rightarrow> None)
      else if is_primitive e then write_value e v out
      else (case v of VObj tn fs \<Rightarrow> call tn fs out | _ \<Rightarrow> None))"

definition write_field :: "(string \<Rightarrow> fields \<Rightarrow> bytes stepper) \<Rightarrow> FieldDef \<Rightarrow> val \<Rightarrow> bytes stepper" where
  "write_field call f v out =
     (let lt = length_type f in
      case fd_kind f of
        Kprimitive \<Rightarrow>
          (let t = the (fd_type_name f) in
           if t = ''string'' then (case v of VStr s \<Rightarrow> write_string lt s out | _ \<Rightarrow> None) else write_value t v out)
      | Kcustom \<Rightarrow> (case v of VObj tn fs \<Rightarrow> call tn fs out | _ \<Rightarrow> None)
      | Karray \<Rightarrow>
          (case v of
             VVec e vs \<Rightarrow>
               if length vs > max_size lt then Some (False, out)
               else run_steps (map (write_elem call lt (the (fd_element_type f))) vs) (write_int lt (length vs) out)
           | _ \<Rightarrow> None))"

lemma run_last [simp]:
  "(case x of None \<Rightarrow> None | Some (ok, s') \<Rightarrow> if \<not> ok then Some (False, s') else run_steps [] s') = x"
  by (auto split: option.split)

lemma run_single [simp]: "run_steps [f] s = f s"
  by simp

lemma exec_write_elem:
  assumes "shape = (if e = ''string'' then [CheckSize ''elem'' lt, WriteSize ''elem'' lt, AppendString ''elem'']
               else if is_primitive e then [WriteValue e ''elem''] else [WriteObject ''elem''])"
    and "e = ''string'' \<Longrightarrow> prim_shape e v"
  shows "run_steps (map (exec_write call (Some v) obj) shape) out = write_elem call lt e v out"
  using assms by (auto simp: write_elem_def write_var_def write_string_def prim_shape_simps)

lemma exec_write_field:
  assumes "map_of obj (fd_name f) = Some v" and "fits f v" and "fd_name f \<notin> {''bytes'', ''writer''}"
  shows "run_steps (map (exec_write_block call obj) (emit_serialize f)) out = write_field call f v out"
proof (cases "fd_kind f")
  case Karray
  with assms(2) obtain vs where vs: "v = VVec (the (fd_element_type f)) vs"
    and prim: "is_primitive (the (fd_element_type f)) \<Longrightarrow> list_all (prim_shape (the (fd_element_type f))) vs"
    by (auto simp: fits_def split: val.splits)
  have "run_steps (map (\<lambda>w. run_steps (map (exec_write call (Some w) obj)
      (if the (fd_element_type f) = ''string''
       then [CheckSize ''elem'' (length_type f), WriteSize ''elem'' (length_type f), AppendString ''elem'']
       else if is_primitive (the (fd_element_type f)) then [WriteValue (the (fd_element_type f)) ''elem'']
       else [WriteObject ''elem'']))) vs) out
    = run_steps (map (write_elem call (length_type f) (the (fd_element_type f))) vs) out" for out
    using prim by (intro arg_cong2 [of _ _ _ _ run_steps] map_cong refl ext exec_write_elem) (auto simp: list_all_iff)
  with Karray vs assms(1,3) show ?thesis
    by (simp add: emit_serialize_def write_field_def Let_def write_var_def)
next
  case Kprimitive
  with assms show ?thesis
    by (auto simp: emit_serialize_def write_field_def Let_def write_var_def write_string_def fits_def prim_shape_simps)
next
  case Kcustom
  with assms show ?thesis by (auto simp: emit_serialize_def write_field_def Let_def write_var_def)
qed

text \<open>Writing an object is writing its members in order.\<close>

definition write_member :: "(string \<Rightarrow> fields \<Rightarrow> bytes stepper) \<Rightarrow> fields \<Rightarrow> FieldDef \<Rightarrow> bytes stepper" where
  "write_member call obj f =
     (case map_of obj (fd_name f) of None \<Rightarrow> (\<lambda>out. None) | Some v \<Rightarrow> write_field call f v)"

lemma run_steps_concat:
  "(\<And>f s. f \<in> set fs \<Longrightarrow> run_steps (g f) s = h f s) \<Longrightarrow> run_steps (concat (map g fs)) s = run_steps (map h fs) s"
  by (induction fs arbitrary: s) (auto simp: run_steps_append split: option.split)

lemma gen_serialize_fields:
  assumes "env tn = Some t" and "class_compiles t" and "hygienic (td_fields t)" and "fits_object (td_fields t) obj"
  shows "gen_serialize env (Suc n) tn obj out
    = run_steps (map (write_member (gen_serialize env n) obj) (td_fields t)) out"
proof -
  have "run_steps (map (exec_write_block (gen_serialize env n) obj) (emit_serialize f)) out
      = write_member (gen_serialize env n) obj f out" if "f \<in> set (td_fields t)" for f out
  proof -
    from that assms(4) obtain v where "map_of obj (fd_name f) = Some v" "fits f v"
      by (auto simp: fits_object_def list_all_iff split: option.splits)
    moreover from that assms(3) have "fd_name f \<notin> {''bytes'', ''writer''}" by (auto simp: hygienic_def list_all_iff)
    ultimately show ?thesis by (simp add: exec_write_field write_member_def)
  qed
  then have "run_steps (concat (map (\<lambda>f. map (exec_write_block (gen_serialize env n) obj) (emit_serialize f)) (td_fields t))) out
      = run_steps (map (write_member (gen_serialize env n) obj) (td_fields t)) out"
    by (intro run_steps_concat)
  then show ?thesis using assms(1,2) by (simp add: serialize_body_def map_concat comp_def)
qed

end
