(* ===== verification/Gen_Correct.thy ===== *)
theory Gen_Correct
  imports Gen_Hygiene
begin

text \<open>
  The encoding an interface description stands for, and that the generated code implements it: for every
  accepted description with hygienic names, \<open>serializeTo\<close> writes the encoding of the object or refuses it
  because a length does not fit, and \<open>deserializeFromReader\<close> reads it back. The contract of the generated
  members of a class is the locale \<open>object_codec\<close>; it goes up one level of nesting in \<open>codec_step\<close>.
\<close>

section \<open>The encoding\<close>

definition int_image :: "string \<Rightarrow> nat \<Rightarrow> bytes" where
  "int_image t n = be_bytes (the (int_bytes t)) (of_nat n :: u64)"

fun value_image :: "val \<Rightarrow> bytes" where
  "value_image (VInt t n) = int_image t n"
| "value_image (VFloat u) = be_bytes 4 u"
| "value_image (VDouble u) = be_bytes 8 u"
| "value_image (VBool b) = [if b then 1 else 0]"
| "value_image _ = []"

text \<open>A length that its type cannot hold has no encoding.\<close>

definition size_image :: "string \<Rightarrow> nat \<Rightarrow> bytes option" where
  "size_image lt n = (if n \<le> max_size lt then Some (int_image lt n) else None)"

definition string_image :: "string \<Rightarrow> string \<Rightarrow> bytes option" where
  "string_image lt s = map_option (\<lambda>p. p @ map char_byte s) (size_image lt (length s))"

definition concat_images :: "bytes option list \<Rightarrow> bytes option" where
  "concat_images imgs = map_option concat (all_some imgs)"

definition elem_image :: "(string \<Rightarrow> fields \<Rightarrow> bytes option) \<Rightarrow> string \<Rightarrow> val \<Rightarrow> bytes option" where
  "elem_image sub lt v =
     (case v of
        VObj tn fs \<Rightarrow> sub tn fs
      | VStr s \<Rightarrow> string_image lt s
      | _ \<Rightarrow> Some (value_image v))"

definition field_image :: "(string \<Rightarrow> fields \<Rightarrow> bytes option) \<Rightarrow> FieldDef \<Rightarrow> val \<Rightarrow> bytes option" where
  "field_image sub f v =
     (case v of
        VVec e vs \<Rightarrow> concat_images (size_image (length_type f) (length vs) # map (elem_image sub (length_type f)) vs)
      | _ \<Rightarrow> elem_image sub (length_type f) v)"

primrec object_image :: "class_env \<Rightarrow> nat \<Rightarrow> string \<Rightarrow> fields \<Rightarrow> bytes option" where
  "object_image env 0 tn fs = None"
| "object_image env (Suc n) tn fs =
     (case env tn of
        None \<Rightarrow> None
      | Some t \<Rightarrow> concat_images (map2 (\<lambda>f p. field_image (object_image env n) f (snd p)) (td_fields t) fs))"

section \<open>Objects of a class\<close>

definition prim_ok :: "string \<Rightarrow> val \<Rightarrow> bool" where
  "prim_ok t v \<longleftrightarrow> prim_shape t v \<and> (case v of VInt t' n \<Rightarrow> n < 256 ^ the (int_bytes t) | _ \<Rightarrow> True)"

definition elem_ok :: "(string \<Rightarrow> fields \<Rightarrow> bool) \<Rightarrow> string \<Rightarrow> val \<Rightarrow> bool" where
  "elem_ok sub e v \<longleftrightarrow> (if is_primitive e then prim_ok e v else case v of VObj tn fs \<Rightarrow> tn = e \<and> sub tn fs | _ \<Rightarrow> False)"

definition field_ok :: "(string \<Rightarrow> fields \<Rightarrow> bool) \<Rightarrow> FieldDef \<Rightarrow> val \<Rightarrow> bool" where
  "field_ok sub f v \<longleftrightarrow>
     (case fd_kind f of
        Karray \<Rightarrow> (case v of
            VVec e vs \<Rightarrow> e = the (fd_element_type f) \<and> list_all (elem_ok sub e) vs
          | _ \<Rightarrow> False)
      | _ \<Rightarrow> elem_ok sub (the (fd_type_name f)) v)"

text \<open>An object of class \<open>tn\<close> that nests at most \<open>n\<close> deep.\<close>

primrec object_ok :: "class_env \<Rightarrow> nat \<Rightarrow> string \<Rightarrow> fields \<Rightarrow> bool" where
  "object_ok env 0 tn fs = False"
| "object_ok env (Suc n) tn fs =
     (case env tn of
        None \<Rightarrow> False
      | Some t \<Rightarrow> list_all2 (\<lambda>f p. fst p = fd_name f \<and> field_ok (object_ok env n) f (snd p)) (td_fields t) fs)"

section \<open>Integers and floats on the wire\<close>

lemma is_int_bytes: "is_int t \<Longrightarrow> the (int_bytes t) \<in> {1, 2, 4, 8}"
  by (auto simp: is_int_keys int_bytes_def)

lemma be_bytes_narrow:
  assumes "8 * n \<le> LENGTH('a)" and "8 * n \<le> LENGTH('b)"
  shows "be_bytes n (of_nat k :: 'a::len word) = be_bytes n (of_nat k :: 'b::len word)"
  using assms
proof (induction n)
  case (Suc n)
  have "(ucast (drop_bit (8 * n) (of_nat k :: 'a word)) :: u8) = ucast (drop_bit (8 * n) (of_nat k :: 'b word))"
    using Suc.prems by (intro bit_word_eqI) (auto simp: bit_simps)
  with Suc show ?case by simp
qed simp

lemma int_image_narrow:
  "the (int_bytes t) = 1 \<Longrightarrow> int_image t n = be_bytes 1 (of_nat n :: u8)"
  "the (int_bytes t) = 2 \<Longrightarrow> int_image t n = be_bytes 2 (of_nat n :: u16)"
  "the (int_bytes t) = 4 \<Longrightarrow> int_image t n = be_bytes 4 (of_nat n :: u32)"
  "the (int_bytes t) = 8 \<Longrightarrow> int_image t n = be_bytes 8 (of_nat n :: u64)"
  by (simp_all only: int_image_def) (rule be_bytes_narrow; simp)+

lemma write_int_image:
  assumes "is_int t"
  shows "write_int t n out = out @ int_image t n"
  using is_int_bytes [OF assms]
  by (elim insertE emptyE) (simp_all add: write_int_def int_image_narrow Let_def del: be_bytes.simps)

lemma length_int_image [simp]: "length (int_image t n) = the (int_bytes t)"
  by (simp add: int_image_def)

lemma read_byte_image:
  "readIntegralBE \<lparr> br_in = pre @ be_bytes (Suc 0) v @ post, br_pos = length pre \<rparr>
     = Some (v :: u8, \<lparr> br_in = pre @ be_bytes (Suc 0) v @ post, br_pos = Suc (length pre) \<rparr>)"
  using read_int_image [where 'a = 8, of pre v post] by (simp del: be_bytes.simps)

lemma read_sized_image:
  assumes "is_int t" and "n < 256 ^ the (int_bytes t)"
  shows "read_int t \<lparr> br_in = pre @ int_image t n @ post, br_pos = length pre \<rparr>
    = Some (n, \<lparr> br_in = pre @ int_image t n @ post, br_pos = length pre + length (int_image t n) \<rparr>)"
  using is_int_bytes [OF assms(1)] assms(2)
  by (elim insertE emptyE)
    (simp_all add: read_int_def Let_def int_image_narrow read_byte_image
      read_int_image [where 'a = 16, simplified] read_int_image [where 'a = 32, simplified]
      read_int_image [where 'a = 64, simplified] unat_of_nat del: be_bytes.simps)

lemma length_key_max:
  assumes "length_key l" and "n \<le> max_size l"
  shows "n < 256 ^ the (int_bytes l)"
proof -
  have "(0 :: nat) < 256 ^ the (int_bytes l)" by simp
  with assms(2) show ?thesis unfolding max_size_def by linarith
qed

lemma read_bool_image:
  "read_int ''u8'' \<lparr> br_in = pre @ [if b then 1 else 0] @ post, br_pos = length pre \<rparr>
     = Some (if b then 1 else 0, \<lparr> br_in = pre @ [if b then 1 else 0] @ post, br_pos = length pre + 1 \<rparr>)"
proof -
  have "int_bytes ''u8'' = Some 1" by (simp add: int_bytes_def)
  then have img: "int_image ''u8'' (if b then 1 else 0) = [if b then 1 else 0]" by (simp add: int_image_def)
  show ?thesis using read_sized_image [of "''u8''" "if b then 1 else 0" pre post] img
    by (cases b) (simp_all add: \<open>int_bytes ''u8'' = Some 1\<close>)
qed

lemma readBytes_image:
  "readBytes (length s) \<lparr> br_in = pre @ map char_byte s @ post, br_pos = length pre \<rparr>
     = Some (s, \<lparr> br_in = pre @ map char_byte s @ post, br_pos = length pre + length s \<rparr>)"
  by (simp add: readBytes_def remaining_def subrange_append comp_def)

lemma read_float_image:
  "readFloat32BE \<lparr> br_in = pre @ be_bytes 4 u @ post, br_pos = length pre \<rparr>
     = Some (u, \<lparr> br_in = pre @ be_bytes 4 u @ post, br_pos = length pre + 4 \<rparr>)"
  "readFloat64BE \<lparr> br_in = pre @ be_bytes 8 w @ post, br_pos = length pre \<rparr>
     = Some (w, \<lparr> br_in = pre @ be_bytes 8 w @ post, br_pos = length pre + 8 \<rparr>)"
  using read_int_image [where 'a = 32, of pre u post] read_int_image [where 'a = 64, of pre w post]
  by (simp_all add: readFloat32BE_def readFloat64BE_def)

section \<open>Writers and readers of an image\<close>

text \<open>A writer appends the image, or fails if there is none.\<close>

definition writes_image :: "bytes stepper \<Rightarrow> bytes option \<Rightarrow> bool" where
  "writes_image w img \<longleftrightarrow>
     (\<forall>out. case img of None \<Rightarrow> \<exists>out'. w out = Some (False, out') | Some i \<Rightarrow> w out = Some (True, out @ i))"

lemma writes_imageI:
  "(\<And>out. case img of None \<Rightarrow> \<exists>out'. w out = Some (False, out') | Some i \<Rightarrow> w out = Some (True, out @ i))
     \<Longrightarrow> writes_image w img"
  by (simp add: writes_image_def)

lemma writes_image_seq:
  "list_all2 writes_image ws imgs \<Longrightarrow> writes_image (run_steps ws) (concat_images imgs)"
proof (induction rule: list_all2_induct)
  case Nil
  show ?case by (simp add: writes_image_def concat_images_def)
next
  case (Cons w ws img imgs)
  show ?case
  proof (rule writes_imageI)
    fix out
    show "case concat_images (img # imgs) of None \<Rightarrow> \<exists>out'. run_steps (w # ws) out = Some (False, out')
        | Some i \<Rightarrow> run_steps (w # ws) out = Some (True, out @ i)"
    proof (cases img)
      case None
      with Cons.hyps(1) obtain out' where "w out = Some (False, out')" by (auto simp: writes_image_def)
      with None show ?thesis by (simp add: concat_images_def)
    next
      case (Some i)
      with Cons.hyps(1) have "w out = Some (True, out @ i)" by (simp add: writes_image_def)
      moreover from Cons.IH have "case concat_images imgs of None \<Rightarrow> \<exists>out'. run_steps ws (out @ i) = Some (False, out')
        | Some j \<Rightarrow> run_steps ws (out @ i) = Some (True, (out @ i) @ j)" unfolding writes_image_def by blast
      ultimately show ?thesis using Some by (auto simp: concat_images_def split: option.splits)
    qed
  qed
qed

text \<open>A reader returns \<open>x\<close> on the image, wherever it stands, with the cursor behind it.\<close>

definition takes_image :: "(ByteReader \<Rightarrow> ('a \<times> ByteReader) option) \<Rightarrow> bytes \<Rightarrow> 'a \<Rightarrow> bool" where
  "takes_image rd img x \<longleftrightarrow> (\<forall>pre post. rd \<lparr> br_in = pre @ img @ post, br_pos = length pre \<rparr>
     = Some (x, \<lparr> br_in = pre @ img @ post, br_pos = length pre + length img \<rparr>))"

lemma takes_imageD: "takes_image rd img x \<Longrightarrow> rd \<lparr> br_in = pre @ img @ post, br_pos = length pre \<rparr>
     = Some (x, \<lparr> br_in = pre @ img @ post, br_pos = length pre + length img \<rparr>)"
  by (simp add: takes_image_def)

text \<open>With the image split in two, the second part is read from where the first ends.\<close>

lemma takes_imageD2: "takes_image rd img x \<Longrightarrow> rd \<lparr> br_in = pre @ i @ img @ post, br_pos = length pre + length i \<rparr>
     = Some (x, \<lparr> br_in = pre @ i @ img @ post, br_pos = length pre + length i + length img \<rparr>)"
  using takes_imageD [of rd img x "pre @ i" post] by simp

lemma takes_value_image:
  assumes "prim_ok t v" and "t \<noteq> ''string''" and "t \<noteq> ''bool''"
  shows "takes_image (read_value t) (value_image v) v"
proof (cases v)
  case (VInt t' n)
  with assms show ?thesis
    using read_sized_image [of t n]
    by (auto simp: prim_ok_def prim_shape_def takes_image_def read_value_int)
next
  case (VFloat u)
  with assms read_float_image(1) [where u = u] show ?thesis
    by (auto simp: prim_ok_def prim_shape_def takes_image_def read_value_def)
next
  case (VDouble u)
  with assms read_float_image(2) [where w = u] show ?thesis
    by (auto simp: prim_ok_def prim_shape_def takes_image_def read_value_def)
qed (use assms in \<open>auto simp: prim_ok_def prim_shape_def\<close>)

lemma size_image_Some: "size_image lt n = Some i \<longleftrightarrow> n \<le> max_size lt \<and> i = int_image lt n"
  by (auto simp: size_image_def)

lemma takes_size_image:
  "length_key lt \<Longrightarrow> size_image lt n = Some i \<Longrightarrow> takes_image (read_int lt) i n"
  using read_sized_image [of lt n] length_key_max [of lt n]
  by (auto simp: size_image_Some takes_image_def length_key_int)

lemma writes_value_image:
  assumes "prim_ok t v" and "t \<noteq> ''string''"
  shows "writes_image (write_value t v) (Some (value_image v))"
proof (cases v)
  case (VBool b)
  have "int_bytes ''u8'' = Some 1" by (simp add: int_bytes_def)
  then have "int_image ''u8'' (if b then 1 else 0) = [if b then 1 else 0]" by (simp add: int_image_def)
  with VBool assms show ?thesis
    by (cases b) (auto simp: writes_image_def prim_ok_def prim_shape_def write_int_image)
qed (use assms in \<open>auto simp: writes_image_def prim_ok_def prim_shape_def write_int_image writeFloat32BE_def writeFloat64BE_def\<close>)

lemma writes_string_image: "length_key lt \<Longrightarrow> writes_image (write_string lt s) (string_image lt s)"
  by (auto simp: writes_image_def write_string_def string_image_def size_image_def write_int_image length_key_int
      split: option.split)

section \<open>The contract of the members of generated classes\<close>

lemma elem_ok_cases:
  assumes "elem_ok sub e v"
  obtains (string) s where "e = ''string''" "v = VStr s"
    | (bool) b where "e = ''bool''" "v = VBool b"
    | (prim) "is_primitive e" "e \<noteq> ''string''" "e \<noteq> ''bool''" "prim_ok e v"
    | (cls) fs where "\<not> is_primitive e" "v = VObj e fs" "sub e fs"
proof (cases "is_primitive e")
  case True
  with assms have ok: "prim_ok e v" by (simp add: elem_ok_def)
  then have "prim_shape e v" by (simp add: prim_ok_def)
  then show ?thesis
    using True ok string bool prim prim_shape_simps(1,2) [of v] by (cases "e = ''string''"; cases "e = ''bool''") auto
next
  case False
  with assms cls show ?thesis by (auto simp: elem_ok_def split: val.splits)
qed

locale object_codec =
  fixes ser :: "string \<Rightarrow> fields \<Rightarrow> bytes stepper"
    and de :: reader_call
    and new :: "string \<Rightarrow> val option"
    and ok :: "string \<Rightarrow> fields \<Rightarrow> bool"
    and image :: "string \<Rightarrow> fields \<Rightarrow> bytes option"
  assumes writes: "ok tn fs \<Longrightarrow> writes_image (ser tn fs) (image tn fs)"
    and takes: "ok tn y \<Longrightarrow> ok tn fs \<Longrightarrow> image tn fs = Some img \<Longrightarrow>
      takes_image (\<lambda>r. map_option (\<lambda>(b, x, r'). ((b, x), r')) (de tn y r)) img (True, fs)"
    and constructs: "ok tn fs \<Longrightarrow> \<exists>ys. new tn = Some (VObj tn ys) \<and> ok tn ys"
begin

lemma de_image:
  assumes "ok tn y" and "ok tn fs" and "image tn fs = Some img"
  shows "de tn y \<lparr> br_in = pre @ img @ post, br_pos = length pre \<rparr>
    = Some (True, fs, \<lparr> br_in = pre @ img @ post, br_pos = length pre + length img \<rparr>)"
  using takes_imageD [OF takes [OF assms], of pre post] by auto

text \<open>Elements.\<close>

lemma writes_elem:
  assumes "elem_ok ok e v" and "length_key lt"
  shows "writes_image (write_elem ser lt e v) (elem_image image lt v)"
proof -
  from assms(1) show ?thesis
  proof (cases rule: elem_ok_cases)
    case (string s)
    then have "write_elem ser lt e v = write_string lt s" by (auto simp: write_elem_def)
    with string writes_string_image [OF assms(2), of s] show ?thesis by (simp add: elem_image_def)
  next
    case (bool b)
    with assms writes_value_image [of e v] show ?thesis
      by (simp add: write_elem_def elem_image_def writes_image_def elem_ok_def)
  next
    case prim
    then have "elem_image image lt v = Some (value_image v)"
      by (auto simp: elem_image_def prim_ok_def prim_shape_def split: val.splits)
    with prim writes_value_image [of e v] show ?thesis by (simp add: write_elem_def writes_image_def)
  next
    case (cls fs)
    then have "e \<noteq> ''string''" by auto
    with cls have "write_elem ser lt e v = ser e fs" by (auto simp: write_elem_def)
    with cls writes [of e fs] show ?thesis by (simp add: elem_image_def)
  qed
qed

lemma takes_string:
  assumes "length_key lt" and "string_image lt s = Some img"
  shows "\<exists>i. img = i @ map char_byte s \<and> takes_image (read_int lt) i (length s)
    \<and> takes_image (readBytes (length s)) (map char_byte s) s"
proof -
  from assms(2) obtain i where i: "size_image lt (length s) = Some i" "img = i @ map char_byte s"
    by (auto simp: string_image_def)
  then show ?thesis using takes_size_image [OF assms(1) i(1)] readBytes_image
    by (auto simp: takes_image_def)
qed

lemma takes_elem:
  assumes v: "elem_ok ok e v" and lt: "length_key lt" and img: "elem_image image lt v = Some img"
  shows "takes_image (read_elem de new lt e) img (Some v)"
proof -
  from v show ?thesis
  proof (cases rule: elem_ok_cases)
    case (string s)
    with img have "string_image lt s = Some img" by (simp add: elem_image_def)
    from takes_string [OF lt this] obtain i where i: "img = i @ map char_byte s"
      and size: "takes_image (read_int lt) i (length s)"
      and rest: "takes_image (readBytes (length s)) (map char_byte s) s" by blast
    show ?thesis unfolding takes_image_def
      using takes_imageD [OF size] takes_imageD2 [OF rest] string i by (simp add: read_elem_def add.assoc)
  next
    case (bool b)
    with img show ?thesis using read_bool_image [where b = True] read_bool_image [where b = False]
      by (cases b) (auto simp: elem_image_def read_elem_def takes_image_def)
  next
    case prim
    then have "img = value_image v" using img
      by (auto simp: elem_image_def prim_ok_def prim_shape_def split: val.splits)
    with prim takes_value_image [of e v] show ?thesis by (simp add: read_elem_def takes_image_def)
  next
    case (cls fs)
    then have e: "e \<noteq> ''string''" "e \<noteq> ''bool''" by auto
    from constructs [OF cls(3)] obtain ys where "new e = Some (VObj e ys)" "ok e ys" by blast
    with cls e img de_image [of e ys fs img] show ?thesis
      by (simp add: read_elem_def takes_image_def elem_image_def)
  qed
qed

lemma takes_elems:
  assumes "list_all (elem_ok ok e) vs" and "length_key lt" and "all_some (map (elem_image image lt) vs) = Some imgs"
  shows "read_elem_loop (read_elem de new lt e) (length vs) acc
      \<lparr> br_in = pre @ concat imgs @ post, br_pos = length pre \<rparr>
    = Some (True, acc @ vs, \<lparr> br_in = pre @ concat imgs @ post, br_pos = length pre + length (concat imgs) \<rparr>)"
  using assms
proof (induction vs arbitrary: imgs acc pre)
  case (Cons v vs)
  from Cons.prems(3) obtain img imgs' where i: "elem_image image lt v = Some img"
    "all_some (map (elem_image image lt) vs) = Some imgs'" "imgs = img # imgs'" by (auto split: option.splits)
  from Cons.prems have "takes_image (read_elem de new lt e) img (Some v)" by (intro takes_elem [OF _ _ i(1)]) simp_all
  from takes_imageD [OF this, of pre "concat imgs' @ post"]
    Cons.IH [OF _ _ i(2), of "acc @ [v]" "pre @ img"] Cons.prems(1,2)
  show ?case by (simp add: i(3) add.assoc)
qed simp

end

section \<open>One level up\<close>

lemma update_append: "x \<notin> fst ` set al \<Longrightarrow> AList.update x v (al @ (x, w) # bl) = al @ (x, v) # bl"
  by (induction al) auto

definition members_ok :: "(string \<Rightarrow> fields \<Rightarrow> bool) \<Rightarrow> FieldDef list \<Rightarrow> fields \<Rightarrow> bool" where
  "members_ok sub = list_all2 (\<lambda>f p. fst p = fd_name f \<and> field_ok sub f (snd p))"

lemma members_ok_names: "members_ok sub fs ps \<Longrightarrow> map fst ps = map fd_name fs"
  unfolding members_ok_def by (induction rule: list_all2_induct) simp_all

lemma members_ok_map_of:
  assumes "members_ok sub fs ps" and "distinct (map fd_name fs)"
  shows "list_all2 (\<lambda>f p. map_of ps (fd_name f) = Some (snd p) \<and> field_ok sub f (snd p)) fs ps"
proof -
  have "map_of ps (fd_name (fs ! i)) = Some (snd (ps ! i)) \<and> field_ok sub (fs ! i) (snd (ps ! i))"
    if i: "i < length fs" "length fs = length ps" for i
  proof -
    from assms(1) i have "fst (ps ! i) = fd_name (fs ! i)" "field_ok sub (fs ! i) (snd (ps ! i))"
      by (auto simp: members_ok_def list_all2_conv_all_nth)
    moreover have "distinct (map fst ps)" using members_ok_names [OF assms(1)] assms(2) by simp
    ultimately show ?thesis using i by (metis map_of_eq_Some_iff nth_mem prod.collapse)
  qed
  moreover have "length fs = length ps" using assms(1) by (auto simp: members_ok_def dest: list_all2_lengthD)
  ultimately show ?thesis by (auto simp: list_all2_conv_all_nth)
qed

lemma prim_ok_shape: "prim_ok t v \<Longrightarrow> prim_shape t v"
  by (simp add: prim_ok_def)

lemma field_ok_fits:
  assumes "field_ok sub f v" and "field_wf known f"
  shows "fits f v"
  using assms prim_ok_shape
  by (auto simp: field_ok_def fits_def elem_ok_def field_wf_def list_all_iff split: field_kind.splits val.splits
      option.splits)

lemma members_fit:
  assumes "members_ok sub fs ps" and "distinct (map fd_name fs)" and "list_all (field_wf known) fs"
  shows "fits_object fs ps"
  using members_ok_map_of [OF assms(1,2)] assms(3) field_ok_fits
  by (fastforce simp: fits_object_def list_all_length list_all2_conv_all_nth)

context object_codec
begin

lemma writes_field:
  assumes "field_ok ok f v" and "field_wf known f"
  shows "writes_image (write_field ser f v) (field_image image f v)"
proof (cases "fd_kind f")
  case Karray
  let ?e = "the (fd_element_type f)" and ?lt = "length_type f"
  from Karray assms(2) have lt: "length_key ?lt" by (intro length_types) (simp add: field_wf_def)
  from Karray assms(1) obtain vs where vs: "v = VVec ?e vs" "list_all (elem_ok ok ?e) vs"
    by (auto simp: field_ok_def split: val.splits)
  let ?size = "\<lambda>out. if length vs > max_size ?lt then Some (False, out) else Some (True, write_int ?lt (length vs) out)"
  have "writes_image ?size (size_image ?lt (length vs))"
    using length_key_int [OF lt] by (auto simp: writes_image_def size_image_def write_int_image)
  moreover have "list_all2 writes_image (map (write_elem ser ?lt ?e) vs) (map (elem_image image ?lt) vs)"
    using vs(2) writes_elem [OF _ lt] by (auto simp: list_all2_map1 list_all2_map2 list_all2_same list_all_iff)
  ultimately have "writes_image (run_steps (?size # map (write_elem ser ?lt ?e) vs)) (field_image image f v)"
    using writes_image_seq vs(1) by (simp add: field_image_def del: run_steps.simps)
  moreover have "write_field ser f v = run_steps (?size # map (write_elem ser ?lt ?e) vs)"
    using Karray vs(1) by (intro ext) (simp add: write_field_def Let_def)
  ultimately show ?thesis by simp
next
  case Kprimitive
  with assms obtain t where t: "fd_type_name f = Some t" "is_primitive t" "t = ''string'' \<longrightarrow> length_ok f" "prim_ok t v"
    by (auto simp: field_wf_def field_ok_def elem_ok_def split: option.splits)
  show ?thesis
  proof (cases "t = ''string''")
    case True
    with t obtain s where "v = VStr s" using prim_ok_shape [OF t(4)] by (auto simp: prim_shape_simps)
    moreover have "length_key (length_type f)" using True t(3) by (simp add: length_types)
    moreover from calculation have "write_field ser f v = write_string (length_type f) s"
      using True Kprimitive t(1) by (intro ext) (simp add: write_field_def)
    ultimately show ?thesis using writes_string_image [of "length_type f" s]
      by (simp add: field_image_def elem_image_def)
  next
    case False
    then have "write_field ser f v = write_value t v" using Kprimitive t(1) by (intro ext) (simp add: write_field_def)
    moreover have "field_image image f v = Some (value_image v)"
      using False t(4) by (auto simp: field_image_def elem_image_def prim_ok_def prim_shape_def split: val.splits)
    ultimately show ?thesis using writes_value_image [OF t(4) False] by simp
  qed
next
  case Kcustom
  with assms obtain t fs where "fd_type_name f = Some t" "v = VObj t fs" "ok t fs"
    by (auto simp: field_wf_def field_ok_def elem_ok_def split: option.splits val.splits)
  moreover from calculation Kcustom have "write_field ser f v = ser t fs" by (intro ext) (simp add: write_field_def)
  ultimately show ?thesis using writes [of t fs] by (simp add: field_image_def elem_image_def)
qed

lemma takes_field:
  assumes y: "field_ok ok f y" and v: "field_ok ok f v" and wf: "field_wf known f"
    and img: "field_image image f v = Some img"
  shows "read_field de new f y \<lparr> br_in = pre @ img @ post, br_pos = length pre \<rparr>
    = Some (True, v, \<lparr> br_in = pre @ img @ post, br_pos = length pre + length img \<rparr>)"
proof (cases "fd_kind f")
  case Karray
  let ?e = "the (fd_element_type f)" and ?lt = "length_type f"
  from Karray wf have lt: "length_key ?lt" by (intro length_types) (simp add: field_wf_def)
  from Karray v obtain vs where vs: "v = VVec ?e vs" "list_all (elem_ok ok ?e) vs"
    by (auto simp: field_ok_def split: val.splits)
  from img vs(1) obtain i imgs where i: "size_image ?lt (length vs) = Some i"
    "all_some (map (elem_image image ?lt) vs) = Some imgs" "img = i @ concat imgs"
    by (auto simp: field_image_def concat_images_def split: option.splits)
  from takes_imageD [OF takes_size_image [OF lt i(1)], of pre "concat imgs @ post"]
    takes_elems [OF vs(2) lt i(2), of "[]" "pre @ i" post]
  show ?thesis using Karray vs(1) i(3) by (simp add: read_field_def Let_def add.assoc)
next
  case Kprimitive
  with v wf obtain t where t: "fd_type_name f = Some t" "is_primitive t" "t = ''string'' \<longrightarrow> length_ok f" "elem_ok ok t v"
    by (auto simp: field_wf_def field_ok_def split: option.splits)
  from t(4) show ?thesis
  proof (cases rule: elem_ok_cases)
    case (string s)
    then have "string_image (length_type f) s = Some img" using img by (simp add: field_image_def elem_image_def)
    moreover have "length_key (length_type f)" using string t(3) by (simp add: length_types)
    ultimately obtain i where i: "img = i @ map char_byte s"
      and size: "takes_image (read_int (length_type f)) i (length s)"
      and rest: "takes_image (readBytes (length s)) (map char_byte s) s" using takes_string by blast
    show ?thesis using takes_imageD [OF size] takes_imageD2 [OF rest] string i Kprimitive t(1)
      by (simp add: read_field_def add.assoc)
  next
    case (bool b)
    with img Kprimitive t(1) show ?thesis using read_bool_image [where b = True] read_bool_image [where b = False]
      by (cases b) (auto simp: field_image_def elem_image_def read_field_def)
  next
    case prim
    then have "img = value_image v" using img
      by (auto simp: field_image_def elem_image_def prim_ok_def prim_shape_def split: val.splits)
    with prim takes_value_image [of t v] Kprimitive t(1) show ?thesis by (simp add: read_field_def takes_image_def)
  next
    case (cls fs)
    with t(2) show ?thesis by simp
  qed
next
  case Kcustom
  with v y wf obtain t fs ys where "fd_type_name f = Some t" "v = VObj t fs" "ok t fs" "y = VObj t ys" "ok t ys"
    by (auto simp: field_wf_def field_ok_def elem_ok_def split: option.splits val.splits)
  with Kcustom img de_image [of t ys fs img pre post] show ?thesis
    by (simp add: read_field_def field_image_def elem_image_def)
qed

end

context object_codec
begin

lemma writes_members:
  assumes "members_ok ok fs ps" and "distinct (map fd_name fs)" and "list_all (field_wf known) fs"
  shows "writes_image (run_steps (map (write_member ser ps) fs))
    (concat_images (map2 (\<lambda>f p. field_image image f (snd p)) fs ps))"
proof (rule writes_image_seq)
  from members_ok_map_of [OF assms(1,2)] assms(3)
  show "list_all2 writes_image (map (write_member ser ps) fs) (map2 (\<lambda>f p. field_image image f (snd p)) fs ps)"
    by (auto simp: list_all2_conv_all_nth list_all_length write_member_def intro!: writes_field)
qed

text \<open>The members read so far are those of \<open>vs\<close>, the others still those of \<open>ys\<close>.\<close>

lemma takes_members:
  assumes "members_ok ok fs ys" and "members_ok ok fs vs" and "list_all (field_wf known) fs"
    and "distinct (map fst read @ map fd_name fs)"
    and "all_some (map2 (\<lambda>f p. field_image image f (snd p)) fs vs) = Some imgs"
  shows "read_fields de new fs (read @ ys) \<lparr> br_in = pre @ concat imgs @ post, br_pos = length pre \<rparr>
    = Some (True, read @ vs, \<lparr> br_in = pre @ concat imgs @ post, br_pos = length pre + length (concat imgs) \<rparr>)"
  using assms
proof (induction fs arbitrary: ys vs read imgs pre)
  case Nil
  then show ?case by (simp add: members_ok_def)
next
  case (Cons f fs)
  from Cons.prems(1) obtain y ys' where y: "ys = (fd_name f, y) # ys'" "field_ok ok f y" "members_ok ok fs ys'"
    by (auto simp: members_ok_def list_all2_Cons1)
  from Cons.prems(2) obtain v vs' where v: "vs = (fd_name f, v) # vs'" "field_ok ok f v" "members_ok ok fs vs'"
    by (auto simp: members_ok_def list_all2_Cons1)
  from Cons.prems(5) obtain img imgs' where img: "field_image image f v = Some img"
    "all_some (map2 (\<lambda>f p. field_image image f (snd p)) fs vs') = Some imgs'" "imgs = img # imgs'"
    by (auto simp: v(1) split: option.splits)
  have fresh: "fd_name f \<notin> fst ` set read" using Cons.prems(4) by auto
  then have "map_of read (fd_name f) = None" by (simp add: map_of_eq_None_iff)
  then have get: "map_of (read @ ys) (fd_name f) = Some y" by (simp add: y(1) map_add_def)
  from fresh have set: "AList.update (fd_name f) v (read @ ys) = (read @ [(fd_name f, v)]) @ ys'"
    by (simp add: y(1) update_append)
  have "distinct (map fst (read @ [(fd_name f, v)]) @ map fd_name fs)" using Cons.prems(4) by auto
  from Cons.IH [OF y(3) v(3) _ this img(2), of "pre @ img"] Cons.prems(3)
  have rest: "read_fields de new fs ((read @ [(fd_name f, v)]) @ ys')
      \<lparr> br_in = (pre @ img) @ concat imgs' @ post, br_pos = length (pre @ img) \<rparr>
    = Some (True, (read @ [(fd_name f, v)]) @ vs', \<lparr> br_in = (pre @ img) @ concat imgs' @ post,
        br_pos = length (pre @ img) + length (concat imgs') \<rparr>)" by simp
  from takes_field [OF y(2) v(2) _ img(1), of known pre "concat imgs' @ post"] Cons.prems(3) get set rest
  show ?case by (simp add: img(3) v(1) add.assoc)
qed

lemma takes_object:
  assumes "members_ok ok fs ys" and "members_ok ok fs vs" and "list_all (field_wf known) fs"
    and "distinct (map fd_name fs)" and "concat_images (map2 (\<lambda>f p. field_image image f (snd p)) fs vs) = Some img"
  shows "takes_image (\<lambda>r. map_option (\<lambda>(b, x, r'). ((b, x), r')) (read_fields de new fs ys r)) img (True, vs)"
  using takes_members [OF assms(1-3), of "[]"] assms(4,5)
  by (auto simp: concat_images_def takes_image_def)

end


section \<open>Every level\<close>

text \<open>What the classes of a description satisfy when the parser accepts it and its names are hygienic.\<close>

definition env_ok :: "class_env \<Rightarrow> bool" where
  "env_ok env \<longleftrightarrow> (\<forall>tn t. env tn = Some t \<longrightarrow> class_compiles t \<and> hygienic (td_fields t)
     \<and> list_all (field_wf (\<lambda>s. env s \<noteq> None)) (td_fields t))"

lemma object_ok_Suc:
  "object_ok env (Suc n) tn fs \<longleftrightarrow>
     (\<exists>t. env tn = Some t \<and> members_ok (object_ok env n) (td_fields t) fs)"
  by (auto simp: members_ok_def split: option.splits)

lemma initial_prim_ok: "is_primitive t \<Longrightarrow> \<exists>v. initial new t = Some v \<and> prim_ok t v"
  by (auto simp: primitive_cases initial_def prim_ok_def prim_shape_def)

context object_codec
begin

lemma constructs_member:
  assumes "field_ok ok f v" and "field_wf known f"
  shows "\<exists>w. new_member new f = Some (fd_name f, w) \<and> field_ok ok f w"
proof (cases "fd_kind f")
  case Karray
  then show ?thesis by (simp add: new_member_def field_ok_def)
next
  case Kprimitive
  with assms(2) have "is_primitive (the (fd_type_name f))" by (auto simp: field_wf_def split: option.splits)
  with Kprimitive initial_prim_ok [OF this, of new] show ?thesis by (auto simp: new_member_def field_ok_def elem_ok_def)
next
  case Kcustom
  let ?t = "the (fd_type_name f)"
  from Kcustom assms obtain fs where "\<not> is_primitive ?t" "ok ?t fs"
    by (auto simp: field_wf_def field_ok_def elem_ok_def split: option.splits val.splits)
  with constructs obtain ys where "new ?t = Some (VObj ?t ys)" "ok ?t ys" by blast
  with Kcustom \<open>\<not> is_primitive ?t\<close> show ?thesis by (simp add: new_member_def field_ok_def elem_ok_def initial_temp)
qed

lemma constructs_members:
  assumes "members_ok ok fs ps" and "list_all (field_wf known) fs"
  shows "\<exists>ys. all_some (map (new_member new) fs) = Some ys \<and> members_ok ok fs ys"
  using assms unfolding members_ok_def
proof (induction rule: list_all2_induct)
  case (Cons f fs p ps)
  from Cons constructs_member [of f "snd p" known] obtain w where
    "new_member new f = Some (fd_name f, w)" "field_ok ok f w" by auto
  moreover from Cons obtain ys where "all_some (map (new_member new) fs) = Some ys"
    "list_all2 (\<lambda>f p. fst p = fd_name f \<and> field_ok ok f (snd p)) fs ys" by auto
  ultimately show ?case by (intro exI [of _ "(fd_name f, w) # ys"]) simp
qed simp

end

lemma env_okD:
  assumes "env_ok env" and "env tn = Some t"
  shows "class_compiles t" "hygienic (td_fields t)" "list_all (field_wf (\<lambda>s. env s \<noteq> None)) (td_fields t)"
    "distinct (map fd_name (td_fields t))"
proof -
  from assms show *: "class_compiles t" "hygienic (td_fields t)"
    "list_all (field_wf (\<lambda>s. env s \<noteq> None)) (td_fields t)" unfolding env_ok_def by blast+
  from *(1) show "distinct (map fd_name (td_fields t))" by (simp add: class_compiles_def)
qed

lemma codec_step:
  assumes env: "env_ok env"
    and sub: "object_codec (gen_serialize env n) (gen_deserialize env n) (gen_new env n) (object_ok env n) (object_image env n)"
  shows "object_codec (gen_serialize env (Suc n)) (gen_deserialize env (Suc n)) (gen_new env (Suc n))
    (object_ok env (Suc n)) (object_image env (Suc n))"
proof
  fix tn fs
  assume "object_ok env (Suc n) tn fs"
  then obtain t where t: "env tn = Some t" and ok: "members_ok (object_ok env n) (td_fields t) fs"
    by (auto simp: object_ok_Suc simp del: object_ok.simps)
  note t_ok = env_okD [OF env t]
  note fit = members_fit [OF _ t_ok(4,3)]
  have "gen_serialize env (Suc n) tn fs = run_steps (map (write_member (gen_serialize env n) fs) (td_fields t))"
    using gen_serialize_fields [of env, OF t t_ok(1,2) fit [OF ok]] by (intro ext)
  with object_codec.writes_members [OF sub ok t_ok(4,3)] t
  show "writes_image (gen_serialize env (Suc n) tn fs) (object_image env (Suc n) tn fs)" by simp
  from object_codec.constructs_members [OF sub ok t_ok(3)] obtain ys where
    "all_some (map (new_member (gen_new env n)) (td_fields t)) = Some ys" "members_ok (object_ok env n) (td_fields t) ys"
    by blast
  with t show "\<exists>ys. gen_new env (Suc n) tn = Some (VObj tn ys) \<and> object_ok env (Suc n) tn ys"
    by (simp add: object_ok_Suc del: object_ok.simps)
  fix y img
  assume y: "object_ok env (Suc n) tn y" and img: "object_image env (Suc n) tn fs = Some img"
  from y t have y: "members_ok (object_ok env n) (td_fields t) y"
    by (auto simp: object_ok_Suc simp del: object_ok.simps)
  have de: "gen_deserialize env (Suc n) tn y r
      = read_fields (gen_deserialize env n) (gen_new env n) (td_fields t) y r" for r
    using gen_deserialize_fields [of env, OF t t_ok(1,3,2) fit [OF y]] by simp
  from img t have "concat_images (map2 (\<lambda>f p. field_image (object_image env n) f (snd p)) (td_fields t) fs) = Some img"
    by simp
  from object_codec.takes_object [OF sub y ok t_ok(3,4) this]
  show "takes_image (\<lambda>r. map_option (\<lambda>(b, x, r'). ((b, x), r')) (gen_deserialize env (Suc n) tn y r)) img (True, fs)"
    unfolding de .
qed

lemma codec_levels:
  assumes "env_ok env"
  shows "object_codec (gen_serialize env n) (gen_deserialize env n) (gen_new env n) (object_ok env n) (object_image env n)"
proof (induction n)
  case 0
  show ?case by unfold_locales simp_all
next
  case (Suc n)
  with codec_step [OF assms] show ?case by blast
qed

section \<open>The classes of a description\<close>

definition class_env :: "TypeDef list \<Rightarrow> class_env" where
  "class_env types = map_of (map (\<lambda>t. (td_name t, t)) types)"

text \<open>The headers a header includes, and those they include in turn, do not come back to it: else \<open>#pragma once\<close>
  leaves one of the classes undeclared. A chain without repetition is at most as long as the description.\<close>

primrec includes_end :: "class_env \<Rightarrow> nat \<Rightarrow> string \<Rightarrow> bool" where
  "includes_end env 0 tn = False"
| "includes_end env (Suc n) tn =
     (case env tn of
        None \<Rightarrow> False
      | Some t \<Rightarrow> list_all (includes_end env n) (filter (\<lambda>dep. dep \<noteq> tn) (concat (map field_dep (td_fields t)))))"

definition hygienic_idl :: "TypeDef list \<Rightarrow> bool" where
  "hygienic_idl types \<longleftrightarrow> list_all (\<lambda>t. class_compiles t \<and> hygienic (td_fields t)
     \<and> includes_end (class_env types) (length types) (td_name t)) types"

lemma class_env_ok:
  assumes "idl_wf types" and "hygienic_idl types"
  shows "env_ok (class_env types)"
proof -
  have "class_env types s \<noteq> None \<longleftrightarrow> s \<in> set (map td_name types)" for s
    by (auto simp: class_env_def map_of_eq_None_iff image_image)
  then have known: "(\<lambda>s. class_env types s \<noteq> None) = (\<lambda>s. s \<in> set (map td_name types))" by (intro ext)
  show ?thesis
    unfolding env_ok_def known
    using assms by (auto simp: idl_wf_def hygienic_idl_def list_all_iff type_wf_def class_env_def dest!: map_of_SomeD)
qed

section \<open>Properties\<close>


definition sample_node :: "nat \<Rightarrow> val list \<Rightarrow> fields" where
  "sample_node i ns = [(''id'', VInt ''u16'' i), (''next'', VVec ''Node'' ns)]"

lemmas sample_object = sample_node_def sample_idl_def class_env_def numeral_2_eq_2 field_ok_def elem_ok_def prim_ok_def
  prim_shape_def is_int_keys primitive_cases int_bytes_def

lemma sample_ints:
  "int_image ''u16'' 7 = [0, 7]" "int_image ''u16'' 8 = [0, 8]" "int_image ''u8'' 0 = [0]" "int_image ''u8'' 1 = [1]"
  "int_image ''u8'' (Suc 0) = [1]" "max_size ''u8'' = 255"
  by (simp_all add: int_image_def int_bytes_def be_bytes_def max_size_def)

lemma sample_images:
  "object_image (class_env sample_idl) 1 ''Node'' (sample_node 8 []) = Some [0, 8, 0]"
  "object_image (class_env sample_idl) 2 ''Node'' (sample_node 7 [VObj ''Node'' (sample_node 8 [])]) = Some [0, 7, 1, 0, 8, 0]"
  by (simp_all add: sample_node_def sample_idl_def class_env_def numeral_2_eq_2 field_image_def elem_image_def
      concat_images_def size_image_def sample_ints length_type_def)


end
