(* ===== verification/Gen_Total.thy ===== *)
theory Gen_Total
  imports Gen_Correct
begin

text \<open>
  The generated readers on arbitrary bytes. For classes whose nesting ends, every reader returns: it never
  runs into a statement without a meaning, its cursor stays in the buffer, the object it leaves has its
  declared types also when it fails, and what it accepts has an encoding. The locale \<open>total_codec\<close> extends
  the contract of theory \<open>Gen_Correct\<close> by this and goes up one level in \<open>total_step\<close>.
\<close>

section \<open>Classes whose nesting ends\<close>

definition class_refs :: "FieldDef \<Rightarrow> string list" where
  "class_refs f = filter (\<lambda>c. \<not> is_primitive c) [if fd_kind f = Karray then the (fd_element_type f) else the (fd_type_name f)]"

primrec nests :: "class_env \<Rightarrow> nat \<Rightarrow> string \<Rightarrow> bool" where
  "nests env 0 tn = False"
| "nests env (Suc n) tn =
     (case env tn of None \<Rightarrow> False | Some t \<Rightarrow> list_all (\<lambda>f. list_all (nests env n) (class_refs f)) (td_fields t))"

section \<open>A reader that stays in its buffer\<close>

definition stays :: "ByteReader \<Rightarrow> ByteReader \<Rightarrow> bool" where
  "stays r r' \<longleftrightarrow> br_in r' = br_in r \<and> br_pos r \<le> br_pos r'
     \<and> (br_pos r \<le> length (br_in r) \<longrightarrow> br_pos r' \<le> length (br_in r))"

lemma stays_refl [simp]: "stays r r"
  by (simp add: stays_def)

lemma stays_trans [trans]: "stays r s \<Longrightarrow> stays s t \<Longrightarrow> stays r t"
  by (simp add: stays_def)

lemma read_be_loop_pos: "snd (read_be_loop n inp pos u) = pos + n"
  by (induction n arbitrary: pos u) simp_all

lemma readIntegralBE_stays:
  "readIntegralBE r = Some (v :: 'a::len word, r') \<Longrightarrow> stays r r'"
  using read_be_loop_pos [of "LENGTH('a) div 8" "br_in r" "br_pos r" "0 :: 'a word"]
  by (auto simp: readIntegralBE_def remaining_def stays_def split: if_splits prod.splits)

lemma read_int_stays:
  assumes "is_int t" and "read_int t r = Some (n, r')"
  shows "stays r r' \<and> n < 256 ^ the (int_bytes t)"
proof -
  have "unat (v :: u8) < 256" "unat (w :: u16) < 65536" "unat (x :: u32) < 4294967296"
    "unat (y :: u64) < 18446744073709551616" for v w x y
    using unsigned_less [of v] unsigned_less [of w] unsigned_less [of x] unsigned_less [of y] by simp_all
  then show ?thesis
    using is_int_bytes [OF assms(1)] assms(2)
    by (elim insertE emptyE) (auto simp: read_int_def dest: readIntegralBE_stays)
qed

lemma readBytes_stays: "readBytes n r = Some (s, r') \<Longrightarrow> stays r r' \<and> length s = n"
  by (auto simp: readBytes_def remaining_def stays_def subrange_def split: if_splits)

lemma read_value_stays:
  assumes "is_primitive t" and "t \<noteq> ''string''" and "t \<noteq> ''bool''" and "read_value t r = Some (v, r')"
  shows "stays r r' \<and> prim_ok t v"
  using assms read_int_stays [of t r]
  by (auto simp: primitive_cases read_value_def prim_ok_def prim_shape_def readFloat32BE_def readFloat64BE_def
      dest: readIntegralBE_stays split: if_splits)

lemma length_key_fits:
  "length_key l \<Longrightarrow> n < 256 ^ the (int_bytes l) \<Longrightarrow> size_image l n \<noteq> None"
  by (auto simp: size_image_def max_size_def length_key_def int_bytes_def)

section \<open>The extended contract\<close>

locale total_codec = object_codec ser de new ok image
  for ser :: "string \<Rightarrow> fields \<Rightarrow> bytes stepper" and de :: reader_call and new :: "string \<Rightarrow> val option"
    and ok :: "string \<Rightarrow> fields \<Rightarrow> bool" and image :: "string \<Rightarrow> fields \<Rightarrow> bytes option" +
  fixes ends :: "string \<Rightarrow> bool"
  assumes returns: "ends tn \<Longrightarrow> ok tn y \<Longrightarrow>
      \<exists>b fs r'. de tn y r = Some (b, fs, r') \<and> stays r r' \<and> ok tn fs \<and> (b \<longrightarrow> image tn fs \<noteq> None)"
    and default: "ends tn \<Longrightarrow> \<exists>ys. new tn = Some (VObj tn ys) \<and> ok tn ys"
begin

lemma elem_returns:
  assumes "is_primitive e \<or> ends e" and lt: "length_key lt"
  shows "\<exists>v r'. read_elem de new lt e r = Some (v, r') \<and> stays r r'
    \<and> (case v of None \<Rightarrow> True | Some w \<Rightarrow> elem_ok ok e w \<and> elem_image image lt w \<noteq> None)"
proof -
  note int = length_key_int [OF lt]
  consider (string) "e = ''string''" | (bool) "e = ''bool''"
    | (prim) "is_primitive e" "e \<noteq> ''string''" "e \<noteq> ''bool''" | (cls) "\<not> is_primitive e" "ends e"
    using assms(1) by blast
  then show ?thesis
  proof cases
    case string
    show ?thesis
    proof (cases "read_int lt r")
      case None
      with string show ?thesis by (simp add: read_elem_def)
    next
      case (Some kr)
      obtain k r1 where kr: "kr = (k, r1)" by fastforce
      with read_int_stays [OF int] Some have k: "stays r r1" "k < 256 ^ the (int_bytes lt)" by auto
      show ?thesis
      proof (cases "readBytes k r1")
        case None
        with string Some kr k show ?thesis by (simp add: read_elem_def)
      next
        case (Some sr)
        obtain s r2 where sr: "sr = (s, r2)" by fastforce
        with readBytes_stays Some have s: "stays r1 r2" "length s = k" by auto
        with k length_key_fits [OF lt, of k] string Some \<open>read_int lt r = Some kr\<close> kr sr stays_trans [OF k(1) s(1)]
        show ?thesis
          by (auto simp: read_elem_def elem_ok_def prim_ok_def prim_shape_def elem_image_def string_image_def)
      qed
    qed
  next
    case bool
    then show ?thesis using read_int_stays [of "''u8''" r]
      by (cases "read_int ''u8'' r") (auto simp: read_elem_def elem_ok_def prim_ok_def prim_shape_def elem_image_def)
  next
    case prim
    show ?thesis
    proof (cases "read_value e r")
      case None
      with prim show ?thesis by (simp add: read_elem_def)
    next
      case (Some vr)
      obtain v r' where vr: "vr = (v, r')" by fastforce
      with read_value_stays [OF prim] Some have v: "stays r r'" "prim_ok e v" by auto
      then have "elem_image image lt v = Some (value_image v)"
        using prim by (auto simp: elem_image_def prim_ok_def prim_shape_def split: val.splits)
      with prim Some vr v show ?thesis by (simp add: read_elem_def elem_ok_def)
    qed
  next
    case cls
    then have e: "e \<noteq> ''string''" "e \<noteq> ''bool''" by auto
    from default [OF cls(2)] obtain ys where ys: "new e = Some (VObj e ys)" "ok e ys" by blast
    from returns [OF cls(2) ys(2), of r] obtain b fs r' where
      "de e ys r = Some (b, fs, r')" "stays r r'" "ok e fs" "b \<longrightarrow> image e fs \<noteq> None" by blast
    with ys e cls(1) show ?thesis by (cases b) (simp_all add: read_elem_def elem_ok_def elem_image_def)
  qed
qed

end

lemma all_some_defined: "all_some xs \<noteq> None \<longleftrightarrow> list_all (\<lambda>x. x \<noteq> None) xs"
  by (induction xs) (auto split: option.split)

context total_codec
begin

lemma elems_return:
  assumes "is_primitive e \<or> ends e" and "length_key lt"
    and "list_all (\<lambda>v. elem_ok ok e v \<and> elem_image image lt v \<noteq> None) acc"
  shows "\<exists>b vs r'. read_elem_loop (read_elem de new lt e) k acc r = Some (b, vs, r') \<and> stays r r'
    \<and> list_all (\<lambda>v. elem_ok ok e v \<and> elem_image image lt v \<noteq> None) vs \<and> (b \<longrightarrow> length vs = length acc + k)"
  using assms(3)
proof (induction k arbitrary: acc r)
  case 0
  then show ?case by (simp add: ex_bool_eq)
next
  case (Suc k)
  from elem_returns [OF assms(1,2), of r] obtain v r' where v: "read_elem de new lt e r = Some (v, r')" "stays r r'"
    "case v of None \<Rightarrow> True | Some w \<Rightarrow> elem_ok ok e w \<and> elem_image image lt w \<noteq> None" by blast
  show ?case
  proof (cases v)
    case None
    with v Suc.prems show ?thesis by (simp add: ex_bool_eq)
  next
    case (Some w)
    with v(3) Suc.prems have "list_all (\<lambda>v. elem_ok ok e v \<and> elem_image image lt v \<noteq> None) (acc @ [w])" by simp
    from Suc.IH [OF this, of r'] v Some show ?thesis by (auto intro: stays_trans)
  qed
qed

lemma value_field_image: "prim_ok t v \<Longrightarrow> t \<noteq> ''string'' \<Longrightarrow> field_image image f v = Some (value_image v)"
  by (auto simp: field_image_def elem_image_def prim_ok_def prim_shape_def split: val.splits)

lemma field_returns:
  assumes "field_ok ok f y" and "field_wf known f" and "list_all ends (class_refs f)"
  shows "\<exists>b v r'. read_field de new f y r = Some (b, v, r') \<and> stays r r' \<and> field_ok ok f v
    \<and> (b \<longrightarrow> field_image image f v \<noteq> None)"
proof (cases "fd_kind f")
  case Karray
  let ?e = "the (fd_element_type f)" and ?lt = "length_type f"
  from Karray assms(2) have lt: "length_key ?lt" by (intro length_types) (simp add: field_wf_def)
  from Karray assms(3) have e: "is_primitive ?e \<or> ends ?e" by (auto simp: class_refs_def split: if_splits)
  show ?thesis
  proof (cases "read_int ?lt r")
    case None
    with Karray assms(1) show ?thesis by (simp add: read_field_def Let_def ex_bool_eq)
  next
    case (Some kr)
    obtain k r1 where kr: "kr = (k, r1)" by fastforce
    with read_int_stays [OF length_key_int [OF lt]] Some have k: "stays r r1" "k < 256 ^ the (int_bytes ?lt)" by auto
    from elems_return [OF e lt, of "[]" k r1] obtain b vs r' where
      vs: "read_elem_loop (read_elem de new ?lt ?e) k [] r1 = Some (b, vs, r')" "stays r1 r'"
      "list_all (\<lambda>v. elem_ok ok ?e v \<and> elem_image image ?lt v \<noteq> None) vs" "b \<longrightarrow> length vs = k" by auto
    have "b \<longrightarrow> field_image image f (VVec ?e vs) \<noteq> None"
      using vs(3,4) length_key_fits [OF lt k(2)]
      by (auto simp: field_image_def concat_images_def list_all_iff all_some_defined [unfolded not_None_eq] split: option.splits)
    moreover have "field_ok ok f (VVec ?e vs)" using Karray vs(3) by (simp add: field_ok_def list_all_iff)
    ultimately show ?thesis using Karray Some kr vs(1) stays_trans [OF k(1) vs(2)]
      by (simp add: read_field_def Let_def)
  qed
next
  case Kprimitive
  with assms obtain t where t: "fd_type_name f = Some t" "is_primitive t" "t = ''string'' \<longrightarrow> length_ok f"
    by (auto simp: field_wf_def split: option.splits)
  consider (string) "t = ''string''" | (bool) "t = ''bool''" | (prim) "t \<noteq> ''string''" "t \<noteq> ''bool''" by blast
  then show ?thesis
  proof cases
    case string
    let ?lt = "length_type f"
    have lt: "length_key ?lt" using string t(3) by (simp add: length_types)
    show ?thesis
    proof (cases "read_int ?lt r")
      case None
      with string Kprimitive t(1) assms(1) show ?thesis by (simp add: read_field_def ex_bool_eq)
    next
      case (Some kr)
      obtain k r1 where kr: "kr = (k, r1)" by fastforce
      with read_int_stays [OF length_key_int [OF lt]] Some have k: "stays r r1" "k < 256 ^ the (int_bytes ?lt)" by auto
      show ?thesis
      proof (cases "readBytes k r1")
        case None
        with string Kprimitive t(1) Some kr k assms(1) show ?thesis by (simp add: read_field_def ex_bool_eq)
      next
        case (Some sr)
        obtain s r2 where sr: "sr = (s, r2)" by fastforce
        with readBytes_stays Some have s: "stays r1 r2" "length s = k" by auto
        with k length_key_fits [OF lt, of k] string Kprimitive t Some \<open>read_int ?lt r = Some kr\<close> kr sr
          stays_trans [OF k(1) s(1)]
        show ?thesis
          by (auto simp: read_field_def field_ok_def elem_ok_def prim_ok_def prim_shape_def field_image_def
              elem_image_def string_image_def)
      qed
    qed
  next
    case bool
    with Kprimitive t assms(1) show ?thesis using read_int_stays [of "''u8''" r]
      by (cases "read_int ''u8'' r")
        (auto simp: read_field_def field_ok_def elem_ok_def prim_ok_def prim_shape_def field_image_def elem_image_def)
  next
    case prim
    show ?thesis
    proof (cases "read_value t r")
      case None
      with prim Kprimitive t(1) assms(1) show ?thesis by (simp add: read_field_def ex_bool_eq)
    next
      case (Some vr)
      obtain v r' where vr: "vr = (v, r')" by fastforce
      with read_value_stays [OF t(2) prim] Some have v: "stays r r'" "prim_ok t v" by auto
      with prim Kprimitive t Some vr value_field_image [OF v(2) prim(1)]
      show ?thesis by (simp add: read_field_def field_ok_def elem_ok_def ex_bool_eq)
    qed
  qed
next
  case Kcustom
  with assms obtain t ys where t: "fd_type_name f = Some t" "y = VObj t ys" "ok t ys" "\<not> is_primitive t" "ends t"
    by (auto simp: field_wf_def field_ok_def elem_ok_def class_refs_def split: option.splits val.splits)
  from returns [OF t(5,3), of r] obtain b fs r' where
    "de t ys r = Some (b, fs, r')" "stays r r'" "ok t fs" "b \<longrightarrow> image t fs \<noteq> None" by blast
  with Kcustom t show ?thesis
    by (cases b) (simp_all add: read_field_def field_ok_def elem_ok_def field_image_def elem_image_def ex_bool_eq)
qed

end

section \<open>Objects, and one level up\<close>

context total_codec
begin

lemma members_return:
  assumes "members_ok ok fs ys" and "list_all (field_wf known) fs" and "distinct (map fst read @ map fd_name fs)"
    and "list_all (\<lambda>f. list_all ends (class_refs f)) fs"
  shows "\<exists>b vs r'. read_fields de new fs (read @ ys) r = Some (b, read @ vs, r') \<and> stays r r' \<and> members_ok ok fs vs
    \<and> (b \<longrightarrow> list_all2 (\<lambda>f p. field_image image f (snd p) \<noteq> None) fs vs)"
  using assms
proof (induction fs arbitrary: ys read r)
  case Nil
  then show ?case by (auto simp: members_ok_def)
next
  case (Cons f fs)
  from Cons.prems(1) obtain y ys' where y: "ys = (fd_name f, y) # ys'" "field_ok ok f y" "members_ok ok fs ys'"
    by (auto simp: members_ok_def list_all2_Cons1)
  from field_returns [OF y(2), of known r] Cons.prems(2,4) obtain b v r1 where
    v: "read_field de new f y r = Some (b, v, r1)" "stays r r1" "field_ok ok f v" "b \<longrightarrow> field_image image f v \<noteq> None"
    by auto
  have fresh: "fd_name f \<notin> fst ` set read" using Cons.prems(3) by auto
  then have "map_of read (fd_name f) = None" by (simp add: map_of_eq_None_iff)
  then have get: "map_of (read @ ys) (fd_name f) = Some y" by (simp add: y(1) map_add_def)
  from fresh have set: "AList.update (fd_name f) v (read @ ys) = (read @ [(fd_name f, v)]) @ ys'"
    by (simp add: y(1) update_append)
  show ?case
  proof (cases b)
    case False
    with get set v y(3) show ?thesis
      by (intro exI [of _ False] exI [of _ "(fd_name f, v) # ys'"] exI [of _ r1]) (simp add: members_ok_def)
  next
    case True
    have "distinct (map fst (read @ [(fd_name f, v)]) @ map fd_name fs)" using Cons.prems(3) by auto
    from Cons.IH [OF y(3) _ this, of r1] Cons.prems(2,4) obtain b' vs r' where
      rest: "read_fields de new fs ((read @ [(fd_name f, v)]) @ ys') r1 = Some (b', (read @ [(fd_name f, v)]) @ vs, r')"
      "stays r1 r'" "members_ok ok fs vs" "b' \<longrightarrow> list_all2 (\<lambda>f p. field_image image f (snd p) \<noteq> None) fs vs" by auto
    with get set v True stays_trans [OF v(2) rest(2)] show ?thesis
      by (intro exI [of _ b'] exI [of _ "(fd_name f, v) # vs"] exI [of _ r']) (simp add: members_ok_def)
  qed
qed

lemma defaults_member:
  assumes "field_wf known f" and "list_all ends (class_refs f)"
  shows "\<exists>w. new_member new f = Some (fd_name f, w) \<and> field_ok ok f w"
proof (cases "fd_kind f")
  case Karray
  then show ?thesis by (simp add: new_member_def field_ok_def)
next
  case Kprimitive
  with assms(1) have "is_primitive (the (fd_type_name f))" by (auto simp: field_wf_def split: option.splits)
  with Kprimitive initial_prim_ok [OF this, of new] show ?thesis by (auto simp: new_member_def field_ok_def elem_ok_def)
next
  case Kcustom
  let ?t = "the (fd_type_name f)"
  from Kcustom assms have "\<not> is_primitive ?t" "ends ?t"
    by (auto simp: field_wf_def class_refs_def split: option.splits)
  with default obtain ys where "new ?t = Some (VObj ?t ys)" "ok ?t ys" by blast
  with Kcustom \<open>\<not> is_primitive ?t\<close> show ?thesis by (simp add: new_member_def field_ok_def elem_ok_def initial_temp)
qed

lemma defaults_members:
  assumes "list_all (field_wf known) fs" and "list_all (\<lambda>f. list_all ends (class_refs f)) fs"
  shows "\<exists>ys. all_some (map (new_member new) fs) = Some ys \<and> members_ok ok fs ys"
  using assms
proof (induction fs)
  case (Cons f fs)
  with defaults_member [of known f] obtain w where "new_member new f = Some (fd_name f, w)" "field_ok ok f w" by auto
  moreover from Cons obtain ys where "all_some (map (new_member new) fs) = Some ys" "members_ok ok fs ys" by auto
  ultimately show ?case by (intro exI [of _ "(fd_name f, w) # ys"]) (simp add: members_ok_def)
qed (simp add: members_ok_def)

end

lemma total_step:
  assumes env: "env_ok env"
    and sub: "total_codec (gen_serialize env n) (gen_deserialize env n) (gen_new env n) (object_ok env n)
      (object_image env n) (nests env n)"
  shows "total_codec (gen_serialize env (Suc n)) (gen_deserialize env (Suc n)) (gen_new env (Suc n))
    (object_ok env (Suc n)) (object_image env (Suc n)) (nests env (Suc n))"
proof (intro total_codec.intro total_codec_axioms.intro codec_levels env)
  fix tn y r
  assume "nests env (Suc n) tn"
  then obtain t where t: "env tn = Some t" and refs: "list_all (\<lambda>f. list_all (nests env n) (class_refs f)) (td_fields t)"
    by (auto split: option.splits)
  note t_ok = env_okD [OF env t]
  from total_codec.defaults_members [OF sub t_ok(3) refs] obtain ys where
    "all_some (map (new_member (gen_new env n)) (td_fields t)) = Some ys" "members_ok (object_ok env n) (td_fields t) ys"
    by blast
  with t show "\<exists>ys. gen_new env (Suc n) tn = Some (VObj tn ys) \<and> object_ok env (Suc n) tn ys"
    by (simp add: object_ok_Suc del: object_ok.simps)
  assume "object_ok env (Suc n) tn y"
  with t have y: "members_ok (object_ok env n) (td_fields t) y"
    by (auto simp: object_ok_Suc simp del: object_ok.simps)
  from total_codec.members_return [OF sub y t_ok(3) _ refs, of "[]" r] t_ok(4) obtain b vs r' where
    vs: "read_fields (gen_deserialize env n) (gen_new env n) (td_fields t) y r = Some (b, vs, r')" "stays r r'"
    "members_ok (object_ok env n) (td_fields t) vs"
    "b \<longrightarrow> list_all2 (\<lambda>f p. field_image (object_image env n) f (snd p) \<noteq> None) (td_fields t) vs" by auto
  have "gen_deserialize env (Suc n) tn y r = Some (b, vs, r')"
    using gen_deserialize_fields [of env, OF t t_ok(1,3,2) members_fit [OF y t_ok(4,3)]] vs(1) by simp
  moreover have "object_image env (Suc n) tn vs \<noteq> None" if b
    using that vs(4) t all_some_defined [of "map2 (\<lambda>f p. field_image (object_image env n) f (snd p)) (td_fields t) vs"]
    by (simp add: concat_images_def list_all2_iff list_all_iff case_prod_unfold del: not_None_eq)
  ultimately show "\<exists>b fs r'. gen_deserialize env (Suc n) tn y r = Some (b, fs, r') \<and> stays r r'
      \<and> object_ok env (Suc n) tn fs \<and> (b \<longrightarrow> object_image env (Suc n) tn fs \<noteq> None)"
    using vs(2,3) t by (auto simp: object_ok_Suc simp del: object_ok.simps object_image.simps gen_deserialize.simps)
qed

lemma total_levels:
  assumes "env_ok env"
  shows "total_codec (gen_serialize env n) (gen_deserialize env n) (gen_new env n) (object_ok env n)
    (object_image env n) (nests env n)"
proof (induction n)
  case 0
  show ?case by (intro total_codec.intro total_codec_axioms.intro codec_levels assms) simp_all
next
  case (Suc n)
  with total_step [OF assms] show ?case by blast
qed

section \<open>Properties\<close>


definition sample_pair :: "TypeDef list" where
  "sample_pair =
    [\<lparr> td_name = ''Inner'',
       td_fields = [\<lparr> fd_name = ''on'', fd_kind = Kprimitive, fd_type_name = Some ''bool'', fd_element_type = None,
                      fd_length_type = JStr ''u32'' \<rparr>],
       td_category = ''type'' \<rparr>,
     \<lparr> td_name = ''Outer'',
       td_fields = [\<lparr> fd_name = ''name'', fd_kind = Kprimitive, fd_type_name = Some ''string'', fd_element_type = None,
                      fd_length_type = JStr ''u8'' \<rparr>,
                    \<lparr> fd_name = ''inner'', fd_kind = Kcustom, fd_type_name = Some ''Inner'', fd_element_type = None,
                      fd_length_type = JStr ''u32'' \<rparr>],
       td_category = ''message'' \<rparr>]"


end
