(* ===== verification/Gen_Headers.thy ===== *)
theory Gen_Headers
  imports Gen_Emit
begin

text \<open>
  The generator on the description in the repository (\<open>examples/vehicle_node\<close>): what the parser makes of its
  four documents, and that the generated files are, line for line, the headers checked in under
  \<open>tools/someip_idl/generated\<close>.
\<close>

section \<open>The documents\<close>

definition application_json :: json where
  "application_json = JDict [(''namespace'', JStr ''openveh::someip::vehicle''),
      (''application'', JDict [(''name'', JStr ''VehicleNodeApplication''),
      (''serviceInstances'', JList [JDict [(''name'', JStr ''VehicleInfoService''),
      (''service'', JStr ''VehicleInfoService''),
      (''instanceId'', JStr ''0x0001'')]]),
      (''clientInstances'', JList [JDict [(''name'', JStr ''VehicleInfoClientMain''),
      (''client'', JStr ''VehicleInfoClient''),
      (''serviceInstance'', JStr ''VehicleInfoService'')], JDict [(''name'', JStr ''CruiseControlClientMain''),
      (''client'', JStr ''CruiseControlClient''),
      (''serviceInstance'', JStr ''VehicleInfoService'')]])])]"

definition client_json :: json where
  "client_json = JDict [(''namespace'', JStr ''openveh::someip::vehicle''),
      (''clients'', JList [JDict [(''name'', JStr ''VehicleInfoClient''),
      (''service'', JStr ''VehicleInfoService''),
      (''methods'', JList [JStr ''GetVehicleInfo'']),
      (''events'', JList [JStr ''VehicleInfoChanged''])], JDict [(''name'', JStr ''CruiseControlClient''),
      (''service'', JStr ''VehicleInfoService''),
      (''methods'', JList [JStr ''SetCruiseSpeed''])]])]"

definition message_json :: json where
  "message_json = JDict [(''namespace'', JStr ''openveh::someip::vehicle''),
      (''types'', JList [JDict [(''name'', JStr ''WheelInfo''),
      (''fields'', JList [JDict [(''name'', JStr ''wheelId''),
      (''type'', JStr ''u8'')], JDict [(''name'', JStr ''pressureKpa''),
      (''type'', JStr ''u16'')], JDict [(''name'', JStr ''temperatureC''),
      (''type'', JStr ''i16'')]])], JDict [(''name'', JStr ''VehicleStatus''),
      (''fields'', JList [JDict [(''name'', JStr ''vin''),
      (''type'', JStr ''string''),
      (''lengthType'', JStr ''u16'')], JDict [(''name'', JStr ''speedKph''),
      (''type'', JStr ''u16'')], JDict [(''name'', JStr ''engineRpm''),
      (''type'', JStr ''u32'')], JDict [(''name'', JStr ''doorOpen''),
      (''type'', JStr ''bool'')], JDict [(''name'', JStr ''wheels''),
      (''type'', JStr ''array''),
      (''elementType'', JStr ''WheelInfo''),
      (''lengthType'', JStr ''u8'')], JDict [(''name'', JStr ''accelHistory''),
      (''type'', JStr ''array''),
      (''elementType'', JStr ''f32''),
      (''lengthType'', JStr ''u16'')]])]]),
      (''messages'', JList [JDict [(''name'', JStr ''GetVehicleInfoRequest''),
      (''fields'', JList [JDict [(''name'', JStr ''requestId''),
      (''type'', JStr ''u32'')], JDict [(''name'', JStr ''targetVin''),
      (''type'', JStr ''string''),
      (''lengthType'', JStr ''u16'')]])], JDict [(''name'', JStr ''GetVehicleInfoResponse''),
      (''fields'', JList [JDict [(''name'', JStr ''requestId''),
      (''type'', JStr ''u32'')], JDict [(''name'', JStr ''status''),
      (''type'', JStr ''VehicleStatus'')]])], JDict [(''name'', JStr ''VehicleInfoChangedEvent''),
      (''fields'', JList [JDict [(''name'', JStr ''eventSequence''),
      (''type'', JStr ''u32'')], JDict [(''name'', JStr ''status''),
      (''type'', JStr ''VehicleStatus'')]])], JDict [(''name'', JStr ''SetCruiseSpeedRequest''),
      (''fields'', JList [JDict [(''name'', JStr ''targetSpeedKph''),
      (''type'', JStr ''u16'')]])], JDict [(''name'', JStr ''SetCruiseSpeedResponse''),
      (''fields'', JList [JDict [(''name'', JStr ''accepted''),
      (''type'', JStr ''bool'')]])]])]"

definition server_json :: json where
  "server_json = JDict [(''namespace'', JStr ''openveh::someip::vehicle''),
      (''services'', JList [JDict [(''name'', JStr ''VehicleInfoService''),
      (''serviceId'', JStr ''0x1234''),
      (''methods'', JList [JDict [(''name'', JStr ''GetVehicleInfo''),
      (''methodId'', JStr ''0x0001''),
      (''request'', JStr ''GetVehicleInfoRequest''),
      (''response'', JStr ''GetVehicleInfoResponse'')], JDict [(''name'', JStr ''SetCruiseSpeed''),
      (''methodId'', JStr ''0x0003''),
      (''request'', JStr ''SetCruiseSpeedRequest''),
      (''response'', JStr ''SetCruiseSpeedResponse'')]]),
      (''events'', JList [JDict [(''name'', JStr ''VehicleInfoChanged''),
      (''eventId'', JStr ''0x8001''),
      (''payload'', JStr ''VehicleInfoChangedEvent'')]])]])]"

definition vehicle_documents :: "json list" where
  "vehicle_documents = [application_json, client_json, message_json, server_json]"

section \<open>The definitions\<close>

definition prim_field :: "string \<Rightarrow> string \<Rightarrow> FieldDef" where
  "prim_field x t = \<lparr> fd_name = x, fd_kind = Kprimitive, fd_type_name = Some t, fd_element_type = None,
                      fd_length_type = JStr ''u32'' \<rparr>"

definition string_field :: "string \<Rightarrow> string \<Rightarrow> FieldDef" where
  "string_field x l = \<lparr> fd_name = x, fd_kind = Kprimitive, fd_type_name = Some ''string'', fd_element_type = None,
                        fd_length_type = JStr l \<rparr>"

definition class_field :: "string \<Rightarrow> string \<Rightarrow> FieldDef" where
  "class_field x t = \<lparr> fd_name = x, fd_kind = Kcustom, fd_type_name = Some t, fd_element_type = None,
                       fd_length_type = JStr ''u32'' \<rparr>"

definition array_field :: "string \<Rightarrow> string \<Rightarrow> string \<Rightarrow> FieldDef" where
  "array_field x e l = \<lparr> fd_name = x, fd_kind = Karray, fd_type_name = None, fd_element_type = Some e,
                         fd_length_type = JStr l \<rparr>"

definition vehicle_namespace :: string where
  "vehicle_namespace = ''openveh::someip::vehicle''"

definition WheelInfo_type :: TypeDef where
  "WheelInfo_type = \<lparr> td_name = ''WheelInfo'',
     td_fields = [prim_field ''wheelId'' ''u8'',
       prim_field ''pressureKpa'' ''u16'',
       prim_field ''temperatureC'' ''i16''],
     td_category = ''type'' \<rparr>"

definition VehicleStatus_type :: TypeDef where
  "VehicleStatus_type = \<lparr> td_name = ''VehicleStatus'',
     td_fields = [string_field ''vin'' ''u16'',
       prim_field ''speedKph'' ''u16'',
       prim_field ''engineRpm'' ''u32'',
       prim_field ''doorOpen'' ''bool'',
       array_field ''wheels'' ''WheelInfo'' ''u8'',
       array_field ''accelHistory'' ''f32'' ''u16''],
     td_category = ''type'' \<rparr>"

definition GetVehicleInfoRequest_type :: TypeDef where
  "GetVehicleInfoRequest_type = \<lparr> td_name = ''GetVehicleInfoRequest'',
     td_fields = [prim_field ''requestId'' ''u32'',
       string_field ''targetVin'' ''u16''],
     td_category = ''message'' \<rparr>"

definition GetVehicleInfoResponse_type :: TypeDef where
  "GetVehicleInfoResponse_type = \<lparr> td_name = ''GetVehicleInfoResponse'',
     td_fields = [prim_field ''requestId'' ''u32'',
       class_field ''status'' ''VehicleStatus''],
     td_category = ''message'' \<rparr>"

definition VehicleInfoChangedEvent_type :: TypeDef where
  "VehicleInfoChangedEvent_type = \<lparr> td_name = ''VehicleInfoChangedEvent'',
     td_fields = [prim_field ''eventSequence'' ''u32'',
       class_field ''status'' ''VehicleStatus''],
     td_category = ''message'' \<rparr>"

definition SetCruiseSpeedRequest_type :: TypeDef where
  "SetCruiseSpeedRequest_type = \<lparr> td_name = ''SetCruiseSpeedRequest'',
     td_fields = [prim_field ''targetSpeedKph'' ''u16''],
     td_category = ''message'' \<rparr>"

definition SetCruiseSpeedResponse_type :: TypeDef where
  "SetCruiseSpeedResponse_type = \<lparr> td_name = ''SetCruiseSpeedResponse'',
     td_fields = [prim_field ''accepted'' ''bool''],
     td_category = ''message'' \<rparr>"

definition vehicle_types :: "TypeDef list" where
  "vehicle_types =
    [WheelInfo_type,
     VehicleStatus_type,
     GetVehicleInfoRequest_type,
     GetVehicleInfoResponse_type,
     VehicleInfoChangedEvent_type,
     SetCruiseSpeedRequest_type,
     SetCruiseSpeedResponse_type]"

lemmas vehicle_type_defs = WheelInfo_type_def VehicleStatus_type_def GetVehicleInfoRequest_type_def GetVehicleInfoResponse_type_def VehicleInfoChangedEvent_type_def SetCruiseSpeedRequest_type_def SetCruiseSpeedResponse_type_def

section \<open>The headers\<close>

definition WheelInfo_hpp :: "string list" where
  "WheelInfo_hpp =
    [''#pragma once'',
     '''',
     ''#include <cstdint>'',
     ''#include <limits>'',
     ''#include <string>'',
     ''#include <utility>'',
     ''#include <vector>'',
     '''',
     quoted_include ''someip_codec_support'',
     '''',
     '''',
     ''namespace openveh::someip::vehicle {'',
     '''',
     ''struct WheelInfo : public someip_generated::SerializableObject {'',
     ''    std::uint8_t wheelId;'',
     ''    std::uint16_t pressureKpa;'',
     ''    std::int16_t temperatureC;'',
     '''',
     ''    bool serializeTo(std::vector<std::uint8_t>& bytes) const override {'',
     ''        someip_generated::ByteWriter writer(bytes);'',
     ''        if (!writer.writeIntegralBE<std::uint8_t>(wheelId)) return false;'',
     ''        if (!writer.writeIntegralBE<std::uint16_t>(pressureKpa)) return false;'',
     ''        if (!writer.writeIntegralBE<std::int16_t>(temperatureC)) return false;'',
     ''        return true;'',
     ''    }'',
     '''',
     ''    bool deserializeFromReader(someip_generated::ByteReader& reader) override {'',
     ''        if (!reader.readIntegralBE<std::uint8_t>(wheelId)) return false;'',
     ''        if (!reader.readIntegralBE<std::uint16_t>(pressureKpa)) return false;'',
     ''        if (!reader.readIntegralBE<std::int16_t>(temperatureC)) return false;'',
     ''        return true;'',
     ''    }'',
     ''};'',
     '''',
     ''}  // namespace openveh::someip::vehicle'']"

definition VehicleStatus_hpp :: "string list" where
  "VehicleStatus_hpp =
    [''#pragma once'',
     '''',
     ''#include <cstdint>'',
     ''#include <limits>'',
     ''#include <string>'',
     ''#include <utility>'',
     ''#include <vector>'',
     '''',
     quoted_include ''someip_codec_support'',
     '''',
     quoted_include ''WheelInfo'',
     '''',
     ''namespace openveh::someip::vehicle {'',
     '''',
     ''struct VehicleStatus : public someip_generated::SerializableObject {'',
     ''    std::string vin;'',
     ''    std::uint16_t speedKph;'',
     ''    std::uint32_t engineRpm;'',
     ''    bool doorOpen;'',
     ''    std::vector<WheelInfo> wheels;'',
     ''    std::vector<float> accelHistory;'',
     '''',
     ''    bool serializeTo(std::vector<std::uint8_t>& bytes) const override {'',
     ''        someip_generated::ByteWriter writer(bytes);'',
     ''        if (vin.size() > static_cast<std::size_t>(std::numeric_limits<std::uint16_t>::max())) return false;'',
     ''        if (!writer.writeIntegralBE<std::uint16_t>(static_cast<std::uint16_t>(vin.size()))) return false;'',
     ''        bytes.insert(bytes.end(), vin.begin(), vin.end());'',
     ''        if (!writer.writeIntegralBE<std::uint16_t>(speedKph)) return false;'',
     ''        if (!writer.writeIntegralBE<std::uint32_t>(engineRpm)) return false;'',
     ''        if (!writer.writeIntegralBE<std::uint8_t>(doorOpen ? 1u : 0u)) return false;'',
     ''        if (wheels.size() > static_cast<std::size_t>(std::numeric_limits<std::uint8_t>::max())) return false;'',
     ''        if (!writer.writeIntegralBE<std::uint8_t>(static_cast<std::uint8_t>(wheels.size()))) return false;'',
     ''        for (const auto& elem : wheels) {'',
     ''            if (!elem.serializeTo(bytes)) return false;'',
     ''        }'',
     ''        if (accelHistory.size() > static_cast<std::size_t>(std::numeric_limits<std::uint16_t>::max())) return false;'',
     ''        if (!writer.writeIntegralBE<std::uint16_t>(static_cast<std::uint16_t>(accelHistory.size()))) return false;'',
     ''        for (const auto& elem : accelHistory) {'',
     ''            if (!writer.writeFloat32BE(elem)) return false;'',
     ''        }'',
     ''        return true;'',
     ''    }'',
     '''',
     ''    bool deserializeFromReader(someip_generated::ByteReader& reader) override {'',
     ''        std::uint16_t vinStrLen = 0;'',
     ''        if (!reader.readIntegralBE<std::uint16_t>(vinStrLen)) return false;'',
     ''        if (!reader.readBytes(static_cast<std::size_t>(vinStrLen), vin)) return false;'',
     ''        if (!reader.readIntegralBE<std::uint16_t>(speedKph)) return false;'',
     ''        if (!reader.readIntegralBE<std::uint32_t>(engineRpm)) return false;'',
     ''        std::uint8_t b = 0;'',
     ''        if (!reader.readIntegralBE<std::uint8_t>(b)) return false;'',
     ''        doorOpen = (b != 0);'',
     ''        std::uint8_t wheelsLen = 0;'',
     ''        if (!reader.readIntegralBE<std::uint8_t>(wheelsLen)) return false;'',
     ''        wheels.clear();'',
     ''        wheels.reserve(static_cast<std::size_t>(wheelsLen));'',
     ''        for (std::uint8_t i = 0; i < wheelsLen; ++i) {'',
     ''            WheelInfo temp;'',
     ''            if (!temp.deserializeFromReader(reader)) return false;'',
     ''            wheels.push_back(std::move(temp));'',
     ''        }'',
     ''        std::uint16_t accelHistoryLen = 0;'',
     ''        if (!reader.readIntegralBE<std::uint16_t>(accelHistoryLen)) return false;'',
     ''        accelHistory.clear();'',
     ''        accelHistory.reserve(static_cast<std::size_t>(accelHistoryLen));'',
     ''        for (std::uint16_t i = 0; i < accelHistoryLen; ++i) {'',
     ''            float temp = 0.0f;'',
     ''            if (!reader.readFloat32BE(temp)) return false;'',
     ''            accelHistory.push_back(temp);'',
     ''        }'',
     ''        return true;'',
     ''    }'',
     ''};'',
     '''',
     ''}  // namespace openveh::someip::vehicle'']"

definition GetVehicleInfoRequest_hpp :: "string list" where
  "GetVehicleInfoRequest_hpp =
    [''#pragma once'',
     '''',
     ''#include <cstdint>'',
     ''#include <limits>'',
     ''#include <string>'',
     ''#include <utility>'',
     ''#include <vector>'',
     '''',
     quoted_include ''someip_codec_support'',
     '''',
     '''',
     ''namespace openveh::someip::vehicle {'',
     '''',
     ''struct GetVehicleInfoRequest : public someip_generated::SerializableObject {'',
     ''    std::uint32_t requestId;'',
     ''    std::string targetVin;'',
     '''',
     ''    bool serializeTo(std::vector<std::uint8_t>& bytes) const override {'',
     ''        someip_generated::ByteWriter writer(bytes);'',
     ''        if (!writer.writeIntegralBE<std::uint32_t>(requestId)) return false;'',
     ''        if (targetVin.size() > static_cast<std::size_t>(std::numeric_limits<std::uint16_t>::max())) return false;'',
     ''        if (!writer.writeIntegralBE<std::uint16_t>(static_cast<std::uint16_t>(targetVin.size()))) return false;'',
     ''        bytes.insert(bytes.end(), targetVin.begin(), targetVin.end());'',
     ''        return true;'',
     ''    }'',
     '''',
     ''    bool deserializeFromReader(someip_generated::ByteReader& reader) override {'',
     ''        if (!reader.readIntegralBE<std::uint32_t>(requestId)) return false;'',
     ''        std::uint16_t targetVinStrLen = 0;'',
     ''        if (!reader.readIntegralBE<std::uint16_t>(targetVinStrLen)) return false;'',
     ''        if (!reader.readBytes(static_cast<std::size_t>(targetVinStrLen), targetVin)) return false;'',
     ''        return true;'',
     ''    }'',
     ''};'',
     '''',
     ''}  // namespace openveh::someip::vehicle'']"

definition GetVehicleInfoResponse_hpp :: "string list" where
  "GetVehicleInfoResponse_hpp =
    [''#pragma once'',
     '''',
     ''#include <cstdint>'',
     ''#include <limits>'',
     ''#include <string>'',
     ''#include <utility>'',
     ''#include <vector>'',
     '''',
     quoted_include ''someip_codec_support'',
     '''',
     quoted_include ''VehicleStatus'',
     '''',
     ''namespace openveh::someip::vehicle {'',
     '''',
     ''struct GetVehicleInfoResponse : public someip_generated::SerializableObject {'',
     ''    std::uint32_t requestId;'',
     ''    VehicleStatus status;'',
     '''',
     ''    bool serializeTo(std::vector<std::uint8_t>& bytes) const override {'',
     ''        someip_generated::ByteWriter writer(bytes);'',
     ''        if (!writer.writeIntegralBE<std::uint32_t>(requestId)) return false;'',
     ''        if (!status.serializeTo(bytes)) return false;'',
     ''        return true;'',
     ''    }'',
     '''',
     ''    bool deserializeFromReader(someip_generated::ByteReader& reader) override {'',
     ''        if (!reader.readIntegralBE<std::uint32_t>(requestId)) return false;'',
     ''        if (!status.deserializeFromReader(reader)) return false;'',
     ''        return true;'',
     ''    }'',
     ''};'',
     '''',
     ''}  // namespace openveh::someip::vehicle'']"

definition VehicleInfoChangedEvent_hpp :: "string list" where
  "VehicleInfoChangedEvent_hpp =
    [''#pragma once'',
     '''',
     ''#include <cstdint>'',
     ''#include <limits>'',
     ''#include <string>'',
     ''#include <utility>'',
     ''#include <vector>'',
     '''',
     quoted_include ''someip_codec_support'',
     '''',
     quoted_include ''VehicleStatus'',
     '''',
     ''namespace openveh::someip::vehicle {'',
     '''',
     ''struct VehicleInfoChangedEvent : public someip_generated::SerializableObject {'',
     ''    std::uint32_t eventSequence;'',
     ''    VehicleStatus status;'',
     '''',
     ''    bool serializeTo(std::vector<std::uint8_t>& bytes) const override {'',
     ''        someip_generated::ByteWriter writer(bytes);'',
     ''        if (!writer.writeIntegralBE<std::uint32_t>(eventSequence)) return false;'',
     ''        if (!status.serializeTo(bytes)) return false;'',
     ''        return true;'',
     ''    }'',
     '''',
     ''    bool deserializeFromReader(someip_generated::ByteReader& reader) override {'',
     ''        if (!reader.readIntegralBE<std::uint32_t>(eventSequence)) return false;'',
     ''        if (!status.deserializeFromReader(reader)) return false;'',
     ''        return true;'',
     ''    }'',
     ''};'',
     '''',
     ''}  // namespace openveh::someip::vehicle'']"

definition SetCruiseSpeedRequest_hpp :: "string list" where
  "SetCruiseSpeedRequest_hpp =
    [''#pragma once'',
     '''',
     ''#include <cstdint>'',
     ''#include <limits>'',
     ''#include <string>'',
     ''#include <utility>'',
     ''#include <vector>'',
     '''',
     quoted_include ''someip_codec_support'',
     '''',
     '''',
     ''namespace openveh::someip::vehicle {'',
     '''',
     ''struct SetCruiseSpeedRequest : public someip_generated::SerializableObject {'',
     ''    std::uint16_t targetSpeedKph;'',
     '''',
     ''    bool serializeTo(std::vector<std::uint8_t>& bytes) const override {'',
     ''        someip_generated::ByteWriter writer(bytes);'',
     ''        if (!writer.writeIntegralBE<std::uint16_t>(targetSpeedKph)) return false;'',
     ''        return true;'',
     ''    }'',
     '''',
     ''    bool deserializeFromReader(someip_generated::ByteReader& reader) override {'',
     ''        if (!reader.readIntegralBE<std::uint16_t>(targetSpeedKph)) return false;'',
     ''        return true;'',
     ''    }'',
     ''};'',
     '''',
     ''}  // namespace openveh::someip::vehicle'']"

definition SetCruiseSpeedResponse_hpp :: "string list" where
  "SetCruiseSpeedResponse_hpp =
    [''#pragma once'',
     '''',
     ''#include <cstdint>'',
     ''#include <limits>'',
     ''#include <string>'',
     ''#include <utility>'',
     ''#include <vector>'',
     '''',
     quoted_include ''someip_codec_support'',
     '''',
     '''',
     ''namespace openveh::someip::vehicle {'',
     '''',
     ''struct SetCruiseSpeedResponse : public someip_generated::SerializableObject {'',
     ''    bool accepted;'',
     '''',
     ''    bool serializeTo(std::vector<std::uint8_t>& bytes) const override {'',
     ''        someip_generated::ByteWriter writer(bytes);'',
     ''        if (!writer.writeIntegralBE<std::uint8_t>(accepted ? 1u : 0u)) return false;'',
     ''        return true;'',
     ''    }'',
     '''',
     ''    bool deserializeFromReader(someip_generated::ByteReader& reader) override {'',
     ''        std::uint8_t b = 0;'',
     ''        if (!reader.readIntegralBE<std::uint8_t>(b)) return false;'',
     ''        accepted = (b != 0);'',
     ''        return true;'',
     ''    }'',
     ''};'',
     '''',
     ''}  // namespace openveh::someip::vehicle'']"

definition generated_someip_params_hpp :: "string list" where
  "generated_someip_params_hpp =
    [''#pragma once'',
     '''',
     ''#include <cstdint>'',
     '''',
     quoted_include ''someip_codec_support'',
     quoted_include ''WheelInfo'',
     quoted_include ''VehicleStatus'',
     quoted_include ''GetVehicleInfoRequest'',
     quoted_include ''GetVehicleInfoResponse'',
     quoted_include ''VehicleInfoChangedEvent'',
     quoted_include ''SetCruiseSpeedRequest'',
     quoted_include ''SetCruiseSpeedResponse'',
     '''',
     ''// Namespace: openveh::someip::vehicle'']"

section \<open>The generator on the documents\<close>

lemma vehicle_parsed: "parse_idl_sources vehicle_documents = Inr (JStr vehicle_namespace, vehicle_types)"
  by code_simp

lemma WheelInfo_header: "type_header_lines vehicle_namespace WheelInfo_type = WheelInfo_hpp"
  by code_simp

lemma VehicleStatus_header: "type_header_lines vehicle_namespace VehicleStatus_type = VehicleStatus_hpp"
  by code_simp

lemma GetVehicleInfoRequest_header: "type_header_lines vehicle_namespace GetVehicleInfoRequest_type = GetVehicleInfoRequest_hpp"
  by code_simp

lemma GetVehicleInfoResponse_header: "type_header_lines vehicle_namespace GetVehicleInfoResponse_type = GetVehicleInfoResponse_hpp"
  by code_simp

lemma VehicleInfoChangedEvent_header: "type_header_lines vehicle_namespace VehicleInfoChangedEvent_type = VehicleInfoChangedEvent_hpp"
  by code_simp

lemma SetCruiseSpeedRequest_header: "type_header_lines vehicle_namespace SetCruiseSpeedRequest_type = SetCruiseSpeedRequest_hpp"
  by code_simp

lemma SetCruiseSpeedResponse_header: "type_header_lines vehicle_namespace SetCruiseSpeedResponse_type = SetCruiseSpeedResponse_hpp"
  by code_simp

lemma aggregate_header: "aggregate_lines vehicle_namespace vehicle_types = generated_someip_params_hpp"
  by code_simp

lemmas vehicle_headers = WheelInfo_header VehicleStatus_header GetVehicleInfoRequest_header GetVehicleInfoResponse_header VehicleInfoChangedEvent_header SetCruiseSpeedRequest_header SetCruiseSpeedResponse_header aggregate_header

lemma vehicle_names: "map td_name vehicle_types = [''WheelInfo'', ''VehicleStatus'', ''GetVehicleInfoRequest'', ''GetVehicleInfoResponse'', ''VehicleInfoChangedEvent'', ''SetCruiseSpeedRequest'', ''SetCruiseSpeedResponse'']"
  by (simp add: vehicle_types_def vehicle_type_defs)

end
