(* ===== verification/Gen_Vehicle.thy ===== *)
theory Gen_Vehicle
  imports Gen_Total Gen_Headers Vehicle_Params
begin

text \<open>
  The generated code of the vehicle description, executed, is the model of the checked-in headers in theory
  \<open>Vehicle_Params\<close>: the same bytes, verdicts, readers and objects, on success and on failure. The contract of
  theory \<open>Gen_Total\<close> is interpreted on these classes.
\<close>

section \<open>The classes\<close>

definition vehicle_env :: class_env where
  "vehicle_env = class_env vehicle_types"

lemma vehicle_lookup:
  "vehicle_env ''WheelInfo'' = Some WheelInfo_type"
  "vehicle_env ''VehicleStatus'' = Some VehicleStatus_type"
  "vehicle_env ''GetVehicleInfoRequest'' = Some GetVehicleInfoRequest_type"
  "vehicle_env ''GetVehicleInfoResponse'' = Some GetVehicleInfoResponse_type"
  "vehicle_env ''VehicleInfoChangedEvent'' = Some VehicleInfoChangedEvent_type"
  "vehicle_env ''SetCruiseSpeedRequest'' = Some SetCruiseSpeedRequest_type"
  "vehicle_env ''SetCruiseSpeedResponse'' = Some SetCruiseSpeedResponse_type"
  by (simp_all add: vehicle_env_def class_env_def vehicle_types_def vehicle_type_defs)

lemma vehicle_hygienic: "hygienic_idl vehicle_types"
  by code_simp

lemma vehicle_wf: "idl_wf vehicle_types"
  by (rule accepted_idl_wf [OF vehicle_parsed])

lemma vehicle_env_ok: "env_ok vehicle_env"
  unfolding vehicle_env_def by (rule class_env_ok [OF vehicle_wf vehicle_hygienic])

text \<open>No class nests deeper than three.\<close>

interpretation vehicle: total_codec "gen_serialize vehicle_env 3" "gen_deserialize vehicle_env 3"
    "gen_new vehicle_env 3" "object_ok vehicle_env 3" "object_image vehicle_env 3" "nests vehicle_env 3"
  by (rule total_levels [OF vehicle_env_ok])

section \<open>Readers and writers that the emitted code runs like\<close>

definition reads_like ::
    "reader_call \<Rightarrow> (string \<Rightarrow> val option) \<Rightarrow> ('s \<Rightarrow> fields) \<Rightarrow> FieldDef \<Rightarrow> 's reader_step \<Rightarrow> bool" where
  "reads_like call new flds f s \<longleftrightarrow> (\<forall>y r. case s y r of (ok, x, r') \<Rightarrow>
     (\<exists>v w. map_of (flds y) (fd_name f) = Some v \<and> read_field call new f v r = Some (ok, w, r')
        \<and> flds x = AList.update (fd_name f) w (flds y)))"

definition writes_like ::
    "(string \<Rightarrow> fields \<Rightarrow> bytes stepper) \<Rightarrow> fields \<Rightarrow> FieldDef \<Rightarrow> writer_step \<Rightarrow> bool" where
  "writes_like call obj f w \<longleftrightarrow> (\<forall>out. write_member call obj f out = Some (w out))"

lemma read_fields_like:
  "list_all2 (reads_like call new flds) fs ss \<Longrightarrow>
     read_fields call new fs (flds y) r = Some (case read_all ss y r of (ok, x, r') \<Rightarrow> (ok, flds x, r'))"
proof (induction arbitrary: y r rule: list_all2_induct)
  case Nil
  show ?case by simp
next
  case (Cons f fs s ss)
  obtain ok x r' where s: "s y r = (ok, x, r')" by (rule prod_cases3)
  from Cons.hyps(1) have "case s y r of (ok, x, r') \<Rightarrow>
     (\<exists>v w. map_of (flds y) (fd_name f) = Some v \<and> read_field call new f v r = Some (ok, w, r')
        \<and> flds x = AList.update (fd_name f) w (flds y))" unfolding reads_like_def by simp
  with s obtain v w where "map_of (flds y) (fd_name f) = Some v"
    "read_field call new f v r = Some (ok, w, r')" "flds x = AList.update (fd_name f) w (flds y)" by auto
  with s Cons.IH [of x r'] show ?case by (cases ok) auto
qed

lemma run_steps_like:
  "list_all2 (writes_like call obj) fs ws \<Longrightarrow>
     run_steps (map (write_member call obj) fs) out = Some (write_all ws out)"
  by (induction arbitrary: out rule: list_all2_induct) (auto simp: writes_like_def split: prod.split)

text \<open>The instances of the integer routines.\<close>

lemma int_instances:
  "write_int ''u8'' (unat (a :: u8)) out = writeIntegralBE out a"
  "write_int ''u16'' (unat (b :: u16)) out = writeIntegralBE out b"
  "write_int ''i16'' (unat b) out = writeIntegralBE out b"
  "write_int ''u32'' (unat (c :: u32)) out = writeIntegralBE out c"
  by (simp_all add: write_int_def int_bytes_def)

lemma read_instances:
  "read_int ''u8'' r = map_option (apfst unat) (readIntegralBE r :: (u8 \<times> ByteReader) option)"
  "read_int ''u16'' r = map_option (apfst unat) (readIntegralBE r :: (u16 \<times> ByteReader) option)"
  "read_int ''i16'' r = map_option (apfst unat) (readIntegralBE r :: (u16 \<times> ByteReader) option)"
  "read_int ''u32'' r = map_option (apfst unat) (readIntegralBE r :: (u32 \<times> ByteReader) option)"
  by (simp_all add: read_int_def int_bytes_def)

lemma length_type_fields [simp]:
  "length_type (string_field x l) = l" "length_type (array_field x e l) = l"
  by (simp_all add: length_type_def string_field_def array_field_def)

lemma max_sizes: "max_size ''u8'' = 255" "max_size ''u16'' = 65535"
  by (simp_all add: max_size_def int_bytes_def)

text \<open>A member \<open>x\<close> that holds \<open>get s\<close>, and how updating the object updates it.\<close>

definition holds :: "('s \<Rightarrow> fields) \<Rightarrow> string \<Rightarrow> ('s \<Rightarrow> 'a) \<Rightarrow> ('a \<Rightarrow> val) \<Rightarrow> ('a \<Rightarrow> 's \<Rightarrow> 's) \<Rightarrow> bool" where
  "holds flds x get emb upd \<longleftrightarrow> (\<forall>y. map_of (flds y) x = Some (emb (get y)))
     \<and> (\<forall>y v. flds (upd v y) = AList.update x (emb v) (flds y))"

lemma holdsD: "holds flds x get emb upd \<Longrightarrow> map_of (flds y) x = Some (emb (get y))"
  "holds flds x get emb upd \<Longrightarrow> flds (upd v y) = AList.update x (emb v) (flds y)"
  by (simp_all add: holds_def)

lemma reads_like_int:
  assumes "holds flds x get (\<lambda>v. VInt t (unat v)) upd" and "is_int t"
    and "\<And>r. read_int t r = map_option (apfst unat) (readIntegralBE r :: ('a::len word \<times> ByteReader) option)"
  shows "reads_like call new flds (prim_field x t) (int_step (upd :: 'a word \<Rightarrow> 's \<Rightarrow> 's))"
proof -
  from assms(2) have "t \<noteq> ''string''" "t \<noteq> ''bool''" by auto
  then show ?thesis
    unfolding reads_like_def
    using holdsD [OF assms(1)] assms(2,3)
    by (auto simp: int_step_def read_field_def prim_field_def read_value_int update_same split: option.split)
qed

lemma reads_like_bool:
  "holds flds x get VBool upd \<Longrightarrow> reads_like call new flds (prim_field x ''bool'') (bool_step upd)"
  unfolding reads_like_def
  by (auto simp: bool_step_def int_step_def read_field_def prim_field_def read_instances holdsD update_same
      unat_gt_0 word_neq_0_conv split: option.split)

lemma reads_like_string:
  "holds flds x get VStr upd \<Longrightarrow> reads_like call new flds (string_field x ''u16'') (string_step upd)"
  unfolding reads_like_def
  by (auto simp: string_step_def read_field_def string_field_def length_type_def read_instances holdsD update_same
      split: option.split)

lemma reads_like_nested:
  assumes "holds flds x get (\<lambda>v. VObj t (sub v)) upd"
    and "\<And>y r. call t (sub y) r = Some (case rd y r of (ok, z, r') \<Rightarrow> (ok, sub z, r'))"
  shows "reads_like call new flds (class_field x t) (nested_step rd get upd)"
  unfolding reads_like_def
  using holdsD [OF assms(1)] assms(2)
  by (auto simp: nested_step_def read_field_def class_field_def split: prod.split)

text \<open>The elements of a vector, \<open>elem\<close> the value of each.\<close>

definition elem_like ::
    "reader_call \<Rightarrow> (string \<Rightarrow> val option) \<Rightarrow> string \<Rightarrow> string \<Rightarrow> ('e \<Rightarrow> val) \<Rightarrow> 'e reader_step \<Rightarrow> 'e \<Rightarrow> bool" where
  "elem_like call new lt e elem rd temp \<longleftrightarrow> (\<forall>r. read_elem call new lt e r
     = Some (case rd temp r of (ok, y, r') \<Rightarrow> (if ok then Some (elem y) else None, r')))"

lemma read_elem_loop_like:
  "elem_like call new lt e elem rd temp \<Longrightarrow>
     read_elem_loop (read_elem call new lt e) k (map elem es) r
       = Some (case read_elems k rd temp es r of (ok, es', r') \<Rightarrow> (ok, map elem es', r'))"
proof (induction k arbitrary: es r)
  case (Suc k)
  obtain ok y r' where "rd temp r = (ok, y, r')" by (rule prod_cases3)
  with Suc.prems Suc.IH [OF Suc.prems, of "es @ [y]" r'] show ?case by (cases ok) (simp_all add: elem_like_def)
qed simp

lemma reads_like_vec:
  assumes "holds flds x get (\<lambda>es. VVec e (map elem es)) upd" and "elem_like call new lt e elem rd temp"
    and "\<And>r. read_int lt r = map_option (apfst unat) (readIntegralBE r :: ('c::len word \<times> ByteReader) option)"
  shows "reads_like call new flds (array_field x e lt) (vec_step TYPE('c) rd temp upd)"
  unfolding reads_like_def
  using holdsD [OF assms(1)] read_elem_loop_like [OF assms(2), where es = "[]"] assms(3)
  by (auto simp: vec_step_def read_field_def array_field_def length_type_def update_same Let_def
      split: option.split prod.split)

section \<open>Writers\<close>

lemma writes_like_int:
  "map_of obj x = Some (VInt t (unat v)) \<Longrightarrow> t \<noteq> ''string'' \<Longrightarrow>
     (\<And>out. write_int t (unat v) out = writeIntegralBE out v) \<Longrightarrow> writes_like call obj (prim_field x t) (int_write v)"
  by (simp add: writes_like_def write_member_def write_field_def prim_field_def int_write_def)

lemma writes_like_bool:
  "map_of obj x = Some (VBool b) \<Longrightarrow> writes_like call obj (prim_field x ''bool'') (bool_write b)"
  using int_instances(1) [of "if b then 1 else 0"]
  by (cases b) (simp_all add: writes_like_def write_member_def write_field_def prim_field_def bool_write_def int_write_def)

lemma writes_like_string:
  "map_of obj x = Some (VStr s) \<Longrightarrow> writes_like call obj (string_field x ''u16'') (string_write s)"
  by (auto simp: writes_like_def write_member_def write_field_def string_field_def length_type_def string_write_def
      write_string_def max_sizes max_u16 write_int_def int_bytes_def)

lemma writes_like_nested:
  "map_of obj x = Some (VObj t fs) \<Longrightarrow> (\<And>out. call t fs out = Some (w out)) \<Longrightarrow>
     writes_like call obj (class_field x t) w"
  by (simp add: writes_like_def write_member_def write_field_def class_field_def)

lemma run_elems_like:
  "(\<And>y out. write_elem call lt e (elem y) out = Some (wr y out)) \<Longrightarrow>
     run_steps (map (write_elem call lt e) (map elem es)) out = Some (write_all (map wr es) out)"
  by (induction es arbitrary: out) (auto split: prod.split)

lemma writes_like_vec:
  assumes "map_of obj x = Some (VVec e (map elem es))"
    and "\<And>y out. write_elem call lt e (elem y) out = Some (wr y out)"
    and "max_size lt = unat (- 1 :: 'c::len word)"
    and "\<And>n out. write_int lt n out = writeIntegralBE out (of_nat n :: 'c word)"
  shows "writes_like call obj (array_field x e lt) (vec_write TYPE('c) wr es)"
  using assms run_elems_like [of call lt e elem wr es]
  by (simp add: writes_like_def write_member_def write_field_def array_field_def length_type_def vec_write_def Let_def
      del: map_map)

section \<open>The classes of the vehicle description\<close>

definition fields_of_WheelInfo :: "WheelInfo \<Rightarrow> fields" where
  "fields_of_WheelInfo x =
     [(''wheelId'', VInt ''u8'' (unat (wheelId x))),
      (''pressureKpa'', VInt ''u16'' (unat (pressureKpa x))),
      (''temperatureC'', VInt ''i16'' (unat (temperatureC x)))]"

definition fields_of_VehicleStatus :: "VehicleStatus \<Rightarrow> fields" where
  "fields_of_VehicleStatus x =
     [(''vin'', VStr (vin x)),
      (''speedKph'', VInt ''u16'' (unat (speedKph x))),
      (''engineRpm'', VInt ''u32'' (unat (engineRpm x))),
      (''doorOpen'', VBool (doorOpen x)),
      (''wheels'', VVec ''WheelInfo'' (map (\<lambda>w. VObj ''WheelInfo'' (fields_of_WheelInfo w)) (wheels x))),
      (''accelHistory'', VVec ''f32'' (map VFloat (accelHistory x)))]"

definition fields_of_GetVehicleInfoRequest :: "GetVehicleInfoRequest \<Rightarrow> fields" where
  "fields_of_GetVehicleInfoRequest x =
     [(''requestId'', VInt ''u32'' (unat (gi_requestId x))), (''targetVin'', VStr (gi_targetVin x))]"

definition fields_of_GetVehicleInfoResponse :: "GetVehicleInfoResponse \<Rightarrow> fields" where
  "fields_of_GetVehicleInfoResponse x =
     [(''requestId'', VInt ''u32'' (unat (gir_requestId x))),
      (''status'', VObj ''VehicleStatus'' (fields_of_VehicleStatus (gir_status x)))]"

definition fields_of_VehicleInfoChangedEvent :: "VehicleInfoChangedEvent \<Rightarrow> fields" where
  "fields_of_VehicleInfoChangedEvent x =
     [(''eventSequence'', VInt ''u32'' (unat (vic_eventSequence x))),
      (''status'', VObj ''VehicleStatus'' (fields_of_VehicleStatus (vic_status x)))]"

definition fields_of_SetCruiseSpeedRequest :: "SetCruiseSpeedRequest \<Rightarrow> fields" where
  "fields_of_SetCruiseSpeedRequest x = [(''targetSpeedKph'', VInt ''u16'' (unat (targetSpeedKph x)))]"

definition fields_of_SetCruiseSpeedResponse :: "SetCruiseSpeedResponse \<Rightarrow> fields" where
  "fields_of_SetCruiseSpeedResponse x = [(''accepted'', VBool (accepted x))]"

lemmas fields_of_defs = fields_of_WheelInfo_def fields_of_VehicleStatus_def fields_of_GetVehicleInfoRequest_def
  fields_of_GetVehicleInfoResponse_def fields_of_VehicleInfoChangedEvent_def fields_of_SetCruiseSpeedRequest_def
  fields_of_SetCruiseSpeedResponse_def

text \<open>The emitted members of class \<open>tn\<close> run like a given writer and reader.\<close>

definition runs_like :: "nat \<Rightarrow> string \<Rightarrow> ('s \<Rightarrow> fields) \<Rightarrow> ('s \<Rightarrow> writer_step) \<Rightarrow> 's reader_step \<Rightarrow> bool" where
  "runs_like n tn flds wr rd \<longleftrightarrow>
     (\<forall>x out. gen_serialize vehicle_env n tn (flds x) out = Some (wr x out))
     \<and> (\<forall>y r. gen_deserialize vehicle_env n tn (flds y) r = Some (case rd y r of (ok, x, r') \<Rightarrow> (ok, flds x, r')))"

lemma runs_likeD:
  assumes "runs_like n tn flds wr rd"
  shows "gen_serialize vehicle_env n tn (flds x) out = Some (wr x out)"
    and "gen_deserialize vehicle_env n tn (flds y) r = Some (case rd y r of (ok, x, r') \<Rightarrow> (ok, flds x, r'))"
  using assms by (simp_all add: runs_like_def)

lemma runs_like_class:
  assumes "vehicle_env tn = Some t" and "\<And>y. fits_object (td_fields t) (flds y)"
    and "list_all2 (reads_like (gen_deserialize vehicle_env n) (gen_new vehicle_env n) flds) (td_fields t) ss"
    and "\<And>x. list_all2 (writes_like (gen_serialize vehicle_env n) (flds x)) (td_fields t) (ws x)"
  shows "runs_like (Suc n) tn flds (\<lambda>x. write_all (ws x)) (read_all ss)"
  unfolding runs_like_def
  using gen_serialize_fields [of vehicle_env, OF assms(1) env_okD(1,2) [OF vehicle_env_ok assms(1)] assms(2)] run_steps_like [OF assms(4)]
    gen_deserialize_fields [of vehicle_env, OF assms(1) env_okD(1,3,2) [OF vehicle_env_ok assms(1)] assms(2)]
    read_fields_like [OF assms(3)]
  by simp

lemma is_int_used [simp]: "is_int ''u16''" "is_int ''i16''" "is_int ''u32''"
  by (simp_all add: is_int_keys)

lemmas reads_like_members =
  reads_like_int [OF _ is_int_simps(1) read_instances(1)] reads_like_int [OF _ is_int_used(1) read_instances(2)]
  reads_like_int [OF _ is_int_used(2) read_instances(3)] reads_like_int [OF _ is_int_used(3) read_instances(4)]
  reads_like_bool reads_like_string

lemmas writes_like_members = writes_like_int [OF _ _ int_instances(1)] writes_like_int [OF _ _ int_instances(2)]
  writes_like_int [OF _ _ int_instances(3)] writes_like_int [OF _ _ int_instances(4)] writes_like_bool writes_like_string

lemmas field_shapes = fits_object_def fits_def prim_field_def string_field_def class_field_def array_field_def
  prim_shape_def

lemma WheelInfo_holds:
  "holds fields_of_WheelInfo ''wheelId'' wheelId (\<lambda>v. VInt ''u8'' (unat v)) (\<lambda>v. wheelId_update (\<lambda>_. v))"
  "holds fields_of_WheelInfo ''pressureKpa'' pressureKpa (\<lambda>v. VInt ''u16'' (unat v)) (\<lambda>v. pressureKpa_update (\<lambda>_. v))"
  "holds fields_of_WheelInfo ''temperatureC'' temperatureC (\<lambda>v. VInt ''i16'' (unat v)) (\<lambda>v. temperatureC_update (\<lambda>_. v))"
  by (simp_all add: holds_def fields_of_WheelInfo_def)

lemma WheelInfo_runs_like: "runs_like (Suc n) ''WheelInfo'' fields_of_WheelInfo serialize_WheelInfo read_WheelInfo"
  unfolding serialize_WheelInfo_def [abs_def] read_WheelInfo_def
proof (rule runs_like_class [OF vehicle_lookup(1)])
  show "fits_object (td_fields WheelInfo_type) (fields_of_WheelInfo y)" for y
    by (simp add: WheelInfo_type_def field_shapes fields_of_WheelInfo_def)
  show "list_all2 (reads_like (gen_deserialize vehicle_env n) (gen_new vehicle_env n) fields_of_WheelInfo)
      (td_fields WheelInfo_type)
      [int_step (\<lambda>v. wheelId_update (\<lambda>_. v)), int_step (\<lambda>v. pressureKpa_update (\<lambda>_. v)),
       int_step (\<lambda>v. temperatureC_update (\<lambda>_. v))]"
    by (simp add: WheelInfo_type_def) (intro conjI reads_like_members; rule WheelInfo_holds)
  show "list_all2 (writes_like (gen_serialize vehicle_env n) (fields_of_WheelInfo x)) (td_fields WheelInfo_type)
      [int_write (wheelId x), int_write (pressureKpa x), int_write (temperatureC x)]" for x
    by (simp add: WheelInfo_type_def)
      (intro conjI writes_like_members, simp_all add: fields_of_WheelInfo_def)
qed

text \<open>The element of the loop over the wheels is a default-constructed \<open>WheelInfo\<close>, as \<open>temp_WheelInfo\<close>.\<close>

lemma new_WheelInfo: "gen_new vehicle_env (Suc n) ''WheelInfo'' = Some (VObj ''WheelInfo'' (fields_of_WheelInfo temp_WheelInfo))"
  by (simp add: vehicle_lookup WheelInfo_type_def new_member_def prim_field_def initial_int fields_of_WheelInfo_def
      temp_WheelInfo_def)

lemma class_names [simp]:
  "\<not> is_primitive ''WheelInfo''" "\<not> is_primitive ''VehicleStatus''"
  by (simp_all add: primitive_cases is_int_keys)

lemma wheel_elements:
  "elem_like (gen_deserialize vehicle_env (Suc n)) (gen_new vehicle_env (Suc n)) ''u8'' ''WheelInfo''
     (\<lambda>w. VObj ''WheelInfo'' (fields_of_WheelInfo w)) read_WheelInfo temp_WheelInfo"
  unfolding elem_like_def read_elem_def new_WheelInfo
  using runs_likeD(2) [OF WheelInfo_runs_like, of n temp_WheelInfo]
  by (simp del: gen_deserialize.simps split: prod.split)

lemma float_elements: "elem_like call new ''u16'' ''f32'' VFloat (float_step (\<lambda>v _. v)) 0"
  by (simp add: elem_like_def read_elem_def read_value_def float_step_def split: option.split)

lemma VehicleStatus_holds:
  "holds fields_of_VehicleStatus ''vin'' vin VStr (\<lambda>v. vin_update (\<lambda>_. v))"
  "holds fields_of_VehicleStatus ''speedKph'' speedKph (\<lambda>v. VInt ''u16'' (unat v)) (\<lambda>v. speedKph_update (\<lambda>_. v))"
  "holds fields_of_VehicleStatus ''engineRpm'' engineRpm (\<lambda>v. VInt ''u32'' (unat v)) (\<lambda>v. engineRpm_update (\<lambda>_. v))"
  "holds fields_of_VehicleStatus ''doorOpen'' doorOpen VBool (\<lambda>v. doorOpen_update (\<lambda>_. v))"
  "holds fields_of_VehicleStatus ''wheels'' wheels
     (\<lambda>es. VVec ''WheelInfo'' (map (\<lambda>w. VObj ''WheelInfo'' (fields_of_WheelInfo w)) es)) (\<lambda>v. wheels_update (\<lambda>_. v))"
  "holds fields_of_VehicleStatus ''accelHistory'' accelHistory (\<lambda>es. VVec ''f32'' (map VFloat es))
     (\<lambda>v. accelHistory_update (\<lambda>_. v))"
  by (simp_all add: holds_def fields_of_VehicleStatus_def)

lemma wheel_writer:
  "write_elem (gen_serialize vehicle_env (Suc n)) lt ''WheelInfo'' (VObj ''WheelInfo'' (fields_of_WheelInfo w)) out
     = Some (serialize_WheelInfo w out)"
  using runs_likeD(1) [OF WheelInfo_runs_like] by (simp add: write_elem_def del: gen_serialize.simps)

lemma float_writer: "write_elem call lt ''f32'' (VFloat u) out = Some (float_write u out)"
  by (simp add: write_elem_def float_write_def)

lemma size_writers:
  "write_int ''u8'' n out = writeIntegralBE out (of_nat n :: u8)"
  "write_int ''u16'' n out = writeIntegralBE out (of_nat n :: u16)"
  by (simp_all add: write_int_def int_bytes_def)

lemma VehicleStatus_runs_like:
  "runs_like (Suc (Suc n)) ''VehicleStatus'' fields_of_VehicleStatus serialize_VehicleStatus read_VehicleStatus"
  unfolding serialize_VehicleStatus_def [abs_def] read_VehicleStatus_def
proof (rule runs_like_class [OF vehicle_lookup(2)])
  show "fits_object (td_fields VehicleStatus_type) (fields_of_VehicleStatus y)" for y
    by (simp add: VehicleStatus_type_def field_shapes fields_of_VehicleStatus_def list_all_iff)
  show "list_all2 (reads_like (gen_deserialize vehicle_env (Suc n)) (gen_new vehicle_env (Suc n)) fields_of_VehicleStatus)
      (td_fields VehicleStatus_type)
      [string_step (\<lambda>v. vin_update (\<lambda>_. v)), int_step (\<lambda>v. speedKph_update (\<lambda>_. v)),
       int_step (\<lambda>v. engineRpm_update (\<lambda>_. v)), bool_step (\<lambda>v. doorOpen_update (\<lambda>_. v)),
       vec_step TYPE(8) read_WheelInfo temp_WheelInfo (\<lambda>v. wheels_update (\<lambda>_. v)),
       vec_step TYPE(16) (float_step (\<lambda>v _. v)) 0 (\<lambda>v. accelHistory_update (\<lambda>_. v))]"
    by (simp add: VehicleStatus_type_def del: gen_deserialize.simps gen_new.simps)
      (intro conjI reads_like_members reads_like_vec [OF _ wheel_elements read_instances(1)]
        reads_like_vec [OF _ float_elements read_instances(2)]; rule VehicleStatus_holds)
  show "list_all2 (writes_like (gen_serialize vehicle_env (Suc n)) (fields_of_VehicleStatus x)) (td_fields VehicleStatus_type)
      [string_write (vin x), int_write (speedKph x), int_write (engineRpm x), bool_write (doorOpen x),
       vec_write TYPE(8) serialize_WheelInfo (wheels x), vec_write TYPE(16) float_write (accelHistory x)]" for x
    by (simp add: VehicleStatus_type_def del: gen_serialize.simps)
      (intro conjI writes_like_members writes_like_vec [OF _ wheel_writer _ size_writers(1)]
        writes_like_vec [OF _ float_writer _ size_writers(2)],
       simp_all add: fields_of_VehicleStatus_def max_sizes max_u8 max_u16)
qed

lemma GetVehicleInfoRequest_holds:
  "holds fields_of_GetVehicleInfoRequest ''requestId'' gi_requestId (\<lambda>v. VInt ''u32'' (unat v)) (\<lambda>v. gi_requestId_update (\<lambda>_. v))"
  "holds fields_of_GetVehicleInfoRequest ''targetVin'' gi_targetVin VStr (\<lambda>v. gi_targetVin_update (\<lambda>_. v))"
  by (simp_all add: holds_def fields_of_GetVehicleInfoRequest_def)

lemma GetVehicleInfoRequest_runs_like:
  "runs_like (Suc n) ''GetVehicleInfoRequest'' fields_of_GetVehicleInfoRequest serialize_GetVehicleInfoRequest read_GetVehicleInfoRequest"
  unfolding serialize_GetVehicleInfoRequest_def [abs_def] read_GetVehicleInfoRequest_def
proof (rule runs_like_class [OF vehicle_lookup(3)])
  show "fits_object (td_fields GetVehicleInfoRequest_type) (fields_of_GetVehicleInfoRequest y)" for y
    by (simp add: GetVehicleInfoRequest_type_def field_shapes fields_of_GetVehicleInfoRequest_def)
  show "list_all2 (reads_like (gen_deserialize vehicle_env n) (gen_new vehicle_env n) fields_of_GetVehicleInfoRequest)
      (td_fields GetVehicleInfoRequest_type)
      [int_step (\<lambda>v. gi_requestId_update (\<lambda>_. v)), string_step (\<lambda>v. gi_targetVin_update (\<lambda>_. v))]"
    by (simp add: GetVehicleInfoRequest_type_def del: gen_deserialize.simps gen_new.simps) (intro conjI reads_like_members; rule GetVehicleInfoRequest_holds)
  show "list_all2 (writes_like (gen_serialize vehicle_env n) (fields_of_GetVehicleInfoRequest x)) (td_fields GetVehicleInfoRequest_type)
      [int_write (gi_requestId x), string_write (gi_targetVin x)]" for x
    by (simp add: GetVehicleInfoRequest_type_def del: gen_serialize.simps)
      (intro conjI writes_like_members, simp_all add: fields_of_GetVehicleInfoRequest_def)
qed

text \<open>A member of class \<open>VehicleStatus\<close>.\<close>

lemma reads_like_status:
  "holds flds x get (\<lambda>v. VObj ''VehicleStatus'' (fields_of_VehicleStatus v)) upd \<Longrightarrow>
     reads_like (gen_deserialize vehicle_env (Suc (Suc n))) new flds (class_field x ''VehicleStatus'')
       (nested_step read_VehicleStatus get upd)"
  by (erule reads_like_nested [where sub = fields_of_VehicleStatus]) (rule runs_likeD(2) [OF VehicleStatus_runs_like])

lemma writes_like_status:
  "map_of obj x = Some (VObj ''VehicleStatus'' (fields_of_VehicleStatus s)) \<Longrightarrow>
     writes_like (gen_serialize vehicle_env (Suc (Suc n))) obj (class_field x ''VehicleStatus'') (serialize_VehicleStatus s)"
  by (erule writes_like_nested) (rule runs_likeD(1) [OF VehicleStatus_runs_like])

lemma GetVehicleInfoResponse_holds:
  "holds fields_of_GetVehicleInfoResponse ''requestId'' gir_requestId (\<lambda>v. VInt ''u32'' (unat v)) (\<lambda>v. gir_requestId_update (\<lambda>_. v))"
  "holds fields_of_GetVehicleInfoResponse ''status'' gir_status (\<lambda>v. VObj ''VehicleStatus'' (fields_of_VehicleStatus v)) (\<lambda>v. gir_status_update (\<lambda>_. v))"
  by (simp_all add: holds_def fields_of_GetVehicleInfoResponse_def)

lemma GetVehicleInfoResponse_runs_like:
  "runs_like (Suc (Suc (Suc n))) ''GetVehicleInfoResponse'' fields_of_GetVehicleInfoResponse serialize_GetVehicleInfoResponse read_GetVehicleInfoResponse"
  unfolding serialize_GetVehicleInfoResponse_def [abs_def] read_GetVehicleInfoResponse_def
proof (rule runs_like_class [OF vehicle_lookup(4)])
  show "fits_object (td_fields GetVehicleInfoResponse_type) (fields_of_GetVehicleInfoResponse y)" for y
    by (simp add: GetVehicleInfoResponse_type_def field_shapes fields_of_GetVehicleInfoResponse_def)
  show "list_all2 (reads_like (gen_deserialize vehicle_env (Suc (Suc n))) (gen_new vehicle_env (Suc (Suc n))) fields_of_GetVehicleInfoResponse)
      (td_fields GetVehicleInfoResponse_type)
      [int_step (\<lambda>v. gir_requestId_update (\<lambda>_. v)),
       nested_step read_VehicleStatus gir_status (\<lambda>v. gir_status_update (\<lambda>_. v))]"
    by (simp add: GetVehicleInfoResponse_type_def del: gen_deserialize.simps gen_new.simps) (intro conjI reads_like_members reads_like_status; rule GetVehicleInfoResponse_holds)
  show "list_all2 (writes_like (gen_serialize vehicle_env (Suc (Suc n))) (fields_of_GetVehicleInfoResponse x)) (td_fields GetVehicleInfoResponse_type)
      [int_write (gir_requestId x), serialize_VehicleStatus (gir_status x)]" for x
    by (simp add: GetVehicleInfoResponse_type_def del: gen_serialize.simps)
      (intro conjI writes_like_members writes_like_status, simp_all add: fields_of_GetVehicleInfoResponse_def)
qed

lemma VehicleInfoChangedEvent_holds:
  "holds fields_of_VehicleInfoChangedEvent ''eventSequence'' vic_eventSequence (\<lambda>v. VInt ''u32'' (unat v)) (\<lambda>v. vic_eventSequence_update (\<lambda>_. v))"
  "holds fields_of_VehicleInfoChangedEvent ''status'' vic_status (\<lambda>v. VObj ''VehicleStatus'' (fields_of_VehicleStatus v)) (\<lambda>v. vic_status_update (\<lambda>_. v))"
  by (simp_all add: holds_def fields_of_VehicleInfoChangedEvent_def)

lemma VehicleInfoChangedEvent_runs_like:
  "runs_like (Suc (Suc (Suc n))) ''VehicleInfoChangedEvent'' fields_of_VehicleInfoChangedEvent serialize_VehicleInfoChangedEvent read_VehicleInfoChangedEvent"
  unfolding serialize_VehicleInfoChangedEvent_def [abs_def] read_VehicleInfoChangedEvent_def
proof (rule runs_like_class [OF vehicle_lookup(5)])
  show "fits_object (td_fields VehicleInfoChangedEvent_type) (fields_of_VehicleInfoChangedEvent y)" for y
    by (simp add: VehicleInfoChangedEvent_type_def field_shapes fields_of_VehicleInfoChangedEvent_def)
  show "list_all2 (reads_like (gen_deserialize vehicle_env (Suc (Suc n))) (gen_new vehicle_env (Suc (Suc n))) fields_of_VehicleInfoChangedEvent)
      (td_fields VehicleInfoChangedEvent_type)
      [int_step (\<lambda>v. vic_eventSequence_update (\<lambda>_. v)),
       nested_step read_VehicleStatus vic_status (\<lambda>v. vic_status_update (\<lambda>_. v))]"
    by (simp add: VehicleInfoChangedEvent_type_def del: gen_deserialize.simps gen_new.simps) (intro conjI reads_like_members reads_like_status; rule VehicleInfoChangedEvent_holds)
  show "list_all2 (writes_like (gen_serialize vehicle_env (Suc (Suc n))) (fields_of_VehicleInfoChangedEvent x)) (td_fields VehicleInfoChangedEvent_type)
      [int_write (vic_eventSequence x), serialize_VehicleStatus (vic_status x)]" for x
    by (simp add: VehicleInfoChangedEvent_type_def del: gen_serialize.simps)
      (intro conjI writes_like_members writes_like_status, simp_all add: fields_of_VehicleInfoChangedEvent_def)
qed

lemma SetCruiseSpeedRequest_holds:
  "holds fields_of_SetCruiseSpeedRequest ''targetSpeedKph'' targetSpeedKph (\<lambda>v. VInt ''u16'' (unat v)) (\<lambda>v. targetSpeedKph_update (\<lambda>_. v))"
  by (simp_all add: holds_def fields_of_SetCruiseSpeedRequest_def)

lemma SetCruiseSpeedRequest_runs_like:
  "runs_like (Suc n) ''SetCruiseSpeedRequest'' fields_of_SetCruiseSpeedRequest serialize_SetCruiseSpeedRequest read_SetCruiseSpeedRequest"
  unfolding serialize_SetCruiseSpeedRequest_def [abs_def] read_SetCruiseSpeedRequest_def
proof (rule runs_like_class [OF vehicle_lookup(6)])
  show "fits_object (td_fields SetCruiseSpeedRequest_type) (fields_of_SetCruiseSpeedRequest y)" for y
    by (simp add: SetCruiseSpeedRequest_type_def field_shapes fields_of_SetCruiseSpeedRequest_def)
  show "list_all2 (reads_like (gen_deserialize vehicle_env n) (gen_new vehicle_env n) fields_of_SetCruiseSpeedRequest)
      (td_fields SetCruiseSpeedRequest_type)
      [int_step (\<lambda>v. targetSpeedKph_update (\<lambda>_. v))]"
    by (simp add: SetCruiseSpeedRequest_type_def del: gen_deserialize.simps gen_new.simps) (intro conjI reads_like_members; rule SetCruiseSpeedRequest_holds)
  show "list_all2 (writes_like (gen_serialize vehicle_env n) (fields_of_SetCruiseSpeedRequest x)) (td_fields SetCruiseSpeedRequest_type)
      [int_write (targetSpeedKph x)]" for x
    by (simp add: SetCruiseSpeedRequest_type_def del: gen_serialize.simps)
      (intro conjI writes_like_members, simp_all add: fields_of_SetCruiseSpeedRequest_def)
qed

lemma SetCruiseSpeedResponse_holds:
  "holds fields_of_SetCruiseSpeedResponse ''accepted'' accepted VBool (\<lambda>v. accepted_update (\<lambda>_. v))"
  by (simp_all add: holds_def fields_of_SetCruiseSpeedResponse_def)

lemma SetCruiseSpeedResponse_runs_like:
  "runs_like (Suc n) ''SetCruiseSpeedResponse'' fields_of_SetCruiseSpeedResponse serialize_SetCruiseSpeedResponse read_SetCruiseSpeedResponse"
  unfolding serialize_SetCruiseSpeedResponse_def [abs_def] read_SetCruiseSpeedResponse_def
proof (rule runs_like_class [OF vehicle_lookup(7)])
  show "fits_object (td_fields SetCruiseSpeedResponse_type) (fields_of_SetCruiseSpeedResponse y)" for y
    by (simp add: SetCruiseSpeedResponse_type_def field_shapes fields_of_SetCruiseSpeedResponse_def)
  show "list_all2 (reads_like (gen_deserialize vehicle_env n) (gen_new vehicle_env n) fields_of_SetCruiseSpeedResponse)
      (td_fields SetCruiseSpeedResponse_type)
      [bool_step (\<lambda>v. accepted_update (\<lambda>_. v))]"
    by (simp add: SetCruiseSpeedResponse_type_def del: gen_deserialize.simps gen_new.simps) (intro conjI reads_like_members; rule SetCruiseSpeedResponse_holds)
  show "list_all2 (writes_like (gen_serialize vehicle_env n) (fields_of_SetCruiseSpeedResponse x)) (td_fields SetCruiseSpeedResponse_type)
      [bool_write (accepted x)]" for x
    by (simp add: SetCruiseSpeedResponse_type_def del: gen_serialize.simps)
      (intro conjI writes_like_members, simp_all add: fields_of_SetCruiseSpeedResponse_def)
qed

section \<open>Properties\<close>


text \<open>C40. The statements the generator emits for the seven classes of the vehicle example, executed on any
  object, buffer and bytes, do what the model of the checked-in headers says: the same verdict, bytes, object
  and reader, on every branch.\<close>

theorem emitted_code_is_the_model:
  "runs_like 3 ''WheelInfo'' fields_of_WheelInfo serialize_WheelInfo read_WheelInfo
   \<and> runs_like 3 ''VehicleStatus'' fields_of_VehicleStatus serialize_VehicleStatus read_VehicleStatus
   \<and> runs_like 3 ''GetVehicleInfoRequest'' fields_of_GetVehicleInfoRequest
       serialize_GetVehicleInfoRequest read_GetVehicleInfoRequest
   \<and> runs_like 3 ''GetVehicleInfoResponse'' fields_of_GetVehicleInfoResponse
       serialize_GetVehicleInfoResponse read_GetVehicleInfoResponse
   \<and> runs_like 3 ''VehicleInfoChangedEvent'' fields_of_VehicleInfoChangedEvent
       serialize_VehicleInfoChangedEvent read_VehicleInfoChangedEvent
   \<and> runs_like 3 ''SetCruiseSpeedRequest'' fields_of_SetCruiseSpeedRequest
       serialize_SetCruiseSpeedRequest read_SetCruiseSpeedRequest
   \<and> runs_like 3 ''SetCruiseSpeedResponse'' fields_of_SetCruiseSpeedResponse
       serialize_SetCruiseSpeedResponse read_SetCruiseSpeedResponse"
proof -
  have three: "(3 :: nat) = Suc (Suc (Suc 0))" by simp
  show ?thesis
    unfolding three
    by (intro conjI WheelInfo_runs_like VehicleStatus_runs_like GetVehicleInfoRequest_runs_like
        GetVehicleInfoResponse_runs_like VehicleInfoChangedEvent_runs_like SetCruiseSpeedRequest_runs_like
        SetCruiseSpeedResponse_runs_like)
qed

end
