(* ===== verification/Gen_Names.thy ===== *)
theory Gen_Names
  imports Gen_Correct
begin

text \<open>
  Descriptions that the parser accepts and whose classes are wrong, because the generator puts the names of
  the members and of its own variables into one function. \<open>hygienic\<close> and \<open>class_compiles\<close>, which the
  round trip assumes, exclude them; here is what happens without.
\<close>

section \<open>Two members of type bool\<close>

definition is_flag :: "FieldDef \<Rightarrow> bool" where
  "is_flag f \<longleftrightarrow> fd_kind f = Kprimitive \<and> fd_type_name f = Some ''bool''"

lemma declared_vars_append [simp]: "declared_vars (bs @ cs) = declared_vars bs @ declared_vars cs"
  by (simp add: declared_vars_def)

lemma flag_declares_b: "is_flag f \<Longrightarrow> declared_vars (emit_deserialize f) = [''b'']"
  by (simp add: is_flag_def emit_deserialize_def declared_vars_def Let_def)

lemma flags_declare_b:
  "length (filter is_flag fs) \<le> count_list (declared_vars (concat (map emit_deserialize fs))) ''b''"
proof (induction fs)
  case (Cons f fs)
  then show ?case by (cases "is_flag f") (simp_all add: flag_declares_b trans_le_add2)
qed simp

lemma count_distinct: "distinct xs \<Longrightarrow> count_list xs x \<le> 1"
  by (induction xs) (auto simp: count_list_0_iff)

lemma compiling_class_has_one_flag:
  assumes "class_compiles t"
  shows "length (filter is_flag (td_fields t)) \<le> 1"
proof -
  from assms have "distinct (declared_vars (deserialize_body t))" by (simp add: class_compiles_def)
  then have "count_list (declared_vars (deserialize_body t)) ''b'' \<le> 1"
    by (rule count_distinct)
  with flags_declare_b [of "td_fields t"] show ?thesis by (simp add: deserialize_body_def)
qed

text \<open>A class with two members of type bool does not compile, and with it nothing that uses it: its reader
  declares the variable b twice in the same scope.\<close>

theorem two_flags_do_not_compile:
  assumes "env tn = Some t" and "length (filter is_flag (td_fields t)) > 1"
  shows "gen_serialize env n tn obj out = None \<and> gen_deserialize env n tn obj r = None"
  using assms compiling_class_has_one_flag [of t] by (cases n) auto

definition two_flags :: "TypeDef list" where
  "two_flags =
    [\<lparr> td_name = ''Doors'',
       td_fields = [\<lparr> fd_name = ''left'', fd_kind = Kprimitive, fd_type_name = Some ''bool'', fd_element_type = None,
                      fd_length_type = JStr ''u32'' \<rparr>,
                    \<lparr> fd_name = ''right'', fd_kind = Kprimitive, fd_type_name = Some ''bool'', fd_element_type = None,
                      fd_length_type = JStr ''u32'' \<rparr>],
       td_category = ''message'' \<rparr>]"

theorem two_flags_do_not_compile_witness:
  "parse_idl_sources [document_json ''a'' two_flags] = Inr (JStr ''a'', two_flags)
   \<and> gen_serialize (class_env two_flags) 1 ''Doors'' [(''left'', VBool True), (''right'', VBool False)] [] = None
   \<and> gen_deserialize (class_env two_flags) 1 ''Doors'' [(''left'', VBool True), (''right'', VBool False)]
       \<lparr> br_in = [0, 1], br_pos = 0 \<rparr> = None"
proof -
  have "parse_idl_sources [document_json ''a'' two_flags] = Inr (JStr ''a'', two_flags)" by code_simp
  moreover have "class_env two_flags ''Doors'' = Some (hd two_flags)" by (simp add: two_flags_def class_env_def)
  moreover have "length (filter is_flag (td_fields (hd two_flags))) > 1" by code_simp
  ultimately show ?thesis using two_flags_do_not_compile [of "class_env two_flags" "''Doors''" "hd two_flags" 1] by blast
qed

section \<open>Members named like a variable of the reader\<close>

definition shadowed_idl :: "TypeDef list" where
  "shadowed_idl =
    [\<lparr> td_name = ''Batch'',
       td_fields = [\<lparr> fd_name = ''items'', fd_kind = Karray, fd_type_name = None, fd_element_type = Some ''u8'',
                      fd_length_type = JStr ''u8'' \<rparr>,
                    \<lparr> fd_name = ''itemsLen'', fd_kind = Kprimitive, fd_type_name = Some ''u8'', fd_element_type = None,
                      fd_length_type = JStr ''u32'' \<rparr>],
       td_category = ''message'' \<rparr>,
     \<lparr> td_name = ''Lamp'',
       td_fields = [\<lparr> fd_name = ''b'', fd_kind = Kprimitive, fd_type_name = Some ''bool'', fd_element_type = None,
                      fd_length_type = JStr ''u32'' \<rparr>],
       td_category = ''message'' \<rparr>]"

definition batch :: "nat list \<Rightarrow> nat \<Rightarrow> fields" where
  "batch xs n = [(''items'', VVec ''u8'' (map (VInt ''u8'') xs)), (''itemsLen'', VInt ''u8'' n)]"

lemma shadowed_compile: "class_compiles (shadowed_idl ! 0)" "class_compiles (shadowed_idl ! 1)"
  by code_simp+

text \<open>Accepted descriptions that lose data: a member named like the length of an array before it
  (\<open>itemsLen\<close> after the array \<open>items\<close>), and a member of type bool named \<open>b\<close>. Both classes compile, both write
  their member, and the reader, which returns true, puts the value into its own variable: the member keeps
  what it held.\<close>

theorem shadowed_members_are_lost:
  "parse_idl_sources [document_json ''a'' shadowed_idl] = Inr (JStr ''a'', shadowed_idl)
   \<and> gen_serialize (class_env shadowed_idl) 1 ''Batch'' (batch [5] 7) [] = Some (True, [1, 5, 7])
   \<and> gen_deserialize (class_env shadowed_idl) 1 ''Batch'' (batch [] old) \<lparr> br_in = [1, 5, 7], br_pos = 0 \<rparr>
       = Some (True, batch [5] old, \<lparr> br_in = [1, 5, 7], br_pos = 3 \<rparr>)
   \<and> gen_serialize (class_env shadowed_idl) 1 ''Lamp'' [(''b'', VBool True)] [] = Some (True, [1])
   \<and> gen_deserialize (class_env shadowed_idl) 1 ''Lamp'' [(''b'', VBool False)] \<lparr> br_in = [1], br_pos = 0 \<rparr>
       = Some (True, [(''b'', VBool False)], \<lparr> br_in = [1], br_pos = 1 \<rparr>)"
  (is "?p \<and> ?w \<and> ?r \<and> ?lw \<and> ?lr")
proof (intro conjI)
  show ?p by code_simp
  show ?w by code_simp
  show ?lw by code_simp
  show ?lr by code_simp
  show ?r by code_simp
qed

end
