(* ===== verification/Spec2Isabelle.thy ===== *)
theory Spec2Isabelle
  imports Sd_Deadline Daemon_Main Demo_System Sd_Service_Test Sd_Unix_Control App_Test Params_Test Gen_Vehicle Gen_Names
begin

text \<open>
  Verification of OpenVeh SOME/IP: service discovery (\<open>services/someip_sd_cpp\<close>), the application
  framework (\<open>services/someip_app_framework\<close>), the generated code and its generator (\<open>tools/someip_idl\<close>).

  \<^bold>\<open>The program.\<close> A daemon keeps a registry of services. Clients send it SOME/IP service-discovery
  datagrams over UDP or a Unix socket: an Offer registers a service for a TTL, an Offer with TTL 0
  removes it, a Find is answered with the matching Offers. Applications use the client class
  \<open>SomeIpSdApi\<close>; once a service is found they talk to it directly, with messages whose payloads are
  generated parameter types. Generated applications do the same through a backend interface. A Python
  program emits the C++ of the parameter types from a description in JSON.

  \<^bold>\<open>Theories.\<close> \<open>Prelude\<close>: words and bytes, the locale \<open>be_codec\<close> of big-endian readers and writers.
  \<open>Inet\<close>: \<open>inet_pton\<close> and \<open>inet_ntop\<close>, a parameter with its contract \<open>inet_conv\<close> and a dotted-decimal
  instance. \<open>Decimal\<close>: \<open>std::to_string\<close> of numbers. \<open>Soft_State\<close>: the contract of a table of expiring
  entries and what histories of its
  operations leave.

  \<open>protocol.cpp\<close>: \<open>Sd_Types\<close> (types, constants), \<open>Sd_Wire\<close> (\<open>WriteU16\<close> to \<open>ReadU32\<close>), \<open>Sd_Packet\<close>
  (\<open>EncodePacket\<close>, \<open>DecodePacket\<close>), \<open>Sd_Blocks\<close> (\<open>ParseSdBlocks\<close> and the grammar it accepts),
  \<open>Sd_Payload\<close> (builders and parsers of Find and Offer).
  \<open>sd_daemon.cpp\<close>: \<open>Sd_Registry\<close> (\<open>registry_\<close>, \<open>CleanupExpired\<close>; it interprets \<open>soft_state\<close>),
  \<open>Sd_Daemon\<close> (\<open>HandlePacket\<close>, the handling of a datagram), \<open>Sd_Serve\<close> (\<open>ServeLoop\<close> as a step
  relation, its invariant, its refinement of the soft-state table), \<open>Sd_Lifecycle\<close> (construction,
  \<open>Start\<close>, \<open>Stop\<close> with its wake-up datagrams, destruction, socket setup, and the thread with its \<open>poll\<close>), \<open>Sd_Sockets\<close> (the same set-up, and the end of
  \<open>ServeLoop\<close>, on descriptors and socket files), \<open>Sd_Canonical\<close> (the type of what the registry holds),
  \<open>Daemon_Main\<close> (\<open>run_sd_daemon.cpp\<close>).
  \<open>sd_api.cpp\<close>: \<open>Sd_Api\<close>; \<open>Sd_Deadline\<close> (the discovery loop on an endless stream of rounds). Client
  against daemon: \<open>Sd_System\<close> at a fixed time, \<open>Sd_Many\<close> with several daemons, \<open>Sd_Loss\<close> over a network
  that loses and repeats datagrams, \<open>Sd_Timed\<close> with a clock that advances and sweeps, \<open>Sd_Directory\<close>
  with losses, a clock and any number of clients, as a refinement of an abstract directory (through the
  contract \<open>simulation\<close> of theory \<open>Simulation\<close>).
  \<open>Sd_Client_Sockets\<close>: the client on descriptors and socket files; \<open>Sd_Unix_Control\<close>: its requests over
  the Unix domain at the same time, interleaved with the daemon at their system calls.
  \<open>someip_codec_support.hpp\<close>: \<open>Idl_Codec\<close>, with the contract \<open>serializable\<close> of a generated type; the
  generated types: \<open>Vehicle_Params\<close>, each an interpretation of it. \<open>application_runtime.hpp\<close>:
  \<open>App_Runtime\<close>, with the contract \<open>app_backend\<close>, interpreted on \<open>MockBackend\<close>.
  \<open>VehicleNodeApplication.hpp\<close>: \<open>Vehicle_App\<close>. The demos: \<open>App_Protocol\<close> (\<open>EncodeSomeIp\<close>,
  \<open>DecodeSomeIp\<close>), \<open>Provider_Demo\<close> (a pass of the loop), \<open>Provider_Main\<close> (\<open>main\<close>, with the daemon in
  time and over a network that loses and repeats datagrams), \<open>Consumer_Demo\<close>, \<open>Demo_System\<close> (provider, daemon
  and consumer together, the provider's state carried through its loop).
  \<open>generate_someip_params.py\<close>: \<open>Gen_Idl\<close> (from JSON documents to definitions), \<open>Gen_Emit\<close> (the emitted text,
  and the statements it prints), \<open>Gen_Semantics\<close> (what these statements do in C++, with scopes and shadowing),
  \<open>Gen_Hygiene\<close> (readers without their local variables), \<open>Gen_Correct\<close> and \<open>Gen_Total\<close> (every emitted class,
  through the contracts \<open>object_codec\<close> and \<open>total_codec\<close>), \<open>Gen_Headers\<close> and \<open>Gen_Vehicle\<close> (the documents and
  headers of the vehicle example, on which the contracts are interpreted), \<open>Gen_Names\<close> (names that break it). The tests:
  \<open>Sd_Service_Test\<close> (\<open>test_sd_service.cpp\<close>), \<open>App_Test\<close> (\<open>test_generated_app_framework.cpp\<close>),
  \<open>Params_Test\<close> (\<open>test_generated_params.cpp\<close>).

  \<^bold>\<open>Correspondence.\<close> Definitions keep the names of the code. Integers are words of their width, vectors of
  bytes are lists of 8-bit words, exceptions and failed calls are values of a sum or option type, an
  object that a method changes is passed and returned. The \<open>unordered_map\<close> of the registry is a finite
  partial function, and a loop over it takes the order of its keys as an argument, about which only
  \<open>enumerates\<close> is assumed: results hold for every order. Readings of a clock, received datagrams and the
  success of system calls are arguments, or premises of a step. The clock of the daemon is monotone and below
  \<open>2 ^ 63\<close> milliseconds, as a signed 64-bit count is. One server thread owns the registry, so a datagram
  is one step. The calls of emitted code carry the nesting depth as fuel: \<open>nests\<close> says how much is enough, and
  with it every call returns; 3 is enough for the vehicle example. Nothing else needs fuel: the scanner loops
  terminate because the cursor advances; the discovery loop, which may not end, is a partial function on the stream of its rounds; the other loops
  that wait for input are over the list of what they receive.

  \<^bold>\<open>What is shown.\<close> Frames: decoder and encoder are inverse, and the decoder accepts exactly the frames of
  the protocol (\<open>Sd_Packet\<close>). Blocks: the scanner accepts exactly the images of entry and option lists
  (\<open>Sd_Blocks\<close>). Payloads: Finds and Offers survive the wire, up to the resolution of the host and the
  bound of the TTL (\<open>Sd_Payload\<close>). Registry and daemon: the sweep removes exactly the expired entries;
  every answer is well-formed; only an Offer request changes the registry, at its key; the
  reachable states satisfy an invariant, and the registry is determined by the history (\<open>Sd_Registry\<close>,
  \<open>Sd_Daemon\<close>, \<open>Sd_Serve\<close>). System: the calls of all clients together behave as one directory
  would, also when datagrams are lost or repeated (\<open>Sd_Directory\<close>); a registration is found until its
  TTL is over and not after the next sweep; a discovery is complete up to 140 services for each daemon
  that answers (\<open>Sd_System\<close>, \<open>Sd_Many\<close>); a registration whose answer was lost can be retried
  (\<open>Sd_Loss\<close>);
  request ids run out (\<open>Sd_Api\<close>, \<open>Sd_System\<close>); a discovery returns exactly when its deadline is reached or
  a poll reports nothing (\<open>Sd_Deadline\<close>); what the registry holds is canonical, so clients read it back
  unchanged (\<open>Sd_Canonical\<close>). Life cycle: no operation terminates the process
  unless a socket setup fails, and then it does (\<open>Sd_Lifecycle\<close>, \<open>Daemon_Main\<close>); a \<open>Stop\<close> returns on every
  schedule of the two threads (\<open>Sd_Lifecycle\<close>); no descriptor leaks, and
  the socket file goes if its path fits (\<open>Sd_Sockets\<close>). Nor does the client leak any, or leave its reply
  sockets behind (\<open>Sd_Client_Sockets\<close>); requests with names of their own do not disturb each other, those
  of two clients of one process do (\<open>Sd_Unix_Control\<close>). Generated code: exact round trips for
  every type, bounds of the cursor, calls and events through the application framework
  (\<open>Vehicle_Params\<close>, \<open>Vehicle_App\<close>). Demos: the message codec is a bijection, the provider
  answers, notifies every subscriber, stays registered while its passes reach their timers and few enough of its
  requests are lost in a row, starves under foreign traffic, and on every path of its \<open>main\<close> leaves the registry
  without its entry when its last request arrives, except that it ends with an error and leaves it when its first
  registration is not answered; provider, daemon and consumer complete a session. Generator: what it accepts
  with hygienic names has readers and writers that are inverse to each other, and its readers return on every
  input (\<open>Gen_Correct\<close>, \<open>Gen_Total\<close>); run on the vehicle example it writes the checked-in headers, whose model
  is what the emitted statements do (\<open>Gen_Headers\<close>, \<open>Gen_Vehicle\<close>); without hygienic names data are lost or the
  class does not compile (\<open>Gen_Names\<close>). Tests: their assertions hold, that of the service under the
  timing it relies on.

  \<^bold>\<open>Not modelled.\<close> The system calls themselves, memory exhaustion, the log output, the generator of
  the application \<open>generate_someip_app.py\<close> (its output is modelled), the search for files and the JSON parser of the
  generator, characters beyond code point 255, the signal handlers of the programs, and
  \<open>CMakeCXXCompilerId.cpp\<close>, which CMake generated. Two threads that share one client object, whose request
  counter is not atomic, are not modelled either. Emitted code is checked for the declarations that clash, but
  its types only where a statement is executed, and the integers of a fresh object, which C++ leaves
  indeterminate, are 0.
\<close>

end
